(* ===== verification/Prelude.thy ===== *)
theory Prelude
  imports Main "HOL-Library.Word" "HOL-Library.AList" "HOL-Library.Monad_Syntax"
begin

text \<open>
  What every component of the model shares: the Go types the program is written with (bytes,
  20-byte addresses, 32-byte hashes, 64-bit integers, maps), the big-endian codecs of
  go-ethereum's \<^verbatim>\<open>common\<close> package and of \<^verbatim>\<open>math/big\<close> that the source calls, hexadecimal text,
  slice expressions with their bounds check, and the lemmas on them.

  A call that does not return normally (a nil dereference, an index out of range, a
  \<^verbatim>\<open>log.Panic\<close>, a loop that never ends) is \<^const>\<open>None\<close>; a Go error value is an \<^const>\<open>Inl\<close>.
\<close>

named_theorems codec_simps \<open>round trips and lengths of the byte codecs\<close>
named_theorems gomap_simps \<open>lookups in Go maps\<close>

section \<open>Types\<close>

type_synonym byte = "8 word"
type_synonym bytes = "byte list"
type_synonym address = "160 word"
type_synonym hash = "256 word"
type_synonym u64 = "64 word"

text \<open>
  A Go map is an association list whose keys are distinct; the order of the list is the order
  in which a \<^verbatim>\<open>range\<close> loop happens to visit the entries. It is read with \<^const>\<open>map_of\<close> and
  written with \<^const>\<open>AList.update\<close>.
\<close>

type_synonym ('k, 'v) gomap = "('k \<times> 'v) list"

definition gomap_wf :: "('k, 'v) gomap \<Rightarrow> bool" where
  "gomap_wf m \<longleftrightarrow> distinct (map fst m)"

section \<open>Big-endian numbers\<close>

primrec be_val :: "bytes \<Rightarrow> nat" where
  "be_val [] = 0"
| "be_val (b # bs) = unat b * 256 ^ length bs + be_val bs"

primrec be_bytes :: "nat \<Rightarrow> nat \<Rightarrow> bytes" where
  "be_bytes 0 x = []"
| "be_bytes (Suc n) x = be_bytes n (x div 256) @ [word_of_nat x]"

fun nat_bytes :: "nat \<Rightarrow> bytes" where
  "nat_bytes x = (if x = 0 then [] else nat_bytes (x div 256) @ [word_of_nat x])"

declare nat_bytes.simps [simp del]

lemma be_val_append [codec_simps]:
  "be_val (xs @ ys) = be_val xs * 256 ^ length ys + be_val ys"
  by (induction xs) (simp_all add: power_add algebra_simps)

lemma length_be_bytes [simp, codec_simps]: "length (be_bytes n x) = n"
  by (induction n arbitrary: x) simp_all

lemma be_val_be_bytes [codec_simps]: "be_val (be_bytes n x) = x mod 256 ^ n"
proof (induction n arbitrary: x)
  case (Suc n)
  have "be_val (be_bytes (Suc n) x) = (x div 256 mod 256 ^ n) * 256 + x mod 256"
    by (simp add: be_val_append Suc.IH unat_of_nat)
  also have "\<dots> = x mod (256 * 256 ^ n)"
    by (simp add: mod_mult2_eq mult.commute)
  finally show ?case by simp
qed simp

lemma be_val_bound: "be_val bs < 256 ^ length bs"
proof (induction bs)
  case (Cons b bs)
  have "unat b \<le> 255" using unsigned_less [where w = b and ?'a = nat] by simp
  then have "unat b * 256 ^ length bs \<le> 255 * 256 ^ length bs" by (rule mult_le_mono1)
  moreover have "256 * (256::nat) ^ length bs = 255 * 256 ^ length bs + 256 ^ length bs" by simp
  ultimately show ?case using Cons.IH unfolding be_val.simps length_Cons power_Suc
    by linarith
qed simp

lemma word_256_zero: "(256 :: byte) = 0"
  by simp

lemma be_bytes_be_val [codec_simps]: "be_bytes (length bs) (be_val bs) = bs"
proof (induction bs rule: rev_induct)
  case (snoc b bs)
  have "(be_val bs * 256 + unat b) div 256 = be_val bs"
    using unsigned_less [where w = b and ?'a = nat] by simp
  moreover have "(word_of_nat (be_val bs * 256 + unat b) :: byte) = b"
    by (simp add: word_256_zero)
  ultimately show ?case using snoc.IH by (simp add: be_val_append)
qed simp

lemma be_val_nat_bytes [simp, codec_simps]: "be_val (nat_bytes x) = x"
proof (induction x rule: nat_bytes.induct)
  case (1 x)
  show ?case
  proof (cases "x = 0")
    case False
    with 1 have "be_val (nat_bytes (x div 256)) = x div 256" by simp
    with False show ?thesis
      by (simp add: nat_bytes.simps [of x] be_val_append unat_of_nat)
  qed (simp add: nat_bytes.simps)
qed

lemma be_bytes_inject: "x < 256 ^ n \<Longrightarrow> y < 256 ^ n \<Longrightarrow> be_bytes n x = be_bytes n y \<longleftrightarrow> x = y"
  by (metis be_val_be_bytes mod_less)

section \<open>Addresses, hashes and big integers as bytes\<close>

text \<open>
  \<^verbatim>\<open>Address.Bytes\<close>, \<^verbatim>\<open>common.BytesToAddress\<close>, \<^verbatim>\<open>Hash.Bytes\<close> and \<^verbatim>\<open>common.BytesToHash\<close>: a byte
  string that is too long loses its leading bytes, one that is too short is padded on the left.
  \<^verbatim>\<open>big.Int.Bytes\<close> drops the sign and the leading zeros; \<^verbatim>\<open>big.Int.FillBytes\<close> panics when the
  absolute value does not fit.
\<close>

definition Address_Bytes :: "address \<Rightarrow> bytes" where
  "Address_Bytes a = be_bytes 20 (unat a)"

definition BytesToAddress :: "bytes \<Rightarrow> address" where
  "BytesToAddress bs = word_of_nat (be_val bs)"

definition Hash_Bytes :: "hash \<Rightarrow> bytes" where
  "Hash_Bytes h = be_bytes 32 (unat h)"

definition BytesToHash :: "bytes \<Rightarrow> hash" where
  "BytesToHash bs = word_of_nat (be_val bs)"

definition big_Bytes :: "int \<Rightarrow> bytes" where
  "big_Bytes x = nat_bytes (nat \<bar>x\<bar>)"

definition big_SetBytes :: "bytes \<Rightarrow> int" where
  "big_SetBytes bs = int (be_val bs)"

definition big_Uint64 :: "int \<Rightarrow> u64" where
  "big_Uint64 x = word_of_nat (nat \<bar>x\<bar>)"

definition big_FillBytes :: "nat \<Rightarrow> int \<Rightarrow> bytes option" where
  "big_FillBytes n x = (if nat \<bar>x\<bar> < 256 ^ n then Some (be_bytes n (nat \<bar>x\<bar>)) else None)"

lemma length_Address_Bytes [simp, codec_simps]: "length (Address_Bytes a) = 20"
  by (simp add: Address_Bytes_def)

lemma length_Hash_Bytes [simp, codec_simps]: "length (Hash_Bytes h) = 32"
  by (simp add: Hash_Bytes_def)

lemma unat_address_bound: "unat (a :: address) < 256 ^ 20"
  using unsigned_less [where w = a and ?'a = nat] by simp

lemma unat_hash_bound: "unat (h :: hash) < 256 ^ 32"
  using unsigned_less [where w = h and ?'a = nat] by simp

lemma BytesToAddress_Address_Bytes [simp, codec_simps]: "BytesToAddress (Address_Bytes a) = a"
  using unat_address_bound [of a] by (simp add: BytesToAddress_def Address_Bytes_def be_val_be_bytes)

lemma BytesToHash_Hash_Bytes [simp, codec_simps]: "BytesToHash (Hash_Bytes h) = h"
  using unat_hash_bound [of h] by (simp add: BytesToHash_def Hash_Bytes_def be_val_be_bytes)

lemma Address_Bytes_inject [simp]: "Address_Bytes a = Address_Bytes b \<longleftrightarrow> a = b"
  by (metis BytesToAddress_Address_Bytes)

lemma Hash_Bytes_inject [simp]: "Hash_Bytes g = Hash_Bytes h \<longleftrightarrow> g = h"
  by (metis BytesToHash_Hash_Bytes)

lemma Address_Bytes_BytesToAddress [codec_simps]:
  assumes "length bs = 20"
  shows "Address_Bytes (BytesToAddress bs) = bs"
proof -
  have "be_val bs < 2 ^ LENGTH(160)" using be_val_bound [of bs] assms by simp
  then have "unat (BytesToAddress bs) = be_val bs"
    by (simp add: BytesToAddress_def unat_of_nat)
  with be_bytes_be_val [of bs] assms show ?thesis by (simp add: Address_Bytes_def)
qed

lemma Hash_Bytes_BytesToHash [codec_simps]:
  assumes "length bs = 32"
  shows "Hash_Bytes (BytesToHash bs) = bs"
proof -
  have "be_val bs < 2 ^ LENGTH(256)" using be_val_bound [of bs] assms by simp
  then have "unat (BytesToHash bs) = be_val bs"
    by (simp add: BytesToHash_def unat_of_nat)
  with be_bytes_be_val [of bs] assms show ?thesis by (simp add: Hash_Bytes_def)
qed

lemma big_SetBytes_big_Bytes [simp, codec_simps]: "big_SetBytes (big_Bytes x) = \<bar>x\<bar>"
  by (simp add: big_SetBytes_def big_Bytes_def)

lemma big_SetBytes_nonneg [simp]: "0 \<le> big_SetBytes bs"
  by (simp add: big_SetBytes_def)

lemma big_SetBytes_Nil [simp]: "big_SetBytes [] = 0"
  by (simp add: big_SetBytes_def)

lemma big_FillBytes_length: "big_FillBytes n x = Some bs \<Longrightarrow> length bs = n"
  by (auto simp: big_FillBytes_def split: if_splits)

lemma big_FillBytes_val: "big_FillBytes n x = Some bs \<Longrightarrow> be_val bs = nat \<bar>x\<bar>"
  by (auto simp: big_FillBytes_def be_val_be_bytes split: if_splits)

section \<open>Hexadecimal text\<close>

text \<open>
  \<^verbatim>\<open>common.Bytes2Hex\<close> writes lower-case digits; \<^verbatim>\<open>common.Hex2Bytes\<close> ignores the decoder's
  error and returns the bytes decoded before the first character that is no digit.
\<close>

definition hex_digit :: "nat \<Rightarrow> char" where
  "hex_digit n = (if n < 10 then char_of (48 + n) else char_of (87 + n))"

definition hex_value :: "char \<Rightarrow> nat option" where
  "hex_value c = (let n = of_char c in
     if 48 \<le> n \<and> n \<le> 57 then Some (n - 48)
     else if 97 \<le> n \<and> n \<le> 102 then Some (n - 87)
     else if 65 \<le> n \<and> n \<le> 70 then Some (n - 55)
     else None)"

definition Bytes2Hex :: "bytes \<Rightarrow> string" where
  "Bytes2Hex bs = concat (map (\<lambda>b. [hex_digit (unat b div 16), hex_digit (unat b mod 16)]) bs)"

fun Hex2Bytes :: "string \<Rightarrow> bytes" where
  "Hex2Bytes (c # d # cs) = (case (hex_value c, hex_value d) of
     (Some hi, Some lo) \<Rightarrow> word_of_nat (hi * 16 + lo) # Hex2Bytes cs
   | _ \<Rightarrow> [])"
| "Hex2Bytes _ = []"

lemma hex_value_hex_digit: "n < 16 \<Longrightarrow> hex_value (hex_digit n) = Some n"
  by (simp add: hex_value_def hex_digit_def Let_def)

lemma Hex2Bytes_Bytes2Hex [simp, codec_simps]: "Hex2Bytes (Bytes2Hex bs) = bs"
proof (induction bs)
  case (Cons b bs)
  have "unat b div 16 < 16" using unsigned_less [where w = b and ?'a = nat] by (simp add: less_mult_imp_div_less)
  moreover have "unat b mod 16 < 16" by simp
  moreover have "(word_of_nat (unat b div 16 * 16 + unat b mod 16) :: byte) = b" by simp
  ultimately show ?case using Cons.IH
    by (simp add: Bytes2Hex_def hex_value_hex_digit del: div_mult_mod_eq)
qed (simp add: Bytes2Hex_def)

text \<open>The value of a pointer, or a default for nil.\<close>

definition opt_else :: "'a \<Rightarrow> 'a option \<Rightarrow> 'a" where
  "opt_else d x = (case x of Some v \<Rightarrow> v | None \<Rightarrow> d)"

section \<open>Slices and indices\<close>

definition go_index :: "'a list \<Rightarrow> int \<Rightarrow> 'a option" where
  "go_index xs i = (if 0 \<le> i \<and> i < int (length xs) then Some (xs ! nat i) else None)"

definition go_slice :: "'a list \<Rightarrow> int \<Rightarrow> int \<Rightarrow> 'a list option" where
  "go_slice xs b e =
     (if 0 \<le> b \<and> b \<le> e \<and> e \<le> int (length xs) then Some (take (nat (e - b)) (drop (nat b) xs))
      else None)"

lemma go_slice_full [simp]: "go_slice xs 0 (int (length xs)) = Some xs"
  by (simp add: go_slice_def)

text \<open>Go's \<^verbatim>\<open>copy\<close> into a part of an array: as many bytes as fit.\<close>

definition copy_at :: "nat \<Rightarrow> nat \<Rightarrow> bytes \<Rightarrow> bytes \<Rightarrow> bytes" where
  "copy_at b e src dst =
     (let n = min (e - b) (length src) in take b dst @ take n src @ drop (b + n) dst)"

lemma length_copy_at [simp]: "b \<le> e \<Longrightarrow> e \<le> length dst \<Longrightarrow> length (copy_at b e src dst) = length dst"
  by (simp add: copy_at_def Let_def)

section \<open>Go maps\<close>

lemma map_of_update [simp, gomap_simps]: "map_of (AList.update k v m) = (map_of m)(k \<mapsto> v)"
  by (rule update_conv')

lemma gomap_wf_Nil [simp]: "gomap_wf []"
  by (simp add: gomap_wf_def)

lemma gomap_wf_update [simp]: "gomap_wf m \<Longrightarrow> gomap_wf (AList.update k v m)"
  by (simp add: gomap_wf_def distinct_update)

lemma gomap_wf_map_of: "gomap_wf m \<Longrightarrow> (k, v) \<in> set m \<longleftrightarrow> map_of m k = Some v"
  by (simp add: gomap_wf_def)

text \<open>Copying every entry of one map over another, as the \<^verbatim>\<open>range\<close> loops of the source do.\<close>

definition copy_over :: "('k, 'v) gomap \<Rightarrow> ('k, 'v) gomap \<Rightarrow> ('k, 'v) gomap" where
  "copy_over src dst = fold (\<lambda>(k, v) m. AList.update k v m) src dst"

definition copy_missing :: "('k, 'v) gomap \<Rightarrow> ('k, 'v) gomap \<Rightarrow> ('k, 'v) gomap" where
  "copy_missing src dst =
     fold (\<lambda>(k, v) m. if map_of m k \<noteq> None then m else AList.update k v m) src dst"

lemma map_of_copy_over [gomap_simps]:
  "gomap_wf src \<Longrightarrow> map_of (copy_over src dst) = map_of dst ++ map_of src"
proof (induction src arbitrary: dst)
  case (Cons p src)
  obtain k v where p: "p = (k, v)" by (cases p)
  from Cons.prems have wf: "gomap_wf src" and notin: "map_of src k = None"
    by (auto simp: gomap_wf_def p map_of_eq_None_iff)
  have "map_of (copy_over (p # src) dst) = map_of (AList.update k v dst) ++ map_of src"
    using Cons.IH [OF wf] by (simp add: copy_over_def p del: map_of_update)
  with notin show ?case
    by (auto simp: p fun_eq_iff map_add_def split: option.splits)
qed (simp add: copy_over_def)

lemma map_of_copy_missing [gomap_simps]:
  "gomap_wf src \<Longrightarrow> map_of (copy_missing src dst) = map_of src ++ map_of dst"
proof (induction src arbitrary: dst)
  case (Cons p src)
  obtain k v where p: "p = (k, v)" by (cases p)
  from Cons.prems have wf: "gomap_wf src" and notin: "map_of src k = None"
    by (auto simp: gomap_wf_def p map_of_eq_None_iff)
  let ?d = "if map_of dst k \<noteq> None then dst else AList.update k v dst"
  have "map_of (copy_missing (p # src) dst) = map_of src ++ map_of ?d"
    using Cons.IH [OF wf] by (simp add: copy_missing_def p)
  with notin show ?case
    by (auto simp: p fun_eq_iff map_add_def split: option.splits)
qed (simp add: copy_missing_def)

lemma gomap_wf_copy_over: "gomap_wf dst \<Longrightarrow> gomap_wf (copy_over src dst)"
proof (induction src arbitrary: dst)
  case (Cons p src)
  from Cons.IH [OF gomap_wf_update [OF Cons.prems]] show ?case
    by (simp add: copy_over_def split: prod.split)
qed (simp add: copy_over_def)

lemma gomap_wf_copy_missing: "gomap_wf dst \<Longrightarrow> gomap_wf (copy_missing src dst)"
proof (induction src arbitrary: dst)
  case (Cons p src)
  from Cons.IH [OF gomap_wf_update [OF Cons.prems]] Cons.IH [OF Cons.prems] show ?case
    by (simp add: copy_missing_def split: prod.split)
qed (simp add: copy_missing_def)

section \<open>Machines that never fail\<close>

text \<open>
  The outcomes of a sequence of steps, each of which may fail (\<^const>\<open>None\<close>, after which there is no
  next step). A machine whose steps succeed from every state in order, and end in one, has no
  outcome but states in order.
\<close>

inductive outcomes :: "('s \<Rightarrow> 's option \<Rightarrow> bool) \<Rightarrow> 's \<Rightarrow> 's option \<Rightarrow> bool" for step s0 where
  here: "outcomes step s0 (Some s0)"
| further: "outcomes step s0 (Some s) \<Longrightarrow> step s n \<Longrightarrow> outcomes step s0 n"

lemma outcomes_trans:
  assumes "outcomes step s1 n" "outcomes step s0 (Some s1)"
  shows "outcomes step s0 n"
  using assms by (induction rule: outcomes.induct) (auto intro: outcomes.further)

lemma outcomes_one: "step s n \<Longrightarrow> outcomes step s n"
  by (rule outcomes.further [OF outcomes.here])

lemma outcomes_first: "step s (Some s1) \<Longrightarrow> outcomes step s1 n \<Longrightarrow> outcomes step s n"
  by (rule outcomes_trans) (auto intro: outcomes_one)

locale safe_machine =
  fixes step :: "'s \<Rightarrow> 's option \<Rightarrow> bool" and ok :: "'s \<Rightarrow> bool"
  assumes step_safe: "ok s \<Longrightarrow> step s n \<Longrightarrow> \<exists>s'. n = Some s' \<and> ok s'"
begin

lemma outcome_ok:
  assumes "outcomes step s0 n" "ok s0"
  shows "\<exists>s. n = Some s \<and> ok s"
  using assms by (induction rule: outcomes.induct) (use step_safe in auto)

lemma outcome_state: "outcomes step s0 (Some s) \<Longrightarrow> ok s0 \<Longrightarrow> ok s"
  using outcome_ok by blast

end

text \<open>A machine that can always bring its work nearer to the end can finish it.\<close>

locale live_machine = safe_machine step ok for step :: "'s \<Rightarrow> 's option \<Rightarrow> bool" and ok +
  fixes rank :: "'s \<Rightarrow> nat"
  assumes progress: "ok s \<Longrightarrow> 0 < rank s \<Longrightarrow> \<exists>s'. outcomes step s (Some s') \<and> rank s' < rank s"
begin

lemma can_finish: "ok s \<Longrightarrow> \<exists>s'. outcomes step s (Some s') \<and> ok s' \<and> rank s' = 0"
proof (induction "rank s" arbitrary: s rule: less_induct)
  case less
  show ?case
  proof (cases "rank s = 0")
    case True
    with less.prems show ?thesis by (auto intro: outcomes.here)
  next
    case False
    with progress [OF less.prems] obtain s1 where s1: "outcomes step s (Some s1)" "rank s1 < rank s" by auto
    with less.hyps [OF s1(2)] outcome_state [OF s1(1) less.prems] show ?thesis by (blast intro: outcomes_trans)
  qed
qed

end

end
