(* ===== verification/Geth.thy ===== *)
theory Geth
  imports Prelude
begin

text \<open>
  The data the program exchanges with go-ethereum v1.10.26: log entries, receipts, transactions,
  messages, headers and blocks. Only the fields that the source reads or writes are kept. These
  types carry data and no behaviour; go-ethereum's own functions are parameters of the
  definitions that call them.
\<close>

type_synonym access_list = "(address \<times> hash list) list"

text \<open>\<^verbatim>\<open>types.Log\<close>.\<close>

record Log =
  log_Address :: address
  log_Topics :: "hash list"
  log_Data :: bytes

text \<open>
  \<^verbatim>\<open>types.Receipt\<close>. \<^verbatim>\<open>BlockNumber\<close> is a pointer to a \<^verbatim>\<open>big.Int\<close>: the model keeps the index of
  the cell it points to.
\<close>

record Receipt =
  rcpt_Type :: nat
  rcpt_PostState :: bytes
  rcpt_Status :: nat
  rcpt_CumulativeGasUsed :: u64
  rcpt_Logs :: "Log list"
  rcpt_TxHash :: hash
  rcpt_ContractAddress :: address
  rcpt_GasUsed :: u64
  rcpt_BlockHash :: hash
  rcpt_BlockNumber :: nat
  rcpt_TransactionIndex :: nat

text \<open>
  \<^verbatim>\<open>types.Transaction\<close>: the fields of \<^verbatim>\<open>LegacyTx\<close> (type 0), \<^verbatim>\<open>AccessListTx\<close> (type 1) and
  \<^verbatim>\<open>DynamicFeeTx\<close> (type 2), with the raw signature values.
\<close>

record Transaction =
  tx_Type :: nat
  tx_ChainID :: int
  tx_Nonce :: u64
  tx_GasPrice :: int
  tx_GasTipCap :: int
  tx_GasFeeCap :: int
  tx_Gas :: u64
  tx_To :: "address option"
  tx_Value :: int
  tx_Data :: bytes
  tx_AccessList :: access_list
  tx_V :: int
  tx_R :: int
  tx_S :: int

text \<open>\<^verbatim>\<open>types.Message\<close>.\<close>

record Message =
  msg_From :: address
  msg_To :: "address option"
  msg_Nonce :: u64
  msg_Value :: int
  msg_Gas :: u64
  msg_GasPrice :: int
  msg_GasFeeCap :: int
  msg_GasTipCap :: int
  msg_Data :: bytes
  msg_AccessList :: access_list
  msg_IsFake :: bool

text \<open>\<^verbatim>\<open>types.Header\<close> and \<^verbatim>\<open>types.Block\<close>.\<close>

record Header =
  hd_ParentHash :: hash
  hd_Coinbase :: address
  hd_Difficulty :: int
  hd_Number :: int
  hd_GasLimit :: u64
  hd_GasUsed :: u64
  hd_Time :: u64
  hd_BaseFee :: "int option"

record Block =
  blk_Header :: Header
  blk_Transactions :: "Transaction list"
  blk_Uncles :: "Header list"

text \<open>
  \<^verbatim>\<open>core.ExecutionResult\<close>. \<^verbatim>\<open>Err\<close> is \<^const>\<open>None\<close> on success; \<^verbatim>\<open>Revert()\<close> is the return data
  when the error is \<^verbatim>\<open>vm.ErrExecutionReverted\<close> and nil otherwise, \<^verbatim>\<open>Return()\<close> is the return data
  when there is no error.
\<close>

datatype vm_error = ErrExecutionReverted | OtherVMError string

record ExecutionResult =
  er_UsedGas :: u64
  er_Err :: "vm_error option"
  er_ReturnData :: bytes

definition er_Failed :: "ExecutionResult \<Rightarrow> bool" where
  "er_Failed r \<longleftrightarrow> er_Err r \<noteq> None"

definition er_Revert :: "ExecutionResult \<Rightarrow> bytes" where
  "er_Revert r = (if er_Err r = Some ErrExecutionReverted then er_ReturnData r else [])"

definition er_Return :: "ExecutionResult \<Rightarrow> bytes" where
  "er_Return r = (if er_Err r = None then er_ReturnData r else [])"

end
