(* ===== verification/OverlayState.thy ===== *)
theory OverlayState
  imports Geth
begin

text \<open>
  \<^verbatim>\<open>mferstate/overlaystate.go\<close>: the chain of scratch pads. An \<^verbatim>\<open>OverlayState\<close> is a layer of a
  copy-on-write store; its parent pointer leads to the layer below, and the layer without a
  parent is the root, a cache of the upstream node's state at one block. Layers are shared by
  pointer (every clone of a database reads through the same lower layers), so they live in an
  explicit heap and a pointer is an index into it.

  The upstream node is not part of the source: it is the parameter \<open>E\<close> of the definitions,
  which says for the n-th batch request whether the transport fails, and otherwise what each
  element is answered.
\<close>

section \<open>The upstream node and the world\<close>

text \<open>
  Besides the upstream node, \<open>E\<close> carries the other things the source takes from outside: the
  Keccak hash function, the random numbers that name the layers, the texts that \<^verbatim>\<open>time.Now\<close>
  yields at start-up, and whether opening a file fails.
\<close>

text \<open>
  The elements of the batch requests the source builds; the block number is the \<^verbatim>\<open>int64\<close> that
  \<^verbatim>\<open>hexutil.EncodeBig\<close> is given.
\<close>

datatype BatchElem =
    eth_getTransactionCount address int
  | eth_getBalance address int
  | eth_getCode address int
  | eth_getStorageAt address hash int
  | eth_getProof address "string list" int

text \<open>What an element's \<^verbatim>\<open>Result\<close> is decoded into.\<close>

record StorageResult =
  sres_Key :: string
  sres_Value :: "int option"
  sres_Proof :: "string list"

record AccountResult =
  ar_Address :: address
  ar_AccountProof :: "string list"
  ar_Balance :: "int option"
  ar_CodeHash :: hash
  ar_Nonce :: u64
  ar_StorageHash :: hash
  ar_StorageProof :: "StorageResult list"

datatype rpc_value = VUint64 u64 | VBig int | VBytes bytes | VHash hash | VProof AccountResult

record env =
  keccak256 :: "bytes \<Rightarrow> hash"
  rand_Uint64 :: "nat \<Rightarrow> u64"
  rpc_fail :: "nat \<Rightarrow> string option"
  rpc_answer :: "nat \<Rightarrow> BatchElem \<Rightarrow> rpc_value option"
  time_now :: "nat \<Rightarrow> string"
  openfile_err :: "string \<Rightarrow> bool"

text \<open>
  An element whose own \<^verbatim>\<open>Error\<close> is set (answer \<^const>\<open>None\<close>), or whose answer does not decode
  into the type of its \<^verbatim>\<open>Result\<close>, leaves the result at its zero value.
\<close>

definition as_uint64 :: "rpc_value option \<Rightarrow> u64" where
  "as_uint64 a = (case a of Some (VUint64 n) \<Rightarrow> n | _ \<Rightarrow> 0)"

definition as_big :: "rpc_value option \<Rightarrow> int" where
  "as_big a = (case a of Some (VBig n) \<Rightarrow> n | _ \<Rightarrow> 0)"

definition as_bytes :: "rpc_value option \<Rightarrow> bytes" where
  "as_bytes a = (case a of Some (VBytes b) \<Rightarrow> b | _ \<Rightarrow> [])"

definition as_hash :: "rpc_value option \<Rightarrow> hash" where
  "as_hash a = (case a of Some (VHash h) \<Rightarrow> h | _ \<Rightarrow> 0)"

definition as_proof :: "rpc_value option \<Rightarrow> AccountResult" where
  "as_proof a = (case a of
     Some (VProof r) \<Rightarrow> r
   | _ \<Rightarrow> \<lparr>ar_Address = 0, ar_AccountProof = [], ar_Balance = None, ar_CodeHash = 0, ar_Nonce = 0,
          ar_StorageHash = 0, ar_StorageProof = []\<rparr>)"

type_synonym ref = nat

text \<open>
  A layer. \<open>bn\<close> tells whether the pointers that only \<^verbatim>\<open>NewOverlayState\<close> sets (the block number
  and the mutexes) are non-nil; where they are, the block number is the cell
  \<open>blockNumber\<close> of the world, which \<^verbatim>\<open>MferEVM\<close> shares with the state database and the root.
\<close>

record OverlayState =
  parent :: "ref option"
  bn :: bool
  scratchPad :: "(bytes, bytes) gomap"
  batchSize :: int
  accessedAccounts :: "(address, bool) gomap"
  txLogs :: "(hash, Log list) gomap"
  receipts :: "(hash, Receipt) gomap"
  currentTxHash :: hash
  currentBlockHash :: hash
  deriveCnt :: int
  rpcCnt :: int
  reason :: string
  stateID :: u64

text \<open>
  The world: the layers, the number of requests sent upstream, the shared block number, the
  lines of the key cache file and the \<^verbatim>\<open>big.Int\<close> cells that are shared by pointer.
\<close>

record world =
  heap :: "OverlayState list"
  clock :: nat
  blockNumber :: u64
  keyCacheFile :: "string list"
  bigs :: "int list"

definition st :: "world \<Rightarrow> ref \<Rightarrow> OverlayState" where
  "st w r = heap w ! r"

definition upd_st :: "ref \<Rightarrow> (OverlayState \<Rightarrow> OverlayState) \<Rightarrow> world \<Rightarrow> world" where
  "upd_st r f w = w\<lparr>heap := (heap w)[r := f (heap w ! r)]\<rparr>"

section \<open>Construction and navigation\<close>

definition NewOverlayState :: "int \<Rightarrow> world \<Rightarrow> ref \<times> world" where
  "NewOverlayState bsize w =
     (length (heap w),
      w\<lparr>heap := heap w @
        [\<lparr>parent = None, bn = True, scratchPad = [], batchSize = bsize, accessedAccounts = [],
          txLogs = [], receipts = [], currentTxHash = 0, currentBlockHash = 0, deriveCnt = 0,
          rpcCnt = 0, reason = [], stateID = 0\<rparr>]\<rparr>)"

definition Derive :: "env \<Rightarrow> string \<Rightarrow> ref \<Rightarrow> world \<Rightarrow> ref \<times> world" where
  "Derive E why s w =
     (length (heap w),
      w\<lparr>heap := heap w @
        [\<lparr>parent = Some s, bn = False, scratchPad = [], batchSize = 0, accessedAccounts = [],
          txLogs = [], receipts = [], currentTxHash = currentTxHash (st w s),
          currentBlockHash = currentBlockHash (st w s), deriveCnt = deriveCnt (st w s) + 1,
          rpcCnt = 0, reason = why, stateID = rand_Uint64 E (length (heap w))\<rparr>]\<rparr>)"

definition Parent :: "ref \<Rightarrow> world \<Rightarrow> ref option" where
  "Parent s w = parent (st w s)"

partial_function (option) getRootState :: "ref \<Rightarrow> world \<Rightarrow> ref option" where
  "getRootState s w = (case parent (st w s) of None \<Rightarrow> Some s | Some p \<Rightarrow> getRootState p w)"

definition DeriveFromRoot :: "env \<Rightarrow> ref \<Rightarrow> world \<Rightarrow> (ref \<times> world) option" where
  "DeriveFromRoot E s w = do {
     root \<leftarrow> getRootState s w;
     Some (Derive E ''from root'' root w)
   }"

section \<open>Scratch pad keys\<close>

datatype RequestType = GET_BALANCE | GET_NONCE | GET_CODE | GET_CODEHASH | GET_STATE

definition str_bytes :: "string \<Rightarrow> bytes" where
  "str_bytes s = map (\<lambda>c. word_of_nat (of_char c)) s"

definition BALANCE_KEY :: "env \<Rightarrow> hash" where
  "BALANCE_KEY E = keccak256 E (str_bytes ''mfersafe-scratchpad-balance'')"

definition NONCE_KEY :: "env \<Rightarrow> hash" where
  "NONCE_KEY E = keccak256 E (str_bytes ''mfersafe-scratchpad-nonce'')"

definition CODE_KEY :: "env \<Rightarrow> hash" where
  "CODE_KEY E = keccak256 E (str_bytes ''mfersafe-scratchpad-code'')"

definition CODEHASH_KEY :: "env \<Rightarrow> hash" where
  "CODEHASH_KEY E = keccak256 E (str_bytes ''mfersafe-scratchpad-codehash'')"

definition STATE_KEY :: "env \<Rightarrow> hash" where
  "STATE_KEY E = keccak256 E (str_bytes ''mfersafe-scratchpad-state'')"

definition SUICIDE_KEY :: "env \<Rightarrow> hash" where
  "SUICIDE_KEY E = keccak256 E (str_bytes ''mfersafe-suicide-state'')"

definition calcKey :: "hash \<Rightarrow> address \<Rightarrow> bytes" where
  "calcKey op account = Hash_Bytes op @ Address_Bytes account"

definition calcStateKey :: "env \<Rightarrow> address \<Rightarrow> hash \<Rightarrow> bytes" where
  "calcStateKey E account key = calcKey (STATE_KEY E) account @ Hash_Bytes key"

definition scratchpadKey :: "env \<Rightarrow> RequestType \<Rightarrow> address \<Rightarrow> hash \<Rightarrow> bytes" where
  "scratchpadKey E action account key = (case action of
     GET_BALANCE \<Rightarrow> calcKey (BALANCE_KEY E) account
   | GET_NONCE \<Rightarrow> calcKey (NONCE_KEY E) account
   | GET_CODE \<Rightarrow> calcKey (CODE_KEY E) account
   | GET_CODEHASH \<Rightarrow> calcKey (CODEHASH_KEY E) account
   | GET_STATE \<Rightarrow> calcStateKey E account key)"

section \<open>Batch requests to the upstream node\<close>

definition BatchCallContext ::
  "env \<Rightarrow> BatchElem list \<Rightarrow> world \<Rightarrow> (string + rpc_value option list) \<times> world" where
  "BatchCallContext E elems w =
     (case rpc_fail E (clock w) of
        Some e \<Rightarrow> Inl e
      | None \<Rightarrow> Inr (map (rpc_answer E (clock w)) elems),
      w\<lparr>clock := Suc (clock w)\<rparr>)"

record FetchedAccountResult =
  far_Account :: address
  far_Balance :: int
  far_CodeHash :: hash
  far_Nonce :: u64
  far_Code :: bytes

record StorageReq =
  sr_Address :: address
  sr_Key :: hash
  sr_Value :: hash

definition StorageReq_Hash :: "env \<Rightarrow> StorageReq \<Rightarrow> hash" where
  "StorageReq_Hash E r = keccak256 E (Address_Bytes (sr_Address r) @ Hash_Bytes (sr_Key r))"

text \<open>
  The request loop of \<^verbatim>\<open>loadAccountBatchRPC\<close>: the outer loop walks the elements in steps of the
  batch size, the inner one repeats a failed request; the failures are counted over all
  requests. \<open>acc\<close> holds the answers written so far.
\<close>

partial_function (option) account_batches ::
  "env \<Rightarrow> BatchElem list \<Rightarrow> int \<Rightarrow> int \<Rightarrow> nat \<Rightarrow> rpc_value option list \<Rightarrow> world \<Rightarrow>
   ((string + rpc_value option list) \<times> world) option" where
  "account_batches E batchElem step b rpcTries acc w =
     (if b < int (length batchElem) then do {
        let e = min (b + step) (int (length batchElem));
        chunk \<leftarrow> go_slice batchElem b e;
        (case BatchCallContext E chunk w of
           (Inl err, w1) \<Rightarrow>
             (if rpcTries + 1 > 5 then Some (Inl err, w1)
              else account_batches E batchElem step b (rpcTries + 1) acc w1)
         | (Inr answers, w1) \<Rightarrow>
             account_batches E batchElem step (b + step) rpcTries (acc @ answers) w1)
      } else Some (Inr acc, w))"

fun account_elems :: "int \<Rightarrow> address list \<Rightarrow> BatchElem list" where
  "account_elems n [] = []"
| "account_elems n (account # accounts) =
     eth_getTransactionCount account n # eth_getBalance account n # eth_getCode account n #
     account_elems n accounts"

fun account_results :: "env \<Rightarrow> rpc_value option list \<Rightarrow> FetchedAccountResult list" where
  "account_results E (n # b # c # rest) =
     \<lparr>far_Account = 0, far_Balance = as_big b,
      far_CodeHash = (if as_bytes c = [] then 0 else keccak256 E (as_bytes c)),
      far_Nonce = as_uint64 n, far_Code = as_bytes c\<rparr> # account_results E rest"
| "account_results E _ = []"

definition mark_accessed :: "address list \<Rightarrow> OverlayState \<Rightarrow> OverlayState" where
  "mark_accessed accounts s =
     s\<lparr>accessedAccounts := fold (\<lambda>a m. AList.update a True m) accounts (accessedAccounts s)\<rparr>"

definition loadAccountBatchRPC ::
  "env \<Rightarrow> ref \<Rightarrow> address list \<Rightarrow> world \<Rightarrow>
   ((string + FetchedAccountResult list) \<times> world) option" where
  "loadAccountBatchRPC E s accounts w =
     (if \<not> bn (st w s) then None
      else do {
        let batchElem = account_elems (sint (blockNumber w)) accounts;
        let w1 = upd_st s (mark_accessed accounts) w;
        (res, w2) \<leftarrow> account_batches E batchElem (batchSize (st w1 s)) 0 0 [] w1;
        (case res of
           Inl err \<Rightarrow> Some (Inl err, w2)
         | Inr answers \<Rightarrow> Some (Inr (account_results E answers), w2))
      })"

partial_function (option) state_batches ::
  "env \<Rightarrow> BatchElem list \<Rightarrow> int \<Rightarrow> int \<Rightarrow> rpc_value option list \<Rightarrow> world \<Rightarrow>
   ((string + rpc_value option list) \<times> world) option" where
  "state_batches E reqs step b acc w =
     (if b < int (length reqs) then do {
        let e = min (b + step) (int (length reqs));
        chunk \<leftarrow> go_slice reqs b e;
        (case BatchCallContext E chunk w of
           (Inl err, w1) \<Rightarrow> Some (Inl err, w1)
         | (Inr answers, w1) \<Rightarrow> state_batches E reqs step (b + step) (acc @ answers) w1)
      } else Some (Inr acc, w))"

definition loadStateBatchRPC ::
  "env \<Rightarrow> ref \<Rightarrow> StorageReq list \<Rightarrow> world \<Rightarrow> ((string + StorageReq list) \<times> world) option" where
  "loadStateBatchRPC E s storageReqs w =
     (if \<not> bn (st w s) then None
      else do {
        let w1 = upd_st s (\<lambda>x. x\<lparr>rpcCnt := rpcCnt x + 1\<rparr>) w;
        let reqs = map (\<lambda>r. eth_getStorageAt (sr_Address r) (sr_Key r) (sint (blockNumber w)))
                       storageReqs;
        (res, w2) \<leftarrow> state_batches E reqs (batchSize (st w1 s)) 0 [] w1;
        (case res of
           Inl err \<Rightarrow> Some (Inl err, w2)
         | Inr values \<Rightarrow>
             Some (Inr (map2 (\<lambda>r v. r\<lparr>sr_Value := as_hash v\<rparr>) storageReqs values), w2))
      })"

text \<open>
  Two loaders that nothing calls. The errors of the two elements of \<^verbatim>\<open>loadAccountViaGetProof\<close> are looked
  up in copies that were made before the request, so they are never seen: an element that failed
  leaves its zero value. \<^verbatim>\<open>StorageAt\<close> of \<^verbatim>\<open>ethclient\<close> is the parameter \<open>StorageAt\<close>, by request number.
\<close>

function proof_loop ::
  "env \<Rightarrow> BatchElem list \<Rightarrow> nat \<Rightarrow> world \<Rightarrow> (string + rpc_value option list) \<times> world" where
  "proof_loop E elems rpcTries w =
     (case BatchCallContext E elems w of
        (Inl err, w1) \<Rightarrow>
          (if rpcTries + 1 > 5 then (Inl err, w1) else proof_loop E elems (rpcTries + 1) w1)
      | (Inr answers, w1) \<Rightarrow> (Inr answers, w1))"
  by pat_completeness auto
termination
  by (relation "measure (\<lambda>(E, elems, rpcTries, w). 6 - rpcTries)") auto

definition loadAccountViaGetProof ::
  "env \<Rightarrow> ref \<Rightarrow> address \<Rightarrow> world \<Rightarrow> ((string + AccountResult \<times> bytes) \<times> world) option" where
  "loadAccountViaGetProof E s account w =
     (if \<not> bn (st w s) then None
      else (let hexBN = sint (blockNumber w) in
        case proof_loop E [eth_getProof account [] hexBN, eth_getCode account hexBN] 0 w of
          (Inl err, w1) \<Rightarrow> Some (Inl err, w1)
        | (Inr answers, w1) \<Rightarrow> do {
            result \<leftarrow> go_index answers 0;
            code \<leftarrow> go_index answers 1;
            Some (Inr (as_proof result, as_bytes code), w1)
          }))"

definition loadStateRPC ::
  "(nat \<Rightarrow> address \<Rightarrow> hash \<Rightarrow> int \<Rightarrow> string + bytes) \<Rightarrow> ref \<Rightarrow> address \<Rightarrow> hash \<Rightarrow> world \<Rightarrow>
   ((string + hash) \<times> world) option" where
  "loadStateRPC StorageAt s account key w =
     (if \<not> bn (st w s) then None
      else (let w1 = (upd_st s (\<lambda>x. x\<lparr>rpcCnt := rpcCnt x + 1\<rparr>) w)\<lparr>clock := Suc (clock w)\<rparr>
        in case StorageAt (clock w) account key (sint (blockNumber w)) of
             Inl err \<Rightarrow> Some (Inl err, w1)
           | Inr storage \<Rightarrow> Some (Inr (BytesToHash storage), w1)))"

section \<open>The request batcher\<close>

text \<open>The retry loops of \<^verbatim>\<open>timeSlot\<close>: the call is repeated until it returns no error.\<close>

partial_function (option) retry_until ::
  "(world \<Rightarrow> ((string + 'a) \<times> world) option) \<Rightarrow> world \<Rightarrow> ('a \<times> world) option" where
  "retry_until f w = do {
     (res, w1) \<leftarrow> f w;
     (case res of Inl err \<Rightarrow> retry_until f w1 | Inr v \<Rightarrow> Some (v, w1))
   }"

text \<open>
  One tick of \<^verbatim>\<open>timeSlot\<close> on the storage channel: the requests counted when the tick was armed
  (\<open>storageReqLen\<close>) are taken off the channel and answered in order; requests that arrived
  later stay. Receiving more than the channel holds would block.
\<close>

definition timeSlot_storage ::
  "env \<Rightarrow> ref \<Rightarrow> nat \<Rightarrow> StorageReq list \<Rightarrow> world \<Rightarrow>
   (StorageReq list \<times> StorageReq list \<times> world) option" where
  "timeSlot_storage E s storageReqLen chan w =
     (if length chan < storageReqLen then None
      else if storageReqLen = 0 then Some ([], chan, w)
      else do {
        (answered, w1) \<leftarrow> retry_until (loadStateBatchRPC E s (take storageReqLen chan)) w;
        Some (answered, drop storageReqLen chan, w1)
      })"

definition timeSlot_account ::
  "env \<Rightarrow> ref \<Rightarrow> nat \<Rightarrow> address list \<Rightarrow> world \<Rightarrow>
   (FetchedAccountResult list \<times> address list \<times> world) option" where
  "timeSlot_account E s accReqLen chan w =
     (if length chan < accReqLen then None
      else if accReqLen = 0 then Some ([], chan, w)
      else do {
        (accResult, w1) \<leftarrow> retry_until (loadAccountBatchRPC E s (take accReqLen chan)) w;
        Some (accResult, drop accReqLen chan, w1)
      })"

definition loadState :: "env \<Rightarrow> ref \<Rightarrow> address \<Rightarrow> hash \<Rightarrow> world \<Rightarrow> (hash \<times> world) option" where
  "loadState E s account key w = do {
     let req = \<lparr>sr_Address = account, sr_Key = key, sr_Value = 0\<rparr>;
     (answered, _, w1) \<leftarrow> timeSlot_storage E s 1 [req] w;
     result \<leftarrow> go_index answered 0;
     Some (sr_Value result, w1)
   }"

definition loadAccount ::
  "env \<Rightarrow> ref \<Rightarrow> address \<Rightarrow> world \<Rightarrow> (FetchedAccountResult \<times> world) option" where
  "loadAccount E s account w = do {
     (accResult, _, w1) \<leftarrow> timeSlot_account E s 1 [account] w;
     result \<leftarrow> go_index accResult 0;
     Some (result, w1)
   }"

section \<open>Reading through the layers\<close>

definition put_absent :: "'k \<Rightarrow> 'v \<Rightarrow> ('k, 'v) gomap \<Rightarrow> ('k, 'v) gomap" where
  "put_absent k v m = (if map_of m k = None then AList.update k v m else m)"

definition nonce_Bytes :: "u64 \<Rightarrow> bytes" where
  "nonce_Bytes nonce = big_Bytes (sint nonce)"

definition fill_account ::
  "env \<Rightarrow> address \<Rightarrow> FetchedAccountResult \<Rightarrow> (bytes, bytes) gomap \<Rightarrow> (bytes, bytes) gomap" where
  "fill_account E account result pad =
     put_absent (calcKey (CODEHASH_KEY E) account) (Hash_Bytes (far_CodeHash result))
      (put_absent (calcKey (CODE_KEY E) account) (far_Code result)
       (put_absent (calcKey (NONCE_KEY E) account) (nonce_Bytes (far_Nonce result))
        (put_absent (calcKey (BALANCE_KEY E) account) (big_Bytes (far_Balance result)) pad)))"

definition get_root ::
  "env \<Rightarrow> ref \<Rightarrow> address \<Rightarrow> RequestType \<Rightarrow> hash \<Rightarrow> world \<Rightarrow> (bytes \<times> world) option" where
  "get_root E s account action key w =
     (let k = scratchpadKey E action account key in
      case map_of (scratchPad (st w s)) k of
        Some val \<Rightarrow> Some (val, w)
      | None \<Rightarrow>
          (if action = GET_STATE then do {
             (result, w1) \<leftarrow> loadState E s account key w;
             Some (Hash_Bytes result,
                   upd_st s (\<lambda>x. x\<lparr>scratchPad := AList.update k (Hash_Bytes result) (scratchPad x)\<rparr>) w1)
           } else do {
             (result, w1) \<leftarrow> loadAccount E s account w;
             let w2 = upd_st s (\<lambda>x. x\<lparr>scratchPad := fill_account E account result (scratchPad x)\<rparr>) w1;
             Some (case map_of (scratchPad (st w2 s)) k of Some v \<Rightarrow> v | None \<Rightarrow> [], w2)
           }))"

partial_function (option) get ::
  "env \<Rightarrow> ref \<Rightarrow> address \<Rightarrow> RequestType \<Rightarrow> hash \<Rightarrow> world \<Rightarrow> (bytes \<times> world) option" where
  "get E s account action key w =
     (case parent (st w s) of
        None \<Rightarrow> get_root E s account action key w
      | Some p \<Rightarrow>
          (case map_of (scratchPad (st w s)) (scratchpadKey E action account key) of
             Some val \<Rightarrow> Some (val, w)
           | None \<Rightarrow> get E p account action key w))"

end
