(* ===== verification/Upstream.thy ===== *)
theory Upstream
  imports OverlayState
begin

text \<open>
  What the program gets from the upstream node: the contract the node has to meet, that the request
  loops of \<^verbatim>\<open>mferstate/overlaystate.go\<close> end under it with the answers to the requests they were given, how
  they fail without it, and a concrete node that meets it.
\<close>

section \<open>The contract of the upstream node\<close>

definition keys_distinct :: "env \<Rightarrow> bool" where
  "keys_distinct E \<longleftrightarrow>
     distinct [BALANCE_KEY E, NONCE_KEY E, CODE_KEY E, CODEHASH_KEY E, STATE_KEY E, SUICIDE_KEY E]"

definition stable_answers :: "env \<Rightarrow> bool" where
  "stable_answers E \<longleftrightarrow> (\<forall>t e. rpc_answer E t e = rpc_answer E 0 e)"

definition recovers :: "env \<Rightarrow> bool" where
  "recovers E \<longleftrightarrow> (\<forall>t n. \<exists>t'\<ge>t. \<forall>i<n. rpc_fail E (t' + i) = None)"

definition upstream_ok :: "env \<Rightarrow> bool" where
  "upstream_ok E \<longleftrightarrow> keys_distinct E \<and> stable_answers E \<and> recovers E"

definition answer :: "env \<Rightarrow> BatchElem \<Rightarrow> rpc_value option" where
  "answer E e = rpc_answer E 0 e"

lemma rpc_answer_stable: "stable_answers E \<Longrightarrow> rpc_answer E t = answer E"
  by (auto simp: stable_answers_def answer_def)

section \<open>The batch loops\<close>

lemma BatchCall_ok:
  "stable_answers E \<Longrightarrow> rpc_fail E (clock w) = None \<Longrightarrow>
   BatchCallContext E elems w = (Inr (map (answer E) elems), w\<lparr>clock := Suc (clock w)\<rparr>)"
  by (simp add: BatchCallContext_def rpc_answer_stable)

lemma BatchCall_err:
  "rpc_fail E (clock w) = Some e \<Longrightarrow>
   BatchCallContext E elems w = (Inl e, w\<lparr>clock := Suc (clock w)\<rparr>)"
  by (simp add: BatchCallContext_def)

text \<open>The elements of one request: from \<open>b\<close> to \<open>b + step\<close>, or to the end.\<close>

definition chunk_at :: "'a list \<Rightarrow> int \<Rightarrow> int \<Rightarrow> 'a list" where
  "chunk_at xs b step = take (nat (min (b + step) (int (length xs)) - b)) (drop (nat b) xs)"

lemma chunk_at_slice:
  "0 \<le> b \<Longrightarrow> b < int (length xs) \<Longrightarrow> 0 < step \<Longrightarrow>
   go_slice xs b (min (b + step) (int (length xs))) = Some (chunk_at xs b step)"
  by (auto simp: go_slice_def chunk_at_def)

lemma chunk_at_rest:
  assumes "0 \<le> b" "b < int (length xs)" "0 < step"
  shows "chunk_at xs b step @ drop (nat (b + step)) xs = drop (nat b) xs"
proof (cases "b + step \<le> int (length xs)")
  case True
  then have "nat (min (b + step) (int (length xs)) - b) = nat step" "nat (b + step) = nat step + nat b"
    using assms by auto
  then show ?thesis unfolding chunk_at_def by (metis append_take_drop_id drop_drop)
next
  case False
  then have "nat (min (b + step) (int (length xs)) - b) \<ge> length xs - nat b" "nat (b + step) \<ge> length xs"
    using assms by auto
  then show ?thesis by (simp add: chunk_at_def)
qed

lemma chunk_at_map:
  "0 \<le> b \<Longrightarrow> b < int (length xs) \<Longrightarrow> 0 < step \<Longrightarrow>
   (acc @ map f (chunk_at xs b step)) @ map f (drop (nat (b + step)) xs) = acc @ map f (drop (nat b) xs)"
  by (metis append.assoc chunk_at_rest map_append)

text \<open>
  What an attempt to load a batch can do: it returns, moves the clock only, and either has all
  answers in order or stops right after a request that failed.
\<close>

definition attempt_ok ::
  "env \<Rightarrow> nat \<Rightarrow> rpc_value option list \<Rightarrow> world \<Rightarrow> ((string + rpc_value option list) \<times> world) option \<Rightarrow> bool"
  where
  "attempt_ok E n vals w r \<longleftrightarrow> (\<exists>res c. r = Some (res, w\<lparr>clock := c\<rparr>) \<and> clock w \<le> c \<and> c \<le> clock w + n \<and>
     (res = Inr vals \<or> (\<exists>err. res = Inl err \<and> clock w < c \<and> rpc_fail E (c - 1) \<noteq> None)))"

lemma attempt_ok_step:
  assumes "attempt_ok E n vals (w\<lparr>clock := Suc (clock w)\<rparr>) r"
  shows "attempt_ok E (Suc n) vals w r"
  using assms unfolding attempt_ok_def by fastforce

lemma attempt_ok_mono: "attempt_ok E n vals w r \<Longrightarrow> n \<le> m \<Longrightarrow> attempt_ok E m vals w r"
  unfolding attempt_ok_def by (elim exE conjE, intro exI conjI) auto

lemma attempt_ok_done: "attempt_ok E n vals w (Some (Inr vals, w))"
  by (auto simp: attempt_ok_def intro!: exI [of _ "clock w"])

lemma attempt_ok_fail:
  "rpc_fail E (clock w) = Some e \<Longrightarrow> 0 < n \<Longrightarrow> attempt_ok E n vals w (Some (Inl e, w\<lparr>clock := Suc (clock w)\<rparr>))"
  by (auto simp: attempt_ok_def intro!: exI [of _ "Suc (clock w)"])

lemma state_batches_unfold:
  assumes "stable_answers E" "0 < step" "0 \<le> b"
  shows "state_batches E reqs step b acc w =
    (if b < int (length reqs)
     then case rpc_fail E (clock w) of
       Some e \<Rightarrow> Some (Inl e, w\<lparr>clock := Suc (clock w)\<rparr>)
     | None \<Rightarrow> state_batches E reqs step (b + step) (acc @ map (answer E) (chunk_at reqs b step)) (w\<lparr>clock := Suc (clock w)\<rparr>)
     else Some (Inr acc, w))"
  using assms by (subst state_batches.simps) (auto simp: chunk_at_slice BatchCallContext_def rpc_answer_stable split: option.split)

lemma account_batches_unfold:
  assumes "stable_answers E" "0 < step" "0 \<le> b"
  shows "account_batches E elems step b tries acc w =
    (if b < int (length elems)
     then case rpc_fail E (clock w) of
       Some e \<Rightarrow> if tries + 1 > 5 then Some (Inl e, w\<lparr>clock := Suc (clock w)\<rparr>)
                else account_batches E elems step b (tries + 1) acc (w\<lparr>clock := Suc (clock w)\<rparr>)
     | None \<Rightarrow> account_batches E elems step (b + step) tries (acc @ map (answer E) (chunk_at elems b step)) (w\<lparr>clock := Suc (clock w)\<rparr>)
     else Some (Inr acc, w))"
  using assms by (subst account_batches.simps) (auto simp: chunk_at_slice BatchCallContext_def rpc_answer_stable split: option.split)

lemma state_batches_ok:
  assumes E: "stable_answers E" and step: "0 < step" and b: "0 \<le> b"
  shows "attempt_ok E (length reqs - nat b) (acc @ map (answer E) (drop (nat b) reqs)) w
           (state_batches E reqs step b acc w)"
  using b
proof (induction "length reqs - nat b" arbitrary: b acc w rule: less_induct)
  case less
  note run = state_batches_unfold [OF E step less.prems, of reqs acc w]
  show ?case
  proof (cases "b < int (length reqs)")
    case False
    with run attempt_ok_done show ?thesis by simp
  next
    case True
    have len: "length reqs - nat (b + step) < length reqs - nat b" using True less.prems step by linarith
    show ?thesis
    proof (cases "rpc_fail E (clock w)")
      case None
      have "attempt_ok E (length reqs - nat (b + step)) (acc @ map (answer E) (drop (nat b) reqs)) (w\<lparr>clock := Suc (clock w)\<rparr>)
          (state_batches E reqs step (b + step) (acc @ map (answer E) (chunk_at reqs b step)) (w\<lparr>clock := Suc (clock w)\<rparr>))"
        unfolding chunk_at_map [OF less.prems True step, symmetric] by (rule less.hyps [OF len]) (use less.prems step in simp)
      from attempt_ok_mono [OF attempt_ok_step [OF this], of "length reqs - nat b"] show ?thesis
        using run True None len by simp
    next
      case (Some e)
      with run True attempt_ok_fail len show ?thesis by fastforce
    qed
  qed
qed

lemma account_batches_ok:
  assumes E: "stable_answers E" and step: "0 < step" and b: "0 \<le> b" and tries: "tries \<le> 5"
  shows "attempt_ok E ((length elems - nat b) + (6 - tries))
           (acc @ map (answer E) (drop (nat b) elems)) w
           (account_batches E elems step b tries acc w)"
  using b tries
proof (induction "(length elems - nat b) + (6 - tries)" arbitrary: b tries acc w rule: less_induct)
  case less
  note run = account_batches_unfold [OF E step less.prems(1), of elems tries acc w]
  let ?ok = "\<lambda>n. attempt_ok E n (acc @ map (answer E) (drop (nat b) elems)) w (account_batches E elems step b tries acc w)"
  show ?case
  proof (cases "b < int (length elems)")
    case False
    with run attempt_ok_done show ?thesis by simp
  next
    case True
    have len: "length elems - nat (b + step) < length elems - nat b" using True less.prems step by linarith
    consider (good) "rpc_fail E (clock w) = None" | (last) e where "rpc_fail E (clock w) = Some e" "tries = 5"
      | (retry) e where "rpc_fail E (clock w) = Some e" "tries < 5" using less.prems(2) by fastforce
    then show ?thesis
    proof cases
      case good
      have "attempt_ok E ((length elems - nat (b + step)) + (6 - tries)) (acc @ map (answer E) (drop (nat b) elems)) (w\<lparr>clock := Suc (clock w)\<rparr>)
          (account_batches E elems step (b + step) tries (acc @ map (answer E) (chunk_at elems b step)) (w\<lparr>clock := Suc (clock w)\<rparr>))"
        unfolding chunk_at_map [OF less.prems(1) True step, symmetric] by (rule less.hyps) (use less.prems step len in simp_all)
      from attempt_ok_step [OF this] have "?ok (Suc ((length elems - nat (b + step)) + (6 - tries)))" using run True good by simp
      then show ?thesis by (rule attempt_ok_mono) (use len in linarith)
    next
      case last
      with run True attempt_ok_fail show ?thesis by fastforce
    next
      case retry
      have "?ok (Suc ((length elems - nat b) + (6 - (tries + 1))))"
        using True retry run less.hyps [of b "tries + 1"] less.prems by (auto intro: attempt_ok_step)
      then show ?thesis by (rule attempt_ok_mono) (use retry in linarith)
    qed
  qed
qed

section \<open>The retry loop\<close>

text \<open>
  If every failing attempt stops right after a failed request and moves the clock by at most
  \<open>n\<close>, a node that recovers makes the loop end: the loop cannot jump over a window of \<open>n\<close>
  requests that all succeed.
\<close>

lemma retry_until_total:
  assumes rec: "recovers E" and P: "P w0"
    and att: "\<And>w. P w \<Longrightarrow> \<exists>res w'. f w = Some (res, w') \<and> P w' \<and>
      (case res of Inr v \<Rightarrow> Q v w'
       | Inl e \<Rightarrow> clock w < clock w' \<and> clock w' \<le> clock w + n \<and> rpc_fail E (clock w' - 1) \<noteq> None)"
  shows "\<exists>v w'. retry_until f w0 = Some (v, w') \<and> P w' \<and> Q v w'"
proof -
  obtain t where t: "clock w0 \<le> t" and window: "\<And>i. i < n \<Longrightarrow> rpc_fail E (t + i) = None"
    using rec unfolding recovers_def by meson
  have "\<exists>v w'. retry_until f w = Some (v, w') \<and> P w' \<and> Q v w'" if "P w" "clock w \<le> t" for w
    using that
  proof (induction "t - clock w" arbitrary: w rule: less_induct)
    case less
    from att [OF less.prems(1)] obtain res w' where f: "f w = Some (res, w')" and P': "P w'"
      and res: "case res of Inr v \<Rightarrow> Q v w'
       | Inl e \<Rightarrow> clock w < clock w' \<and> clock w' \<le> clock w + n \<and> rpc_fail E (clock w' - 1) \<noteq> None"
      by blast
    show ?case
    proof (cases res)
      case (Inr v)
      with f P' res show ?thesis by (subst retry_until.simps) simp
    next
      case (Inl e)
      with res have adv: "clock w < clock w'" "clock w' \<le> clock w + n"
        and bad: "rpc_fail E (clock w' - 1) \<noteq> None" by auto
      have "clock w' \<le> t"
      proof (rule ccontr)
        assume "\<not> clock w' \<le> t"
        then have "clock w' - 1 = t + (clock w' - 1 - t)" "clock w' - 1 - t < n"
          using adv less.prems(2) by linarith+
        with window bad show False by metis
      qed
      with less.hyps [of w'] P' adv less.prems(2) Inl f show ?thesis
        by (subst retry_until.simps) (simp add: diff_less_mono2)
    qed
  qed
  with P t show ?thesis by blast
qed

section \<open>Loading from the upstream node\<close>

lemma upd_st_simps [simp]:
  "length (heap (upd_st r f w)) = length (heap w)"
  "blockNumber (upd_st r f w) = blockNumber w"
  "keyCacheFile (upd_st r f w) = keyCacheFile w"
  "bigs (upd_st r f w) = bigs w"
  "clock (upd_st r f w) = clock w"
  by (simp_all add: upd_st_def)

lemma st_upd_st: "r < length (heap w) \<Longrightarrow> st (upd_st r f w) i = (if i = r then f (st w r) else st w i)"
  by (simp add: st_def upd_st_def)

lemma upd_st_clock: "upd_st r f (w\<lparr>clock := c\<rparr>) = (upd_st r f w)\<lparr>clock := c\<rparr>"
  by (simp add: upd_st_def)

lemma upd_st_upd_st:
  "r < length (heap w) \<Longrightarrow> upd_st r f (upd_st r g w) = upd_st r (\<lambda>x. f (g x)) w"
  by (simp add: upd_st_def)

lemma upd_st_cong:
  "f (heap w ! r) = g (heap w ! r) \<Longrightarrow> upd_st r f w = upd_st r g w"
  by (simp add: upd_st_def)

lemma heap_upd_st:
  "r < length (heap w) \<Longrightarrow> heap (upd_st r f w) ! i = (if i = r then f (heap w ! r) else heap w ! i)"
  by (simp add: upd_st_def)

lemma st_clock [simp]: "st (w\<lparr>clock := c\<rparr>) r = st w r"
  by (simp add: st_def)

definition fetched_req :: "env \<Rightarrow> u64 \<Rightarrow> StorageReq \<Rightarrow> StorageReq" where
  "fetched_req E n q =
     q\<lparr>sr_Value := as_hash (answer E (eth_getStorageAt (sr_Address q) (sr_Key q) (sint n)))\<rparr>"

definition fetched_account :: "env \<Rightarrow> u64 \<Rightarrow> address \<Rightarrow> FetchedAccountResult" where
  "fetched_account E n a =
     (let c = as_bytes (answer E (eth_getCode a (sint n)))
      in \<lparr>far_Account = 0, far_Balance = as_big (answer E (eth_getBalance a (sint n))),
          far_CodeHash = (if c = [] then 0 else keccak256 E c),
          far_Nonce = as_uint64 (answer E (eth_getTransactionCount a (sint n))), far_Code = c\<rparr>)"

lemma account_results_elems:
  "account_results E (map (answer E) (account_elems (sint n) accounts)) =
   map (fetched_account E n) accounts"
  by (induction accounts) (simp_all add: fetched_account_def Let_def)

lemma length_account_elems [simp]: "length (account_elems n accounts) = 3 * length accounts"
  by (induction accounts) simp_all

lemma loadStateBatchRPC_ok:
  assumes E: "stable_answers E" and r: "r < length (heap w)"
    and root: "bn (st w r)" "0 < batchSize (st w r)"
  shows "\<exists>res c. loadStateBatchRPC E r reqs w =
      Some (res, (upd_st r (\<lambda>x. x\<lparr>rpcCnt := rpcCnt x + 1\<rparr>) w)\<lparr>clock := c\<rparr>) \<and> clock w \<le> c \<and>
      (res = Inr (map (fetched_req E (blockNumber w)) reqs) \<or>
       (\<exists>e. res = Inl e \<and> clock w < c \<and> c \<le> clock w + length reqs \<and> rpc_fail E (c - 1) \<noteq> None))"
proof -
  let ?w = "upd_st r (\<lambda>x. x\<lparr>rpcCnt := rpcCnt x + 1\<rparr>) w"
  let ?es = "map (\<lambda>q. eth_getStorageAt (sr_Address q) (sr_Key q) (sint (blockNumber w))) reqs"
  have "0 < batchSize (st ?w r)" using r root by (simp add: st_upd_st)
  from state_batches_ok [OF E this, of 0 ?es "[]" ?w]
  have att: "attempt_ok E (length reqs) (map (answer E) ?es) ?w
    (state_batches E ?es (batchSize (st ?w r)) 0 [] ?w)" by simp
  have "map2 (\<lambda>q v. q\<lparr>sr_Value := as_hash v\<rparr>) reqs (map (answer E) ?es) =
      map (fetched_req E (blockNumber w)) reqs"
    by (rule nth_equalityI) (simp_all add: fetched_req_def)
  with att root show ?thesis
    unfolding attempt_ok_def loadStateBatchRPC_def by fastforce
qed

lemma loadAccountBatchRPC_ok:
  assumes E: "stable_answers E" and r: "r < length (heap w)"
    and root: "bn (st w r)" "0 < batchSize (st w r)"
  shows "\<exists>res c. loadAccountBatchRPC E r accounts w =
      Some (res, (upd_st r (mark_accessed accounts) w)\<lparr>clock := c\<rparr>) \<and> clock w \<le> c \<and>
      (res = Inr (map (fetched_account E (blockNumber w)) accounts) \<or>
       (\<exists>e. res = Inl e \<and> clock w < c \<and> c \<le> clock w + (3 * length accounts + 6) \<and>
            rpc_fail E (c - 1) \<noteq> None))"
proof -
  let ?w = "upd_st r (mark_accessed accounts) w"
  let ?es = "account_elems (sint (blockNumber w)) accounts"
  have "0 < batchSize (st ?w r)" using r root by (simp add: st_upd_st mark_accessed_def)
  from account_batches_ok [OF E this, of 0 0 ?es "[]" ?w]
  have att: "attempt_ok E (3 * length accounts + 6) (map (answer E) ?es) ?w
    (account_batches E ?es (batchSize (st ?w r)) 0 0 [] ?w)" by simp
  with root account_results_elems [of E "blockNumber w" accounts] show ?thesis
    unfolding attempt_ok_def loadAccountBatchRPC_def by fastforce
qed


lemma timeSlot_storage_ok:
  assumes E: "upstream_ok E" and r: "r < length (heap w)" and root: "bn (st w r)" "0 < batchSize (st w r)"
    and n: "n \<le> length chan"
  shows "\<exists>m c. timeSlot_storage E r n chan w =
     Some (map (fetched_req E (blockNumber w)) (take n chan), drop n chan,
           (upd_st r (\<lambda>x. x\<lparr>rpcCnt := m\<rparr>) w)\<lparr>clock := c\<rparr>) \<and> clock w \<le> c"
proof (cases "n = 0")
  case True
  then show ?thesis
    by (auto simp: timeSlot_storage_def upd_st_def intro!: exI [of _ "rpcCnt (heap w ! r)"] exI [of _ "clock w"])
next
  case False
  let ?reqs = "take n chan"
  let ?P = "\<lambda>w'. \<exists>m c. w' = (upd_st r (\<lambda>x. x\<lparr>rpcCnt := m\<rparr>) w)\<lparr>clock := c\<rparr> \<and> clock w \<le> c"
  have "\<exists>v w'. retry_until (loadStateBatchRPC E r ?reqs) w = Some (v, w') \<and> ?P w' \<and>
      v = map (fetched_req E (blockNumber w)) ?reqs"
  proof (rule retry_until_total)
    show "recovers E" using E by (simp add: upstream_ok_def)
    show "?P w" by (auto simp: upd_st_def intro!: exI [of _ "rpcCnt (heap w ! r)"] exI [of _ "clock w"])
    fix w' assume "?P w'"
    then obtain m c where w': "w' = (upd_st r (\<lambda>x. x\<lparr>rpcCnt := m\<rparr>) w)\<lparr>clock := c\<rparr>" and c: "clock w \<le> c"
      by blast
    have st: "bn (st w' r)" "0 < batchSize (st w' r)" "blockNumber w' = blockNumber w"
        "r < length (heap w')"
      using r root by (simp_all add: w' st_upd_st)
    have nxt: "(upd_st r (\<lambda>x. x\<lparr>rpcCnt := rpcCnt x + 1\<rparr>) w')\<lparr>clock := c'\<rparr> =
        (upd_st r (\<lambda>x. x\<lparr>rpcCnt := m + 1\<rparr>) w)\<lparr>clock := c'\<rparr>" for c'
      using r by (simp add: w' upd_st_def)
    have "stable_answers E" using E by (simp add: upstream_ok_def)
    from loadStateBatchRPC_ok [OF this st(4,1,2), of ?reqs]
    obtain res c' where res: "loadStateBatchRPC E r ?reqs w' =
          Some (res, (upd_st r (\<lambda>x. x\<lparr>rpcCnt := m + 1\<rparr>) w)\<lparr>clock := c'\<rparr>)" "clock w' \<le> c'"
        "res = Inr (map (fetched_req E (blockNumber w)) ?reqs) \<or>
         (\<exists>e. res = Inl e \<and> clock w' < c' \<and> c' \<le> clock w' + length ?reqs \<and> rpc_fail E (c' - 1) \<noteq> None)"
      unfolding nxt st(3) by blast
    moreover have "clock w \<le> c'" using res(2) c by (simp add: w')
    ultimately show "\<exists>res w''. loadStateBatchRPC E r ?reqs w' = Some (res, w'') \<and> ?P w'' \<and>
        (case res of Inr v \<Rightarrow> v = map (fetched_req E (blockNumber w)) ?reqs
         | Inl e \<Rightarrow> clock w' < clock w'' \<and> clock w'' \<le> clock w' + length ?reqs \<and>
             rpc_fail E (clock w'' - 1) \<noteq> None)"
      by (intro exI [of _ res] exI [of _ "(upd_st r (\<lambda>x. x\<lparr>rpcCnt := m + 1\<rparr>) w)\<lparr>clock := c'\<rparr>"]) auto
  qed
  with False n show ?thesis by (fastforce simp: timeSlot_storage_def)
qed

lemma map_of_mark_accessed:
  "map_of (accessedAccounts (mark_accessed as s)) b =
   (if b \<in> set as then Some True else map_of (accessedAccounts s) b)"
proof (induction as rule: rev_induct)
  case (snoc x xs)
  then show ?case by (auto simp: mark_accessed_def)
qed (simp add: mark_accessed_def)

text \<open>Another attempt in a world that differs from \<open>w\<close> by the marks of earlier attempts.\<close>

definition marks :: "address list \<Rightarrow> (address, bool) gomap \<Rightarrow> (address, bool) gomap \<Rightarrow> bool" where
  "marks as m A \<longleftrightarrow> (\<forall>b. map_of A b = (if b \<in> set as then Some True else map_of m b))"

lemma account_attempt:
  fixes w :: world
  assumes E: "stable_answers E" and r: "r < length (heap w)" and root: "bn (st w r)" "0 < batchSize (st w r)"
    and w': "w' = (upd_st r (\<lambda>x. x\<lparr>accessedAccounts := A\<rparr>) w)\<lparr>clock := c\<rparr>"
    and A: "A = accessedAccounts (st w r) \<or> marks as (accessedAccounts (st w r)) A"
  shows "\<exists>res A' c'. loadAccountBatchRPC E r as w' = Some (res, (upd_st r (\<lambda>x. x\<lparr>accessedAccounts := A'\<rparr>) w)\<lparr>clock := c'\<rparr>) \<and>
    c \<le> c' \<and> marks as (accessedAccounts (st w r)) A' \<and>
    (res = Inr (map (fetched_account E (blockNumber w)) as) \<or>
     (\<exists>e. res = Inl e \<and> c < c' \<and> c' \<le> c + (3 * length as + 6) \<and> rpc_fail E (c' - 1) \<noteq> None))"
proof -
  define A' where "A' = fold (\<lambda>a m. AList.update a True m) as A"
  have st: "bn (st w' r)" "0 < batchSize (st w' r)" "blockNumber w' = blockNumber w" "clock w' = c" "r < length (heap w')"
    using r root by (simp_all add: w' st_upd_st)
  have nxt: "(upd_st r (mark_accessed as) w')\<lparr>clock := c'\<rparr> = (upd_st r (\<lambda>x. x\<lparr>accessedAccounts := A'\<rparr>) w)\<lparr>clock := c'\<rparr>" for c'
    using r by (simp add: w' upd_st_def mark_accessed_def A'_def)
  have "marks as (accessedAccounts (st w r)) A'"
    using map_of_mark_accessed [of as "(st w r)\<lparr>accessedAccounts := A\<rparr>"] A
    by (auto simp: mark_accessed_def A'_def marks_def)
  with loadAccountBatchRPC_ok [OF E st(5,1,2), of as] show ?thesis unfolding nxt st(3,4) by blast
qed

lemma timeSlot_account_ok:
  assumes E: "upstream_ok E" and r: "r < length (heap w)" and root: "bn (st w r)" "0 < batchSize (st w r)"
    and n: "n \<le> length chan"
  shows "\<exists>A c. timeSlot_account E r n chan w =
     Some (map (fetched_account E (blockNumber w)) (take n chan), drop n chan,
           (upd_st r (\<lambda>x. x\<lparr>accessedAccounts := A\<rparr>) w)\<lparr>clock := c\<rparr>) \<and> clock w \<le> c \<and>
     (\<forall>b. map_of A b = (if b \<in> set (take n chan) then Some True else map_of (accessedAccounts (st w r)) b))"
proof (cases "n = 0")
  case True
  then show ?thesis
    by (auto simp: timeSlot_account_def upd_st_def st_def
             intro!: exI [of _ "accessedAccounts (heap w ! r)"] exI [of _ "clock w"])
next
  case False
  let ?as = "take n chan" and ?acc = "accessedAccounts (st w r)"
  let ?w = "\<lambda>A c. (upd_st r (\<lambda>x. x\<lparr>accessedAccounts := A\<rparr>) w)\<lparr>clock := c\<rparr>"
  let ?P = "\<lambda>w'. \<exists>A c. w' = ?w A c \<and> clock w \<le> c \<and> (A = ?acc \<or> marks ?as ?acc A)"
  let ?Q = "\<lambda>v w'. v = map (fetched_account E (blockNumber w)) ?as \<and> (\<exists>A c. w' = ?w A c \<and> clock w \<le> c \<and> marks ?as ?acc A)"
  have "\<exists>v w'. retry_until (loadAccountBatchRPC E r ?as) w = Some (v, w') \<and> ?P w' \<and> ?Q v w'"
  proof (rule retry_until_total)
    show "recovers E" using E by (simp add: upstream_ok_def)
    show "?P w" by (auto simp: upd_st_def st_def intro!: exI [of _ ?acc] exI [of _ "clock w"])
    fix w' assume "?P w'"
    then obtain A c where w': "w' = ?w A c" and c: "clock w \<le> c" and A: "A = ?acc \<or> marks ?as ?acc A" by blast
    have "stable_answers E" using E by (simp add: upstream_ok_def)
    from account_attempt [OF this r root w' A] obtain res A' c' where
      att: "loadAccountBatchRPC E r ?as w' = Some (res, ?w A' c')" "c \<le> c'" "marks ?as ?acc A'"
        "res = Inr (map (fetched_account E (blockNumber w)) ?as) \<or>
         (\<exists>e. res = Inl e \<and> c < c' \<and> c' \<le> c + (3 * length ?as + 6) \<and> rpc_fail E (c' - 1) \<noteq> None)" by blast
    have "clock w \<le> c'" using att(2) c by simp
    with att(3) have "?P (?w A' c')" "res = Inr v \<Longrightarrow> ?Q v (?w A' c')" for v using att(4) by auto
    with att(1,4) w' show "\<exists>res w''. loadAccountBatchRPC E r ?as w' = Some (res, w'') \<and> ?P w'' \<and>
        (case res of Inr v \<Rightarrow> ?Q v w'' | Inl e \<Rightarrow> clock w' < clock w'' \<and>
           clock w'' \<le> clock w' + (3 * length ?as + 6) \<and> rpc_fail E (clock w'' - 1) \<noteq> None)"
      by (intro exI [of _ res] exI [of _ "?w A' c'"]) (auto split: sum.split)
  qed
  then obtain A c where "retry_until (loadAccountBatchRPC E r ?as) w = Some (map (fetched_account E (blockNumber w)) ?as, ?w A c)"
    "clock w \<le> c" "marks ?as ?acc A" by (elim exE conjE) simp
  with False n show ?thesis by (intro exI [of _ A] exI [of _ c]) (simp add: timeSlot_account_def marks_def)
qed

lemma loadState_ok:
  assumes "upstream_ok E" "r < length (heap w)" "bn (st w r)" "0 < batchSize (st w r)"
  shows "\<exists>m c. loadState E r a k w =
     Some (as_hash (answer E (eth_getStorageAt a k (sint (blockNumber w)))),
           (upd_st r (\<lambda>x. x\<lparr>rpcCnt := m\<rparr>) w)\<lparr>clock := c\<rparr>) \<and> clock w \<le> c"
  using timeSlot_storage_ok [OF assms, of 1 "[\<lparr>sr_Address = a, sr_Key = k, sr_Value = 0\<rparr>]"]
  by (fastforce simp: loadState_def go_index_def fetched_req_def)

lemma loadAccount_ok:
  assumes "upstream_ok E" "r < length (heap w)" "bn (st w r)" "0 < batchSize (st w r)"
  shows "\<exists>A c. loadAccount E r a w =
     Some (fetched_account E (blockNumber w) a,
           (upd_st r (\<lambda>x. x\<lparr>accessedAccounts := A\<rparr>) w)\<lparr>clock := c\<rparr>) \<and> clock w \<le> c \<and>
     (\<forall>b. map_of A b = (if b = a then Some True else map_of (accessedAccounts (st w r)) b))"
  using timeSlot_account_ok [OF assms, of 1 "[a]"]
  by (fastforce simp: loadAccount_def go_index_def)

section \<open>Giving up and running forever\<close>

lemma state_batches_stuck:
  assumes "\<forall>t. rpc_fail E t = None" "b < int (length reqs)"
  shows "state_batches E reqs 0 b acc w = None"
proof (rule ccontr)
  assume "state_batches E reqs 0 b acc w \<noteq> None"
  then obtain y where "state_batches E reqs 0 b acc w = Some y" by blast
  then have "(\<forall>t. rpc_fail E t = None) \<longrightarrow> b < int (length reqs) \<longrightarrow> (0::int) \<noteq> 0"
    by (rule state_batches.raw_induct [rotated, where P = "\<lambda>E reqs step b acc w y.
          (\<forall>t. rpc_fail E t = None) \<longrightarrow> b < int (length reqs) \<longrightarrow> step \<noteq> 0"])
      (fastforce simp: BatchCallContext_def Let_def bind_eq_Some_conv split: if_splits)
  with assms show False by simp
qed

lemma account_batches_retry:
  assumes "\<forall>i<6 - tries. rpc_fail E (clock w + i) \<noteq> None" "tries \<le> 5" "0 \<le> b" "b < int (length elems)" "0 \<le> step"
  shows "\<exists>e. account_batches E elems step b tries acc w = Some (Inl e, w\<lparr>clock := clock w + (6 - tries)\<rparr>) \<and>
      rpc_fail E (clock w + 5 - tries) = Some e"
  using assms
proof (induction "5 - tries" arbitrary: tries w)
  case 0
  then have t: "tries = 5" by simp
  from 0 obtain e where "rpc_fail E (clock w) = Some e" by (auto simp: t)
  with 0 t show ?case by (subst account_batches.simps) (auto simp: go_slice_def BatchCall_err)
next
  case (Suc n)
  from Suc.prems(1) Suc.hyps(2) obtain e where e: "rpc_fail E (clock w) = Some e" by fastforce
  have *: "\<forall>i<6 - Suc tries. rpc_fail E (clock (w\<lparr>clock := Suc (clock w)\<rparr>) + i) \<noteq> None"
  proof (intro allI impI)
    fix i assume "i < 6 - Suc tries"
    then have "Suc i < 6 - tries" by simp
    with Suc.prems(1) show "rpc_fail E (clock (w\<lparr>clock := Suc (clock w)\<rparr>) + i) \<noteq> None"
      by fastforce
  qed
  have t: "Suc tries \<le> 5" "n = 5 - Suc tries" using Suc.hyps(2) by simp_all
  from Suc.hyps(1) [OF t(2) * t(1) Suc.prems(3,4,5)] e t(1) Suc.prems(3,4,5) show ?case
    by (subst account_batches.simps) (auto simp: go_slice_def BatchCall_err Suc_diff_le add.commute)
qed

declare proof_loop.simps [simp del]

lemma proof_loop_err:
  assumes "\<forall>i<6 - tries. rpc_fail E (clock w + i) \<noteq> None" "tries \<le> 5"
  shows "\<exists>e. proof_loop E elems tries w = (Inl e, w\<lparr>clock := clock w + (6 - tries)\<rparr>) \<and>
      rpc_fail E (clock w + 5 - tries) = Some e"
  using assms
proof (induction "5 - tries" arbitrary: tries w)
  case 0
  then have t: "tries = 5" by simp
  from 0 obtain e where "rpc_fail E (clock w) = Some e" by (auto simp: t)
  with t show ?case by (simp add: proof_loop.simps [of E elems 5] BatchCall_err)
next
  case (Suc n)
  let ?w = "w\<lparr>clock := Suc (clock w)\<rparr>"
  from Suc.prems(1) Suc.hyps(2) obtain e where e: "rpc_fail E (clock w) = Some e" by fastforce
  have "rpc_fail E (clock ?w + i) \<noteq> None" if "i < 6 - Suc tries" for i
    using Suc.prems(1) [rule_format, of "Suc i"] that by simp
  moreover have t: "Suc tries \<le> 5" "n = 5 - Suc tries" using Suc.hyps(2) by simp_all
  ultimately obtain e' where "proof_loop E elems (Suc tries) ?w = (Inl e', ?w\<lparr>clock := clock ?w + (6 - Suc tries)\<rparr>)"
    "rpc_fail E (clock ?w + 5 - Suc tries) = Some e'" using Suc.hyps(1) [OF t(2)] by blast
  with e t(1) show ?case by (simp add: proof_loop.simps [of E elems tries] BatchCall_err Suc_diff_le add.commute)
qed

lemma proof_loop_ok:
  assumes "stable_answers E" "tries + j \<le> 5" "rpc_fail E (clock w + j) = None" "\<forall>i<j. rpc_fail E (clock w + i) \<noteq> None"
  shows "proof_loop E elems tries w = (Inr (map (answer E) elems), w\<lparr>clock := Suc (clock w + j)\<rparr>)"
  using assms(2-)
proof (induction j arbitrary: tries w)
  case 0
  with BatchCall_ok [OF assms(1), of w elems] show ?case by (simp add: proof_loop.simps [of E elems tries])
next
  case (Suc j)
  let ?w = "w\<lparr>clock := Suc (clock w)\<rparr>"
  from Suc.prems(3) obtain e where e: "rpc_fail E (clock w) = Some e" by force
  have "rpc_fail E (clock ?w + i) \<noteq> None" if "i < j" for i using Suc.prems(3) [rule_format, of "Suc i"] that by simp
  with Suc.IH [of "Suc tries" ?w] Suc.prems(1,2) e show ?case by (simp add: proof_loop.simps [of E elems tries] BatchCall_err)
qed

lemma loadAccountViaGetProof_ok:
  assumes "stable_answers E" "bn (st w r)" "j \<le> 5" "rpc_fail E (clock w + j) = None" "\<forall>i<j. rpc_fail E (clock w + i) \<noteq> None"
  shows "loadAccountViaGetProof E r a w = Some (Inr (as_proof (answer E (eth_getProof a [] (sint (blockNumber w)))),
      far_Code (fetched_account E (blockNumber w) a)), w\<lparr>clock := Suc (clock w + j)\<rparr>)"
  using proof_loop_ok [OF assms(1) _ assms(4,5), of 0] assms(2,3)
  by (simp add: loadAccountViaGetProof_def Let_def go_index_def fetched_account_def)

lemma loadStateRPC_ok:
  assumes "bn (st w r)" "StorageAt (clock w) a k (sint (blockNumber w)) =
      Inr (Hash_Bytes (as_hash (answer E (eth_getStorageAt a k (sint (blockNumber w))))))"
  shows "loadStateRPC StorageAt r a k w = Some (Inr (sr_Value (fetched_req E (blockNumber w) \<lparr>sr_Address = a, sr_Key = k, sr_Value = 0\<rparr>)),
      (upd_st r (\<lambda>x. x\<lparr>rpcCnt := rpcCnt x + 1\<rparr>) w)\<lparr>clock := Suc (clock w)\<rparr>)"
  using assms by (simp add: loadStateRPC_def Let_def fetched_req_def)

section \<open>A concrete upstream node\<close>

text \<open>
  An instance of the parameters, used to show that the contracts of this development can be met:
  the first two requests fail, every account holds 5 wei, has nonce 3 and the one-byte code 0,
  and every slot holds its own key.
\<close>

definition demo_answer :: "BatchElem \<Rightarrow> rpc_value option" where
  "demo_answer e = (case e of
     eth_getTransactionCount a n \<Rightarrow> Some (VUint64 3)
   | eth_getBalance a n \<Rightarrow> Some (VBig 5)
   | eth_getCode a n \<Rightarrow> Some (VBytes [0])
   | eth_getStorageAt a k n \<Rightarrow> Some (VHash k)
   | eth_getProof a keys n \<Rightarrow> None)"

definition demo_env :: env where
  "demo_env = \<lparr>keccak256 = (\<lambda>bs. word_of_nat (be_val bs)), rand_Uint64 = word_of_nat,
     rpc_fail = (\<lambda>t. if t < 2 then Some ''timeout'' else None),
     rpc_answer = (\<lambda>t. demo_answer), time_now = (\<lambda>i. ''noon''), openfile_err = (\<lambda>f. False)\<rparr>"

definition demo_world :: world where
  "demo_world = snd (Derive demo_env ''demo'' 0 (snd (NewOverlayState 2
     \<lparr>heap = [], clock = 0, blockNumber = 7, keyCacheFile = [], bigs = []\<rparr>)))"

lemma upstream_ok_demo: "upstream_ok demo_env"
  unfolding upstream_ok_def
proof (intro conjI)
  show "keys_distinct demo_env"
    by (simp add: keys_distinct_def demo_env_def BALANCE_KEY_def NONCE_KEY_def CODE_KEY_def
        CODEHASH_KEY_def STATE_KEY_def SUICIDE_KEY_def str_bytes_def)
  show "stable_answers demo_env" by (simp add: stable_answers_def demo_env_def)
  show "recovers demo_env" unfolding recovers_def
  proof (intro allI)
    fix t n
    show "\<exists>t'\<ge>t. \<forall>i<n. rpc_fail demo_env (t' + i) = None"
      by (intro exI [of _ "t + 2"]) (simp add: demo_env_def)
  qed
qed

lemma answer_demo: "answer demo_env = demo_answer"
  by (simp add: fun_eq_iff answer_def demo_env_def)

lemma demo_heap: "length (heap demo_world) = 2" "parent (heap demo_world ! 0) = None"
  "parent (heap demo_world ! Suc 0) = Some 0" "bn (st demo_world 0)" "batchSize (st demo_world 0) = 2"
  "blockNumber demo_world = 7" "clock demo_world = 0"
  by (simp_all add: demo_world_def Derive_def NewOverlayState_def st_def)

section \<open>Properties\<close>

text \<open>
  A tick of the request batcher takes the requests counted when it was armed, leaves the later
  ones queued, and answers the requests in order, each with the upstream node's value for its own
  address and key at the state's block number, whatever the batch size and however often the
  transport fails first.
\<close>

theorem timeSlot_answers_own_requests:
  assumes "upstream_ok E" "r < length (heap w)" "bn (st w r)" "0 < batchSize (st w r)"
    and "n \<le> length chan" "m \<le> length accounts"
  shows "(\<exists>w'. timeSlot_storage E r n chan w =
        Some (map (fetched_req E (blockNumber w)) (take n chan), drop n chan, w')) \<and>
     (\<exists>w'. timeSlot_account E r m accounts w =
        Some (map (fetched_account E (blockNumber w)) (take m accounts), drop m accounts, w'))"
  using timeSlot_storage_ok [OF assms(1-5)] timeSlot_account_ok [OF assms(1-4,6)] by blast

theorem timeSlot_answers_own_requests_witness:
  "upstream_ok demo_env \<and> (\<exists>w'. timeSlot_storage demo_env 0 2
     [\<lparr>sr_Address = 1, sr_Key = 8, sr_Value = 0\<rparr>, \<lparr>sr_Address = 2, sr_Key = 9, sr_Value = 0\<rparr>,
      \<lparr>sr_Address = 1, sr_Key = 8, sr_Value = 0\<rparr>] demo_world =
     Some ([\<lparr>sr_Address = 1, sr_Key = 8, sr_Value = 8\<rparr>, \<lparr>sr_Address = 2, sr_Key = 9, sr_Value = 9\<rparr>],
           [\<lparr>sr_Address = 1, sr_Key = 8, sr_Value = 0\<rparr>], w'))"
  using timeSlot_answers_own_requests [OF upstream_ok_demo, of 0 demo_world 2
      "[\<lparr>sr_Address = 1, sr_Key = 8, sr_Value = 0\<rparr>, \<lparr>sr_Address = 2, sr_Key = 9, sr_Value = 0\<rparr>,
        \<lparr>sr_Address = 1, sr_Key = 8, sr_Value = 0\<rparr>]" 0 "[]"]
  by (simp add: demo_heap upstream_ok_demo fetched_req_def answer_demo demo_answer_def
      as_hash_def eval_nat_numeral)

text \<open>C38.
  Account requests are retried at most five times: when the transport fails six times in a row, the
  request loop of \<^verbatim>\<open>loadAccountBatchRPC\<close> and \<^verbatim>\<open>loadAccountViaGetProof\<close> return the sixth error after exactly
  six requests.
\<close>

theorem account_requests_give_up:
  assumes "\<forall>i<6. rpc_fail E (clock w + i) \<noteq> None" "elems \<noteq> []" "0 \<le> step" "bn (st w r)"
  shows "\<exists>e. rpc_fail E (clock w + 5) = Some e \<and>
      account_batches E elems step 0 0 acc w = Some (Inl e, w\<lparr>clock := clock w + 6\<rparr>) \<and>
      loadAccountViaGetProof E r a w = Some (Inl e, w\<lparr>clock := clock w + 6\<rparr>)"
  using account_batches_retry [of 0 E w 0 elems step acc] assms
    proof_loop_err [of 0 E w "[eth_getProof a [] (sint (blockNumber w)), eth_getCode a (sint (blockNumber w))]"]
  by (auto simp: loadAccountViaGetProof_def Let_def)

theorem account_requests_give_up_witness:
  "account_batches (demo_env\<lparr>rpc_fail := \<lambda>t. Some (replicate t (CHR ''x''))\<rparr>) [eth_getCode 1 7] 2 0 0 []
      demo_world = Some (Inl ''xxxxx'', demo_world\<lparr>clock := 6\<rparr>)"
  using account_requests_give_up [of "demo_env\<lparr>rpc_fail := \<lambda>t. Some (replicate t (CHR ''x''))\<rparr>" demo_world
      "[eth_getCode 1 7]" 2 0 "[]"]
  by (simp add: demo_heap numeral_eq_Suc)

text \<open>
  With a batch size of zero, which \<^verbatim>\<open>mfer_setBatchSize\<close> accepts, the request loop for storage slots
  asks for empty batches forever: on a working transport a non-empty list of slots never gets an
  answer.
\<close>

theorem batch_size_zero_never_returns:
  assumes "\<forall>t. rpc_fail E t = None" "reqs \<noteq> []" "r < length (heap w)" "bn (st w r)"
    and "batchSize (st w r) = 0"
  shows "loadStateBatchRPC E r reqs w = None"
  using assms state_batches_stuck [OF assms(1), of 0]
  by (auto simp: loadStateBatchRPC_def st_upd_st)

theorem batch_size_zero_never_returns_witness:
  "loadStateBatchRPC (demo_env\<lparr>rpc_fail := \<lambda>t. None\<rparr>) 0
     [\<lparr>sr_Address = 1, sr_Key = 8, sr_Value = 0\<rparr>] (upd_st 0 (\<lambda>x. x\<lparr>batchSize := 0\<rparr>) demo_world) = None"
  by (rule batch_size_zero_never_returns) (simp_all add: st_upd_st demo_heap)

end
