(* ===== verification/Layers.thy ===== *)
theory Layers
  imports Upstream
begin

text \<open>
  What a layer shows: the values written in the layers above the root, nearest first, and the
  upstream node's values below them. The invariant \<open>wf_world\<close> of the heap, the relation \<open>cache_ext\<close> of what a
  read may change, and that reading, deriving and writing keep to them.
\<close>

section \<open>Scratch pad keys are injective\<close>

lemma length_calcKey [simp]: "length (calcKey op a) = 52"
  by (simp add: calcKey_def)

lemma length_calcStateKey [simp]: "length (calcStateKey E a k) = 84"
  by (simp add: calcStateKey_def)

lemma calcKey_eq [simp]: "calcKey op a = calcKey op' a' \<longleftrightarrow> op = op' \<and> a = a'"
  by (simp add: calcKey_def)

lemma calcStateKey_eq [simp]: "calcStateKey E a k = calcStateKey E a' k' \<longleftrightarrow> a = a' \<and> k = k'"
  by (simp add: calcStateKey_def)

lemma calcKey_neq_calcStateKey [simp]:
  "calcKey op a \<noteq> calcStateKey E b k" "calcStateKey E b k \<noteq> calcKey op a"
  by (auto dest: arg_cong [of _ _ length])

section \<open>What a layer shows\<close>

text \<open>The upstream node's value at a block, in the form in which the root caches it.\<close>

definition uval :: "env \<Rightarrow> u64 \<Rightarrow> RequestType \<Rightarrow> address \<Rightarrow> hash \<Rightarrow> bytes" where
  "uval E n action a k = (case action of
     GET_BALANCE \<Rightarrow> big_Bytes (as_big (answer E (eth_getBalance a (sint n))))
   | GET_NONCE \<Rightarrow> nonce_Bytes (as_uint64 (answer E (eth_getTransactionCount a (sint n))))
   | GET_CODE \<Rightarrow> as_bytes (answer E (eth_getCode a (sint n)))
   | GET_CODEHASH \<Rightarrow> Hash_Bytes (let c = as_bytes (answer E (eth_getCode a (sint n)))
                                in if c = [] then 0 else keccak256 E c)
   | GET_STATE \<Rightarrow> Hash_Bytes (as_hash (answer E (eth_getStorageAt a k (sint n)))))"

text \<open>The layers above the root, nearest first.\<close>

function overlay :: "OverlayState list \<Rightarrow> ref \<Rightarrow> bytes \<Rightarrow> bytes option" where
  "overlay h r key = (case parent (h ! r) of
     None \<Rightarrow> None
   | Some p \<Rightarrow> (case map_of (scratchPad (h ! r)) key of
       Some v \<Rightarrow> Some v
     | None \<Rightarrow> if p < r then overlay h p key else None))"
  by pat_completeness auto
termination
  by (relation "measure (\<lambda>(h, r, key). r)") auto

declare overlay.simps [simp del]

definition view :: "env \<Rightarrow> world \<Rightarrow> ref \<Rightarrow> RequestType \<Rightarrow> address \<Rightarrow> hash \<Rightarrow> bytes" where
  "view E w r action a k = (case overlay (heap w) r (scratchpadKey E action a k) of
     Some v \<Rightarrow> v
   | None \<Rightarrow> uval E (blockNumber w) action a k)"

text \<open>
  A heap the program can build: scratch pads are maps, parents are older layers, the only layer
  without a parent is the first (\<^verbatim>\<open>NewOverlayState\<close> is called once), and each layer counts its depth.
\<close>

definition wf_heap :: "OverlayState list \<Rightarrow> bool" where
  "wf_heap h \<longleftrightarrow> (\<forall>r<length h. gomap_wf (scratchPad (h ! r)) \<and>
     (case parent (h ! r) of
        None \<Rightarrow> r = 0 \<and> deriveCnt (h ! r) = 0
      | Some p \<Rightarrow> p < r \<and> deriveCnt (h ! r) = deriveCnt (h ! p) + 1))"

definition coherent :: "env \<Rightarrow> u64 \<Rightarrow> (bytes, bytes) gomap \<Rightarrow> bool" where
  "coherent E n pad \<longleftrightarrow> (\<forall>action a k v.
     map_of pad (scratchpadKey E action a k) = Some v \<longrightarrow> v = uval E n action a k)"

definition accounts_tracked :: "env \<Rightarrow> (bytes, bytes) gomap \<Rightarrow> (address, bool) gomap \<Rightarrow> bool" where
  "accounts_tracked E pad acc \<longleftrightarrow> (\<forall>action a k. action \<noteq> GET_STATE \<longrightarrow>
     map_of pad (scratchpadKey E action a k) \<noteq> None \<longrightarrow> map_of acc a \<noteq> None)"

definition root_ok :: "env \<Rightarrow> u64 \<Rightarrow> OverlayState \<Rightarrow> bool" where
  "root_ok E n s \<longleftrightarrow> bn s \<and> 0 < batchSize s \<and> coherent E n (scratchPad s) \<and>
     accounts_tracked E (scratchPad s) (accessedAccounts s)"

text \<open>The keys that are written to a layer other than the root: a kind of value and where it is.\<close>

definition pad_key :: "env \<Rightarrow> bytes \<Rightarrow> bool" where
  "pad_key E key \<longleftrightarrow> (\<exists>action a k. key = scratchpadKey E action a k) \<or> (\<exists>a. key = calcKey (SUICIDE_KEY E) a)"

definition keyed :: "env \<Rightarrow> OverlayState \<Rightarrow> bool" where
  "keyed E s \<longleftrightarrow> (\<forall>key\<in>fst ` set (scratchPad s). pad_key E key)"

definition wf_world :: "env \<Rightarrow> world \<Rightarrow> bool" where
  "wf_world E w \<longleftrightarrow> wf_heap (heap w) \<and>
     (\<forall>r<length (heap w). parent (heap w ! r) = None \<longrightarrow> root_ok E (blockNumber w) (heap w ! r)) \<and>
     (\<forall>r<length (heap w). parent (heap w ! r) \<noteq> None \<longrightarrow> keyed E (heap w ! r))"

lemma pad_key_simps [simp]: "pad_key E (scratchpadKey E action a k)" "pad_key E (calcKey (SUICIDE_KEY E) a)"
  by (auto simp: pad_key_def)

lemma keyed_simps [simp]:
  "keyed E (s\<lparr>receipts := rs\<rparr>) = keyed E s" "keyed E (s\<lparr>txLogs := ls\<rparr>) = keyed E s"
  "keyed E (s\<lparr>currentTxHash := h, currentBlockHash := h'\<rparr>) = keyed E s"
  "keyed E (s\<lparr>scratchPad := AList.update key v (scratchPad s)\<rparr>) \<longleftrightarrow> keyed E s \<and> pad_key E key" if "keyed E s"
  using that by (auto simp: keyed_def dom_update)

text \<open>The world changed in nothing but the caches of its roots, which can only grow.\<close>

definition root_ext :: "OverlayState \<Rightarrow> OverlayState \<Rightarrow> bool" where
  "root_ext s s' \<longleftrightarrow> (if parent s = None
     then (\<exists>pad acc n. s' = s\<lparr>scratchPad := pad, accessedAccounts := acc, rpcCnt := n\<rparr> \<and>
             map_of (scratchPad s) \<subseteq>\<^sub>m map_of pad)
     else s' = s)"

definition cache_ext :: "world \<Rightarrow> world \<Rightarrow> bool" where
  "cache_ext w w' \<longleftrightarrow> length (heap w') = length (heap w) \<and> blockNumber w' = blockNumber w \<and>
     keyCacheFile w' = keyCacheFile w \<and> bigs w' = bigs w \<and> clock w \<le> clock w' \<and>
     (\<forall>r<length (heap w). root_ext (heap w ! r) (heap w' ! r))"

lemma root_ext_refl [simp]: "root_ext s s"
proof -
  have "s = s\<lparr>scratchPad := scratchPad s, accessedAccounts := accessedAccounts s, rpcCnt := rpcCnt s\<rparr>"
    by simp
  then show ?thesis unfolding root_ext_def by (metis map_le_refl)
qed

lemma root_ext_parent: "root_ext s s' \<Longrightarrow> parent s' = parent s"
  by (auto simp: root_ext_def split: if_splits)

lemma root_ext_trans: "root_ext s s' \<Longrightarrow> root_ext s' s'' \<Longrightarrow> root_ext s s''"
  unfolding root_ext_def by (auto split: if_splits intro: map_le_trans)

lemma cache_ext_refl [simp]: "cache_ext w w"
  by (simp add: cache_ext_def)

lemma cache_ext_trans [trans]: "cache_ext w w' \<Longrightarrow> cache_ext w' w'' \<Longrightarrow> cache_ext w w''"
  unfolding cache_ext_def by (auto intro: root_ext_trans)

lemma cache_ext_globals:
  assumes "cache_ext w w'"
  shows "length (heap w') = length (heap w)" "blockNumber w' = blockNumber w"
    "keyCacheFile w' = keyCacheFile w" "bigs w' = bigs w" "clock w \<le> clock w'"
  using assms by (auto simp: cache_ext_def)

lemma cache_ext_layer:
  "cache_ext w w' \<Longrightarrow> r < length (heap w) \<Longrightarrow> parent (heap w ! r) \<noteq> None \<Longrightarrow>
   heap w' ! r = heap w ! r"
  by (auto simp: cache_ext_def root_ext_def)

lemma cache_ext_parent:
  "cache_ext w w' \<Longrightarrow> r < length (heap w) \<Longrightarrow> parent (heap w' ! r) = parent (heap w ! r)"
  by (auto simp: cache_ext_def intro: root_ext_parent)

lemma cache_ext_fields:
  assumes "cache_ext w w'" "r < length (heap w)"
  shows "txLogs (heap w' ! r) = txLogs (heap w ! r)"
    and "receipts (heap w' ! r) = receipts (heap w ! r)"
    and "currentTxHash (heap w' ! r) = currentTxHash (heap w ! r)"
    and "currentBlockHash (heap w' ! r) = currentBlockHash (heap w ! r)"
    and "deriveCnt (heap w' ! r) = deriveCnt (heap w ! r)"
    and "batchSize (heap w' ! r) = batchSize (heap w ! r)"
    and "bn (heap w' ! r) = bn (heap w ! r)"
  using assms by (auto simp: cache_ext_def root_ext_def split: if_splits)

lemma wf_heap_parent: "wf_heap h \<Longrightarrow> r < length h \<Longrightarrow> parent (h ! r) = Some p \<Longrightarrow> p < r"
  by (auto simp: wf_heap_def)

lemma wf_heap_root: "wf_heap h \<Longrightarrow> r < length h \<Longrightarrow> parent (h ! r) = None \<Longrightarrow> r = 0"
  by (auto simp: wf_heap_def)

lemma overlay_cong:
  assumes "wf_heap h" "r < length h"
    and "\<And>i. i \<le> r \<Longrightarrow> parent (h' ! i) = parent (h ! i)"
    and "\<And>i. i \<le> r \<Longrightarrow> parent (h ! i) \<noteq> None \<Longrightarrow> scratchPad (h' ! i) = scratchPad (h ! i)"
  shows "overlay h' r key = overlay h r key"
  using assms(2-)
proof (induction r rule: less_induct)
  case (less r)
  show ?case
  proof (cases "parent (h ! r)")
    case None
    with less.prems(2) [of r] show ?thesis by (simp add: overlay.simps)
  next
    case (Some p)
    with wf_heap_parent [OF assms(1) less.prems(1)] have p: "p < r" by simp
    have "overlay h' p key = overlay h p key"
      by (rule less.IH) (use p less.prems in auto)
    with p Some less.prems(2) [of r] less.prems(3) [of r] show ?thesis
      by (simp add: overlay.simps [of h r] overlay.simps [of h' r] split: option.split)
  qed
qed

lemma cache_ext_overlay:
  assumes "cache_ext w w'" "wf_heap (heap w)" "r < length (heap w)"
  shows "overlay (heap w') r key = overlay (heap w) r key"
  by (rule overlay_cong [OF assms(2,3)])
     (use assms cache_ext_parent [OF assms(1)] cache_ext_layer [OF assms(1)] in auto)

lemma cache_ext_view:
  assumes "cache_ext w w'" "wf_heap (heap w)" "r < length (heap w)"
  shows "view E w' r action a k = view E w r action a k"
  using assms by (simp add: view_def cache_ext_overlay cache_ext_globals split: option.split)


section \<open>The cache stays coherent\<close>

lemma scratchpadKey_eq:
  "keys_distinct E \<Longrightarrow> scratchpadKey E action a k = scratchpadKey E action' a' k' \<longleftrightarrow>
   action = action' \<and> a = a' \<and> (action = GET_STATE \<longrightarrow> k = k')"
  by (cases action; cases action') (auto simp: scratchpadKey_def keys_distinct_def)

lemma uval_slot: "action \<noteq> GET_STATE \<Longrightarrow> uval E n action a k = uval E n action a k'"
  by (cases action) (simp_all add: uval_def)

lemma coherent_update:
  assumes "keys_distinct E" "coherent E n pad"
  shows "coherent E n (AList.update (scratchpadKey E action a k) (uval E n action a k) pad)"
  using assms uval_slot [of action E n a]
  by (auto simp: coherent_def scratchpadKey_eq split: if_splits)

lemma coherent_put_absent:
  "keys_distinct E \<Longrightarrow> coherent E n pad \<Longrightarrow>
   coherent E n (put_absent (scratchpadKey E action a k) (uval E n action a k) pad)"
  by (simp add: put_absent_def coherent_update)

lemma map_of_put_absent:
  "map_of (put_absent k v m) k' = (if k' = k \<and> map_of m k = None then Some v else map_of m k')"
  by (auto simp: put_absent_def)

lemma gomap_wf_put_absent [simp]: "gomap_wf m \<Longrightarrow> gomap_wf (put_absent k v m)"
  by (simp add: put_absent_def)

lemma map_le_put_absent: "map_of m \<subseteq>\<^sub>m map_of (put_absent k v m)"
  by (auto simp: put_absent_def map_le_def)

lemma fill_account_uval:
  "fill_account E a (fetched_account E n a) pad =
   put_absent (scratchpadKey E GET_CODEHASH a k) (uval E n GET_CODEHASH a k)
    (put_absent (scratchpadKey E GET_CODE a k) (uval E n GET_CODE a k)
     (put_absent (scratchpadKey E GET_NONCE a k) (uval E n GET_NONCE a k)
      (put_absent (scratchpadKey E GET_BALANCE a k) (uval E n GET_BALANCE a k) pad)))"
  by (simp add: fill_account_def fetched_account_def scratchpadKey_def uval_def Let_def)

lemma fill_account_facts:
  fixes a :: address
  assumes "keys_distinct E" "coherent E n pad" "gomap_wf pad"
  defines "pad' \<equiv> fill_account E a (fetched_account E n a) pad"
  shows "coherent E n pad'" and "gomap_wf pad'" and "map_of pad \<subseteq>\<^sub>m map_of pad'"
    and "action \<noteq> GET_STATE \<Longrightarrow> map_of pad' (scratchpadKey E action a k) \<noteq> None"
    and "map_of pad' (scratchpadKey E action b k) \<noteq> None \<Longrightarrow>
         map_of pad (scratchpadKey E action b k) \<noteq> None \<or> b = a"
proof -
  show "coherent E n pad'" unfolding pad'_def fill_account_uval [of _ _ _ _ k]
    by (intro coherent_put_absent assms)
  show "gomap_wf pad'" using assms(3) by (simp add: pad'_def fill_account_def)
  show "map_of pad \<subseteq>\<^sub>m map_of pad'"
    unfolding pad'_def fill_account_def by (meson map_le_put_absent map_le_trans)
  show "map_of pad' (scratchpadKey E action a k) \<noteq> None" if "action \<noteq> GET_STATE"
    using that unfolding pad'_def fill_account_uval [of _ _ _ _ k]
    by (cases action) (auto simp: map_of_put_absent)
  show "map_of pad (scratchpadKey E action b k) \<noteq> None \<or> b = a"
    if "map_of pad' (scratchpadKey E action b k) \<noteq> None"
    using that assms(1) unfolding pad'_def fill_account_uval [of _ _ _ _ k]
    by (auto simp: map_of_put_absent scratchpadKey_eq split: if_splits)
qed

lemma wf_heap_layer_update:
  assumes "wf_heap h" "r < length h"
    and "gomap_wf (scratchPad s)" "parent s = parent (h ! r)" "deriveCnt s = deriveCnt (h ! r)"
  shows "wf_heap (h[r := s])"
  unfolding wf_heap_def
proof (intro allI impI)
  fix i assume i: "i < length (h[r := s])"
  with assms(1) have "gomap_wf (scratchPad (h ! i)) \<and> (case parent (h ! i) of
     None \<Rightarrow> i = 0 \<and> deriveCnt (h ! i) = 0 | Some p \<Rightarrow> p < i \<and> deriveCnt (h ! i) = deriveCnt (h ! p) + 1)"
    by (simp add: wf_heap_def)
  with assms i show "gomap_wf (scratchPad (h[r := s] ! i)) \<and> (case parent (h[r := s] ! i) of
     None \<Rightarrow> i = 0 \<and> deriveCnt (h[r := s] ! i) = 0
   | Some p \<Rightarrow> p < i \<and> deriveCnt (h[r := s] ! i) = deriveCnt (h[r := s] ! p) + 1)"
    by (cases "i = r") (auto simp: nth_list_update split: option.splits)
qed

lemma wf_world_layer_update:
  assumes "wf_world E w" "r < length (heap w)" "parent (heap w ! r) \<noteq> None"
    and "gomap_wf (scratchPad (f (heap w ! r)))" "parent (f (heap w ! r)) = parent (heap w ! r)"
      "deriveCnt (f (heap w ! r)) = deriveCnt (heap w ! r)"
      "keyed E (heap w ! r) \<Longrightarrow> keyed E (f (heap w ! r))"
  shows "wf_world E (upd_st r f w)"
  unfolding wf_world_def
proof (intro conjI allI impI)
  show "wf_heap (heap (upd_st r f w))"
    using assms by (simp add: upd_st_def wf_world_def wf_heap_layer_update)
  show "keyed E (heap (upd_st r f w) ! i)" if "i < length (heap (upd_st r f w))" "parent (heap (upd_st r f w) ! i) \<noteq> None" for i
    using that assms by (cases "i = r") (auto simp: wf_world_def heap_upd_st)
  fix i assume "i < length (heap (upd_st r f w))" "parent (heap (upd_st r f w) ! i) = None"
  with assms show "root_ok E (blockNumber (upd_st r f w)) (heap (upd_st r f w) ! i)"
    by (cases "i = r") (auto simp: wf_world_def heap_upd_st)
qed

lemma root_update_ok:
  fixes m :: int
  assumes wf: "wf_world E w" and r: "r < length (heap w)" "parent (heap w ! r) = None"
    and pad: "gomap_wf pad" "map_of (scratchPad (heap w ! r)) \<subseteq>\<^sub>m map_of pad"
      "coherent E (blockNumber w) pad" "accounts_tracked E pad A" and c: "clock w \<le> c"
  defines "w' \<equiv> (upd_st r (\<lambda>x. x\<lparr>scratchPad := pad, accessedAccounts := A, rpcCnt := m\<rparr>) w)\<lparr>clock := c\<rparr>"
  shows "cache_ext w w' \<and> wf_world E w'"
proof
  have h: "heap w' = (heap w)[r := (heap w ! r)\<lparr>scratchPad := pad, accessedAccounts := A, rpcCnt := m\<rparr>]"
    by (simp add: w'_def upd_st_def)
  have "root_ext (heap w ! i) (heap w' ! i)" if "i < length (heap w)" for i
  proof (cases "i = r")
    case True
    with r pad(2) show ?thesis by (auto simp: h root_ext_def)
  qed (simp add: h)
  with c show "cache_ext w w'" by (simp add: cache_ext_def w'_def)
  have "wf_heap (heap w')"
    unfolding h using wf r pad(1) by (intro wf_heap_layer_update) (auto simp: wf_world_def)
  moreover have "root_ok E (blockNumber w) (heap w' ! i)"
    if "i < length (heap w)" "parent (heap w' ! i) = None" for i
    using that wf r pad by (auto simp: wf_world_def h nth_list_update root_ok_def split: if_splits)
  moreover have "keyed E (heap w' ! i)" if "i < length (heap w)" "parent (heap w' ! i) \<noteq> None" for i
    using that wf r by (auto simp: wf_world_def h nth_list_update split: if_splits)
  ultimately show "wf_world E w'"
    by (simp add: wf_world_def) (simp add: w'_def)
qed

text \<open>The root after a request: the accounts asked for are marked, the counters have moved on.\<close>

lemma root_facts:
  assumes "wf_world E w" "r < length (heap w)" "parent (heap w ! r) = None"
  shows "bn (st w r)" "0 < batchSize (st w r)" "coherent E (blockNumber w) (scratchPad (heap w ! r))"
    "accounts_tracked E (scratchPad (heap w ! r)) (accessedAccounts (heap w ! r))" "gomap_wf (scratchPad (heap w ! r))"
  using assms by (auto simp: wf_world_def wf_heap_def root_ok_def st_def)

lemma root_requested_ok:
  assumes wf: "wf_world E w" and r: "r < length (heap w)" "parent (heap w ! r) = None"
    and A: "\<And>b. map_of (accessedAccounts (st w r)) b \<noteq> None \<Longrightarrow> map_of A b \<noteq> None" and c: "clock w \<le> c"
  shows "cache_ext w ((upd_st r (\<lambda>x. x\<lparr>accessedAccounts := A, rpcCnt := m\<rparr>) w)\<lparr>clock := c\<rparr>)"
    and "wf_world E ((upd_st r (\<lambda>x. x\<lparr>accessedAccounts := A, rpcCnt := m\<rparr>) w)\<lparr>clock := c\<rparr>)"
proof -
  let ?pad = "scratchPad (heap w ! r)"
  note ro = root_facts [OF wf r]
  have "accounts_tracked E ?pad A" using ro(4) A by (auto simp: accounts_tracked_def st_def)
  note ok = root_update_ok [OF wf r ro(5) map_le_refl ro(3) this c, of m]
  have "upd_st r (\<lambda>x. x\<lparr>scratchPad := ?pad, accessedAccounts := A, rpcCnt := m\<rparr>) w =
      upd_st r (\<lambda>x. x\<lparr>accessedAccounts := A, rpcCnt := m\<rparr>) w" by (intro upd_st_cong) simp
  with ok show "cache_ext w ((upd_st r (\<lambda>x. x\<lparr>accessedAccounts := A, rpcCnt := m\<rparr>) w)\<lparr>clock := c\<rparr>)"
    "wf_world E ((upd_st r (\<lambda>x. x\<lparr>accessedAccounts := A, rpcCnt := m\<rparr>) w)\<lparr>clock := c\<rparr>)" by simp_all
qed

text \<open>Storing what was fetched.\<close>

lemma root_stored_ok:
  assumes wf: "wf_world E w" and r: "r < length (heap w)" "parent (heap w ! r) = None"
    and pad: "gomap_wf (f (scratchPad (heap w ! r)))" "map_of (scratchPad (heap w ! r)) \<subseteq>\<^sub>m map_of (f (scratchPad (heap w ! r)))"
      "coherent E (blockNumber w) (f (scratchPad (heap w ! r)))"
      "accounts_tracked E (f (scratchPad (heap w ! r))) (accessedAccounts (heap w ! r))"
  shows "cache_ext w (upd_st r (\<lambda>x. x\<lparr>scratchPad := f (scratchPad x)\<rparr>) w) \<and> wf_world E (upd_st r (\<lambda>x. x\<lparr>scratchPad := f (scratchPad x)\<rparr>) w)"
proof -
  let ?s = "heap w ! r"
  have "upd_st r (\<lambda>x. x\<lparr>scratchPad := f (scratchPad x)\<rparr>) w = (upd_st r (\<lambda>x. x\<lparr>scratchPad := f (scratchPad ?s),
      accessedAccounts := accessedAccounts ?s, rpcCnt := rpcCnt ?s\<rparr>) w)\<lparr>clock := clock w\<rparr>" by (simp add: upd_st_def)
  with root_update_ok [OF wf r pad order_refl, of "rpcCnt ?s"] show ?thesis by simp
qed

lemma slot_stored_ok:
  fixes a :: address and k :: hash
  assumes kd: "keys_distinct E" and wf: "wf_world E w" and r: "r < length (heap w)" "parent (heap w ! r) = None"
  defines "w' \<equiv> upd_st r (\<lambda>x. x\<lparr>scratchPad := AList.update (scratchpadKey E GET_STATE a k) (uval E (blockNumber w) GET_STATE a k) (scratchPad x)\<rparr>) w"
  shows "cache_ext w w'" "wf_world E w'"
proof -
  note ro = root_facts [OF wf r]
  let ?pad' = "AList.update (scratchpadKey E GET_STATE a k) (uval E (blockNumber w) GET_STATE a k) (scratchPad (heap w ! r))"
  have "accounts_tracked E ?pad' (accessedAccounts (heap w ! r))"
    using ro(4) kd by (auto simp: accounts_tracked_def scratchpadKey_eq)
  moreover have "map_of (scratchPad (heap w ! r)) \<subseteq>\<^sub>m map_of ?pad'" using ro(3) by (auto simp: map_le_def coherent_def)
  ultimately have "cache_ext w w' \<and> wf_world E w'" unfolding w'_def
    using ro(3,5) kd by (intro root_stored_ok [OF wf r]) (simp_all add: coherent_update)
  then show "cache_ext w w'" "wf_world E w'" by auto
qed

lemma account_stored_ok:
  fixes a :: address
  assumes kd: "keys_distinct E" and wf: "wf_world E w" and r: "r < length (heap w)" "parent (heap w ! r) = None"
    and a: "map_of (accessedAccounts (st w r)) a \<noteq> None"
  defines "w' \<equiv> upd_st r (\<lambda>x. x\<lparr>scratchPad := fill_account E a (fetched_account E (blockNumber w) a) (scratchPad x)\<rparr>) w"
  shows "cache_ext w w'" "wf_world E w'"
    and "action \<noteq> GET_STATE \<Longrightarrow>
      map_of (scratchPad (st w' r)) (scratchpadKey E action a k) = Some (uval E (blockNumber w) action a k)"
proof -
  note ro = root_facts [OF wf r]
  let ?pad = "scratchPad (heap w ! r)"
  let ?pad' = "fill_account E a (fetched_account E (blockNumber w) a) ?pad"
  note fill = fill_account_facts [OF kd ro(3,5), where a = a]
  have "accounts_tracked E ?pad' (accessedAccounts (heap w ! r))"
    using ro(4) a fill(5) unfolding accounts_tracked_def st_def by blast
  with fill(1-3) have "cache_ext w w' \<and> wf_world E w'" unfolding w'_def by (intro root_stored_ok [OF wf r])
  then show "cache_ext w w'" "wf_world E w'" by auto
  show "map_of (scratchPad (st w' r)) (scratchpadKey E action a k) = Some (uval E (blockNumber w) action a k)"
    if "action \<noteq> GET_STATE"
    using fill(1) fill(4) [OF that, of k] r(1) by (auto simp: coherent_def w'_def st_upd_st) (auto simp: st_def)
qed

lemma get_root_ok:
  assumes E: "upstream_ok E" and wf: "wf_world E w"
    and r: "r < length (heap w)" "parent (heap w ! r) = None"
  shows "\<exists>w'. get_root E r a action k w = Some (uval E (blockNumber w) action a k, w') \<and>
           cache_ext w w' \<and> wf_world E w'"
proof -
  let ?n = "blockNumber w" and ?pad = "scratchPad (heap w ! r)" and ?K = "scratchpadKey E action a k"
  note ro = root_facts [OF wf r]
  from E have kd: "keys_distinct E" by (simp add: upstream_ok_def)
  consider (hit) v where "map_of ?pad ?K = Some v" | (slot) "map_of ?pad ?K = None" "action = GET_STATE"
    | (account) "map_of ?pad ?K = None" "action \<noteq> GET_STATE" by (cases "map_of ?pad ?K"; cases "action = GET_STATE") auto
  then show ?thesis
  proof cases
    case hit
    with ro(3) have "v = uval E ?n action a k" by (auto simp: coherent_def)
    with hit wf show ?thesis by (auto simp: get_root_def st_def)
  next
    case slot
    obtain m c where ls: "loadState E r a k w = Some (as_hash (answer E (eth_getStorageAt a k (sint ?n))),
        (upd_st r (\<lambda>x. x\<lparr>rpcCnt := m\<rparr>) w)\<lparr>clock := c\<rparr>)" and c: "clock w \<le> c"
      using loadState_ok [OF E r(1) ro(1,2)] by blast
    define w1 where "w1 = (upd_st r (\<lambda>x. x\<lparr>rpcCnt := m\<rparr>) w)\<lparr>clock := c\<rparr>"
    have "w1 = (upd_st r (\<lambda>x. x\<lparr>accessedAccounts := accessedAccounts (st w r), rpcCnt := m\<rparr>) w)\<lparr>clock := c\<rparr>"
      by (simp add: w1_def upd_st_def st_def)
    with root_requested_ok [OF wf r _ c, of "accessedAccounts (st w r)" m] have w1: "cache_ext w w1" "wf_world E w1" by auto
    note p = cache_ext_globals [OF w1(1)] cache_ext_parent [OF w1(1) r(1)]
    from slot_stored_ok [OF kd w1(2), of r a k] cache_ext_trans [OF w1(1)] slot ls r p show ?thesis
      by (auto simp: get_root_def st_def uval_def w1_def [symmetric])
  next
    case account
    obtain A c where la: "loadAccount E r a w = Some (fetched_account E ?n a,
         (upd_st r (\<lambda>x. x\<lparr>accessedAccounts := A\<rparr>) w)\<lparr>clock := c\<rparr>)" and c: "clock w \<le> c"
      and A: "\<forall>b. map_of A b = (if b = a then Some True else map_of (accessedAccounts (st w r)) b)"
      using loadAccount_ok [OF E r(1) ro(1,2)] by blast
    define w1 where "w1 = (upd_st r (\<lambda>x. x\<lparr>accessedAccounts := A\<rparr>) w)\<lparr>clock := c\<rparr>"
    have "w1 = (upd_st r (\<lambda>x. x\<lparr>accessedAccounts := A, rpcCnt := rpcCnt (st w r)\<rparr>) w)\<lparr>clock := c\<rparr>"
      by (simp add: w1_def upd_st_def st_def)
    moreover have "map_of A b \<noteq> None" if "map_of (accessedAccounts (st w r)) b \<noteq> None" for b using that A by auto
    ultimately have w1: "cache_ext w w1" "wf_world E w1" using root_requested_ok [OF wf r _ c, of A] by auto
    note p = cache_ext_globals [OF w1(1)] cache_ext_parent [OF w1(1) r(1)]
    have "map_of (accessedAccounts (st w1 r)) a \<noteq> None" using A r(1) by (simp add: w1_def st_upd_st)
    from account_stored_ok [OF kd w1(2) _ _ this] account la r p cache_ext_trans [OF w1(1)] show ?thesis
      by (auto simp: get_root_def st_def Let_def w1_def [symmetric])
  qed
qed

lemma get_ok:
  assumes E: "upstream_ok E" and wf: "wf_world E w" and r: "r < length (heap w)"
  shows "\<exists>w'. get E r a action k w = Some (view E w r action a k, w') \<and> cache_ext w w' \<and> wf_world E w'"
  using r
proof (induction r rule: less_induct)
  case (less r)
  from wf have wfh: "wf_heap (heap w)" by (simp add: wf_world_def)
  show ?case
  proof (cases "parent (heap w ! r)")
    case None
    then have "view E w r action a k = uval E (blockNumber w) action a k"
      by (simp add: view_def overlay.simps)
    with get_root_ok [OF E wf less.prems None] None show ?thesis
      by (subst get.simps) (simp add: st_def)
  next
    case (Some p)
    with wf_heap_parent [OF wfh less.prems] have p: "p < r" by simp
    show ?thesis
    proof (cases "map_of (scratchPad (heap w ! r)) (scratchpadKey E action a k)")
      case None
      with Some p have "view E w r action a k = view E w p action a k"
        by (simp add: view_def overlay.simps [of _ r])
      with less.IH [OF p] p less.prems Some None show ?thesis
        by (subst get.simps) (simp add: st_def)
    next
      case (Some v)
      with \<open>parent (heap w ! r) = Some p\<close> wf show ?thesis
        by (subst get.simps) (simp add: st_def view_def overlay.simps [of _ r])
    qed
  qed
qed

section \<open>Deriving layers\<close>

lemma getRootState_ok:
  assumes "wf_heap (heap w)" "r < length (heap w)"
  shows "\<exists>root. getRootState r w = Some root \<and> root \<le> r \<and> parent (heap w ! root) = None"
  using assms(2)
proof (induction r rule: less_induct)
  case (less r)
  show ?case
  proof (cases "parent (heap w ! r)")
    case None
    then show ?thesis by (subst getRootState.simps) (auto simp: st_def)
  next
    case (Some p)
    with wf_heap_parent [OF assms(1) less.prems] have p: "p < r" by simp
    from less.IH [OF p] p less.prems Some show ?thesis
      by (subst getRootState.simps) (auto simp: st_def)
  qed
qed

definition fresh_layer :: "env \<Rightarrow> string \<Rightarrow> ref \<Rightarrow> world \<Rightarrow> OverlayState" where
  "fresh_layer E why s w = \<lparr>parent = Some s, bn = False, scratchPad = [], batchSize = 0,
     accessedAccounts = [], txLogs = [], receipts = [], currentTxHash = currentTxHash (st w s),
     currentBlockHash = currentBlockHash (st w s), deriveCnt = deriveCnt (st w s) + 1,
     rpcCnt = 0, reason = why, stateID = rand_Uint64 E (length (heap w))\<rparr>"

lemma Derive_eq:
  "Derive E why s w = (length (heap w), w\<lparr>heap := heap w @ [fresh_layer E why s w]\<rparr>)"
  by (simp add: Derive_def fresh_layer_def)

lemma overlay_append:
  "wf_heap h \<Longrightarrow> r < length h \<Longrightarrow> overlay (h @ hs) r key = overlay h r key"
  by (rule overlay_cong) (auto simp: nth_append)

lemma wf_world_Derive:
  assumes "wf_world E w" "s < length (heap w)"
  shows "wf_world E (w\<lparr>heap := heap w @ [fresh_layer E why s w]\<rparr>)"
  using assms
  by (auto simp: wf_world_def wf_heap_def nth_append fresh_layer_def st_def less_Suc_eq keyed_def
           split: option.splits)

lemma view_Derive_old:
  assumes "wf_world E w" "r < length (heap w)"
  shows "view E (w\<lparr>heap := heap w @ hs\<rparr>) r = view E w r"
  using assms by (auto simp: fun_eq_iff view_def wf_world_def overlay_append split: option.split)

lemma view_Derive_new:
  assumes "wf_world E w" "s < length (heap w)"
  shows "view E (w\<lparr>heap := heap w @ [fresh_layer E why s w]\<rparr>) (length (heap w)) = view E w s"
proof -
  have "overlay (heap w @ [fresh_layer E why s w]) (length (heap w)) key = overlay (heap w) s key" for key
    using assms by (subst overlay.simps) (simp add: fresh_layer_def overlay_append wf_world_def)
  then show ?thesis by (auto simp: fun_eq_iff view_def split: option.split)
qed

text \<open>Writing one key of a layer.\<close>

definition put_pad :: "ref \<Rightarrow> bytes \<Rightarrow> bytes \<Rightarrow> world \<Rightarrow> world" where
  "put_pad r k v w = upd_st r (\<lambda>x. x\<lparr>scratchPad := AList.update k v (scratchPad x)\<rparr>) w"

lemma put_pad_simps [simp]:
  "length (heap (put_pad r k v w)) = length (heap w)"
  "blockNumber (put_pad r k v w) = blockNumber w"
  "keyCacheFile (put_pad r k v w) = keyCacheFile w"
  "bigs (put_pad r k v w) = bigs w"
  "clock (put_pad r k v w) = clock w"
  by (simp_all add: put_pad_def)

lemma heap_put_pad:
  "r < length (heap w) \<Longrightarrow> heap (put_pad r k v w) ! i =
   (if i = r then (heap w ! r)\<lparr>scratchPad := AList.update k v (scratchPad (heap w ! r))\<rparr> else heap w ! i)"
  by (simp add: put_pad_def heap_upd_st)

lemma wf_world_put_pad:
  assumes "wf_world E w" "r < length (heap w)" "parent (heap w ! r) \<noteq> None" "pad_key E k"
  shows "wf_world E (put_pad r k v w)"
proof -
  have "gomap_wf (scratchPad (heap w ! r))" using assms by (simp add: wf_world_def wf_heap_def)
  with assms show ?thesis unfolding put_pad_def by (intro wf_world_layer_update) simp_all
qed

lemma overlay_put_pad:
  assumes "wf_heap (heap w)" "r < length (heap w)" "parent (heap w ! r) \<noteq> None"
  shows "overlay (heap (put_pad r k v w)) r key = (if key = k then Some v else overlay (heap w) r key)"
proof -
  obtain p where p: "parent (heap w ! r) = Some p" using assms(3) by blast
  with wf_heap_parent [OF assms(1,2)] have lt: "p < r" by simp
  have "overlay (heap (put_pad r k v w)) p key = overlay (heap w) p key"
    by (rule overlay_cong [OF assms(1)]) (use lt assms(2) in \<open>auto simp: heap_put_pad\<close>)
  with p lt assms(2) show ?thesis
    by (simp add: overlay.simps [of _ r] heap_put_pad split: option.split)
qed

lemma overlay_put_pad_below:
  assumes "wf_heap (heap w)" "r < length (heap w)" "i < r"
  shows "overlay (heap (put_pad r k v w)) i key = overlay (heap w) i key"
  by (rule overlay_cong [OF assms(1)]) (use assms in \<open>auto simp: heap_put_pad\<close>)

lemma view_put_pad:
  assumes "wf_world E w" "keys_distinct E" "r < length (heap w)" "parent (heap w ! r) \<noteq> None"
  shows "view E (put_pad r (scratchpadKey E action a k) v w) r action' a' k' =
    (if action' = action \<and> a' = a \<and> (action = GET_STATE \<longrightarrow> k' = k) then v
     else view E w r action' a' k')"
  using assms by (auto simp: view_def overlay_put_pad wf_world_def scratchpadKey_eq split: option.split)

lemma wf_demo: "wf_world demo_env demo_world"
  by (simp add: wf_world_def wf_heap_def root_ok_def coherent_def accounts_tracked_def keyed_def
      demo_world_def Derive_def NewOverlayState_def st_def nth_Cons' less_Suc_eq)

lemma view_demo: "view demo_env demo_world (Suc 0) action a k = uval demo_env 7 action a k"
  by (simp add: view_def overlay.simps [of _ 0] overlay.simps [of _ "Suc 0"] demo_world_def Derive_def NewOverlayState_def st_def)

section \<open>Properties\<close>

text \<open>C1.
  Reading a value through the layers always returns: it is the value written last in the nearest
  layer that has one, and otherwise the upstream node's value at the state's block number, after
  however many failed requests. A read changes nothing but the caches of the roots, which only
  grow and stay coherent with the upstream node.
\<close>

theorem get_returns_view:
  assumes "upstream_ok E" "wf_world E w" "r < length (heap w)"
  shows "\<exists>w'. get E r a action k w = Some (view E w r action a k, w') \<and> cache_ext w w' \<and> wf_world E w'"
  using assms by (rule get_ok)

theorem get_returns_view_witness:
  "upstream_ok demo_env \<and> wf_world demo_env demo_world \<and> 1 < length (heap demo_world) \<and>
   (\<exists>w'. get demo_env 1 9 GET_STATE 4 demo_world = Some (Hash_Bytes 4, w'))"
proof -
  have "view demo_env demo_world 1 GET_STATE 9 4 = Hash_Bytes 4"
    by (simp add: view_demo uval_def answer_demo demo_answer_def as_hash_def)
  with get_returns_view [OF upstream_ok_demo wf_demo, of 1 9 GET_STATE 4] show ?thesis
    by (auto simp: upstream_ok_demo wf_demo demo_heap)
qed

text \<open>
  Scratch pad keys never collide: two reads share a key exactly when they ask for the same kind of
  value of the same account and, for storage, of the same slot; and no read uses the key under
  which self-destruction is recorded.
\<close>

theorem scratchpadKey_injective:
  assumes "keys_distinct E"
  shows "(scratchpadKey E action a k = scratchpadKey E action' a' k' \<longleftrightarrow>
      action = action' \<and> a = a' \<and> (action = GET_STATE \<longrightarrow> k = k')) \<and>
    scratchpadKey E action a k \<noteq> calcKey (SUICIDE_KEY E) b"
  using scratchpadKey_eq [OF assms] assms
  by (auto simp: scratchpadKey_def keys_distinct_def split: RequestType.splits)

theorem scratchpadKey_injective_witness:
  "keys_distinct demo_env \<and> scratchpadKey demo_env GET_CODE 1 2 = scratchpadKey demo_env GET_CODE 1 3 \<and>
   scratchpadKey demo_env GET_STATE 1 2 \<noteq> scratchpadKey demo_env GET_STATE 1 3"
  using scratchpadKey_injective [of demo_env GET_CODE 1 2 GET_CODE 1 3 0]
    scratchpadKey_injective [of demo_env GET_STATE 1 2 GET_STATE 1 3 0] upstream_ok_demo
  by (simp add: upstream_ok_def)

end
