(* ===== verification/Constant.thy ===== *)
theory Constant
  imports Layers
begin

text \<open>
  \<^verbatim>\<open>constant/fakeaccounts.go\<close> and \<^verbatim>\<open>constant/numbers.go\<close>: the accounts the node funds, and the
  number that marks a transaction signed by the node itself.
\<close>

definition FAKE_ACCOUNT_0 :: address where
  "FAKE_ACCOUNT_0 = 0xaaaaaaaaaaaaaaaaaaaaaaaaaaaaaaaaaaaaaaaa"

definition FAKE_ACCOUNT_1 :: address where
  "FAKE_ACCOUNT_1 = 0xbbbbbbbbbbbbbbbbbbbbbbbbbbbbbbbbbbbbbbbb"

definition FAKE_ACCOUNT_2 :: address where
  "FAKE_ACCOUNT_2 = 0xcccccccccccccccccccccccccccccccccccccccc"

definition FAKE_ACCOUNT_3 :: address where
  "FAKE_ACCOUNT_3 = 0xdddddddddddddddddddddddddddddddddddddddd"

definition FAKE_ACCOUNT_RICH :: "env \<Rightarrow> address" where
  "FAKE_ACCOUNT_RICH E = BytesToAddress (Hash_Bytes (keccak256 E (str_bytes (time_now E 0))))"

definition FAKE_ACCOUNT_RAND :: "env \<Rightarrow> address" where
  "FAKE_ACCOUNT_RAND E = BytesToAddress (Hash_Bytes (keccak256 E (str_bytes (time_now E 1))))"

definition MFERSIGNER_S :: int where
  "MFERSIGNER_S = big_SetBytes (str_bytes ''mferSigner'')"

end
