(* ===== verification/OverlayStateDB.thy ===== *)
theory OverlayStateDB
  imports Constant
begin

text \<open>
  \<^verbatim>\<open>mferstate/overlaystatedb.go\<close>: the state database that the EVM runs on. It keeps a pointer to
  the current layer; writes go to that layer, reads go down the chain, a snapshot pushes a new
  layer and a revert moves the pointer back. An operation takes and returns the database object
  and the world; operations that leave the object alone return the world only.
\<close>

section \<open>The database object\<close>

text \<open>
  \<open>stateBN\<close> tells whether the pointer to the block number is non-nil: the constructor sets it,
  the clones do not.
\<close>

record OverlayStateDB =
  cacheFilePath :: string
  maxKeyCache :: u64
  refundGas :: u64
  state :: ref
  stateBN :: bool

definition GetOverlayDepth :: "OverlayStateDB \<Rightarrow> world \<Rightarrow> int" where
  "GetOverlayDepth db w = deriveCnt (st w (state db))"

definition NewOverlayStateDB ::
  "env \<Rightarrow> string \<Rightarrow> u64 \<Rightarrow> int \<Rightarrow> world \<Rightarrow> OverlayStateDB \<times> world" where
  "NewOverlayStateDB E path maxKeys bsize w =
     (let (root, w1) = NewOverlayState bsize w;
          (s, w2) = Derive E ''protect underlying'' root w1
      in (\<lparr>cacheFilePath = path, maxKeyCache = maxKeys, refundGas = 0, state = s, stateBN = True\<rparr>,
          w2))"

section \<open>Resetting the root\<close>

definition load_key_cache ::
  "env \<Rightarrow> nat \<Rightarrow> string list \<Rightarrow> (bytes, bytes) gomap \<Rightarrow> (bytes, bytes) gomap" where
  "load_key_cache E n lines pad =
     fold (\<lambda>txt m. AList.update (Hash_Bytes (STATE_KEY E) @ Hex2Bytes txt) [] m) (take n lines) pad"

definition is_slot_key :: "env \<Rightarrow> bytes \<Rightarrow> bool" where
  "is_slot_key E k \<longleftrightarrow> length k = 32 + 20 + 32 \<and> BytesToHash (take 32 k) = STATE_KEY E"

definition slot_req :: "bytes \<Rightarrow> StorageReq" where
  "slot_req k = \<lparr>sr_Address = BytesToAddress (take 20 (drop 32 k)),
                 sr_Key = BytesToHash (drop 52 k), sr_Value = 0\<rparr>"

definition store_slots ::
  "env \<Rightarrow> StorageReq list \<Rightarrow> (bytes, bytes) gomap \<Rightarrow> (bytes, bytes) gomap" where
  "store_slots E reqs pad =
     fold (\<lambda>r m. AList.update (calcStateKey E (sr_Address r) (sr_Key r)) (Hash_Bytes (sr_Value r)) m)
       reqs pad"

definition store_account ::
  "env \<Rightarrow> address \<times> FetchedAccountResult \<Rightarrow> (bytes, bytes) gomap \<Rightarrow> (bytes, bytes) gomap" where
  "store_account E = (\<lambda>(account, result) pad.
     AList.update (calcKey (CODEHASH_KEY E) account) (Hash_Bytes (far_CodeHash result))
      (AList.update (calcKey (CODE_KEY E) account) (far_Code result)
       (AList.update (calcKey (NONCE_KEY E) account) (nonce_Bytes (far_Nonce result))
        (AList.update (calcKey (BALANCE_KEY E) account) (big_Bytes (far_Balance result)) pad))))"

definition resetScratchPad :: "env \<Rightarrow> OverlayStateDB \<Rightarrow> bool \<Rightarrow> world \<Rightarrow> world option" where
  "resetScratchPad E db clearKeyCache w =
     (let s = state db in
      if \<not> bn (st w s) then None
      else if openfile_err E (cacheFilePath db) then None
      else if clearKeyCache then
        Some ((upd_st s (\<lambda>x. x\<lparr>scratchPad := [], accessedAccounts := []\<rparr>) w)\<lparr>keyCacheFile := []\<rparr>)
      else do {
        let pad1 = load_key_cache E (unat (maxKeyCache db)) (keyCacheFile w) (scratchPad (st w s));
        let keys = filter (is_slot_key E) (map fst pad1);
        let reqs = map slot_req keys;
        let w1 = upd_st s (\<lambda>x. mark_accessed (map sr_Address reqs) (x\<lparr>scratchPad := pad1\<rparr>)) w;
        (res, w2) \<leftarrow> loadStateBatchRPC E s reqs w1;
        (case res of
           Inl err \<Rightarrow> None
         | Inr fetched \<Rightarrow> do {
             let w3 = upd_st s (\<lambda>x. x\<lparr>scratchPad := store_slots E fetched (scratchPad x)\<rparr>)
                        (w2\<lparr>keyCacheFile := map (\<lambda>k. Bytes2Hex (drop 32 k)) keys\<rparr>);
             let accounts = map fst (accessedAccounts (st w3 s));
             (ares, w4) \<leftarrow> loadAccountBatchRPC E s accounts w3;
             (case ares of
                Inl err \<Rightarrow> Some w4
              | Inr accountResults \<Rightarrow>
                  Some (upd_st s (\<lambda>x. x\<lparr>scratchPad :=
                    fold (store_account E) (zip accounts accountResults) (scratchPad x)\<rparr>) w4))
           })
      })"

definition InitState ::
  "env \<Rightarrow> OverlayStateDB \<Rightarrow> bool \<Rightarrow> bool \<Rightarrow> world \<Rightarrow> (OverlayStateDB \<times> world) option" where
  "InitState E db fetchNewState clearCache w = do {
     root \<leftarrow> getRootState (state db) w;
     if \<not> stateBN db then None
     else do {
       w1 \<leftarrow> (if fetchNewState then resetScratchPad E (db\<lparr>state := root\<rparr>) clearCache w else Some w);
       let (s, w2) = Derive E ''reset and protect underlying'' root w1;
       Some (db\<lparr>state := s\<rparr>, w2)
     }
   }"

section \<open>Accounts\<close>

definition CreateAccount :: "OverlayStateDB \<Rightarrow> address \<Rightarrow> world \<Rightarrow> world" where
  "CreateAccount db account w = w"

definition SubBalance :: "env \<Rightarrow> OverlayStateDB \<Rightarrow> address \<Rightarrow> int \<Rightarrow> world \<Rightarrow> world option" where
  "SubBalance E db account delta w = do {
     (bal, w1) \<leftarrow> get E (state db) account GET_BALANCE 0 w;
     let post = big_SetBytes bal - delta;
     Some (put_pad (state db) (calcKey (BALANCE_KEY E) account) (big_Bytes post) w1)
   }"

definition AddBalance :: "env \<Rightarrow> OverlayStateDB \<Rightarrow> address \<Rightarrow> int \<Rightarrow> world \<Rightarrow> world option" where
  "AddBalance E db account delta w = do {
     (bal, w1) \<leftarrow> get E (state db) account GET_BALANCE 0 w;
     let post = big_SetBytes bal + delta;
     Some (put_pad (state db) (calcKey (BALANCE_KEY E) account) (big_Bytes post) w1)
   }"

definition InitFakeAccounts :: "env \<Rightarrow> OverlayStateDB \<Rightarrow> world \<Rightarrow> world option" where
  "InitFakeAccounts E db w = do {
     w1 \<leftarrow> AddBalance E db FAKE_ACCOUNT_0 (10 ^ 18 * 1000) w;
     w2 \<leftarrow> AddBalance E db FAKE_ACCOUNT_1 (10 ^ 18 * 1000) w1;
     w3 \<leftarrow> AddBalance E db FAKE_ACCOUNT_2 (10 ^ 18 * 1000) w2;
     w4 \<leftarrow> AddBalance E db FAKE_ACCOUNT_3 (10 ^ 18 * 1000) w3;
     AddBalance E db (FAKE_ACCOUNT_RICH E) (10 ^ 18 * 1000000000) w4
   }"

definition GetBalance :: "env \<Rightarrow> OverlayStateDB \<Rightarrow> address \<Rightarrow> world \<Rightarrow> (int \<times> world) option" where
  "GetBalance E db account w = do {
     (bal, w1) \<leftarrow> get E (state db) account GET_BALANCE 0 w;
     Some (big_SetBytes bal, w1)
   }"

definition SetBalance :: "env \<Rightarrow> OverlayStateDB \<Rightarrow> address \<Rightarrow> int \<Rightarrow> world \<Rightarrow> world" where
  "SetBalance E db account balance w =
     put_pad (state db) (calcKey (BALANCE_KEY E) account) (big_Bytes balance) w"

definition GetNonce :: "env \<Rightarrow> OverlayStateDB \<Rightarrow> address \<Rightarrow> world \<Rightarrow> (u64 \<times> world) option" where
  "GetNonce E db account w = do {
     (nonce, w1) \<leftarrow> get E (state db) account GET_NONCE 0 w;
     Some (big_Uint64 (big_SetBytes nonce), w1)
   }"

definition SetNonce :: "env \<Rightarrow> OverlayStateDB \<Rightarrow> address \<Rightarrow> u64 \<Rightarrow> world \<Rightarrow> world" where
  "SetNonce E db account nonce w =
     put_pad (state db) (calcKey (NONCE_KEY E) account) (nonce_Bytes nonce) w"

definition GetCodeHash :: "env \<Rightarrow> OverlayStateDB \<Rightarrow> address \<Rightarrow> world \<Rightarrow> (hash \<times> world) option" where
  "GetCodeHash E db account w = do {
     (codehash, w1) \<leftarrow> get E (state db) account GET_CODEHASH 0 w;
     Some (BytesToHash codehash, w1)
   }"

definition SetCodeHash :: "env \<Rightarrow> OverlayStateDB \<Rightarrow> address \<Rightarrow> hash \<Rightarrow> world \<Rightarrow> world" where
  "SetCodeHash E db account codeHash w =
     put_pad (state db) (calcKey (CODEHASH_KEY E) account) (Hash_Bytes codeHash) w"

definition GetCode :: "env \<Rightarrow> OverlayStateDB \<Rightarrow> address \<Rightarrow> world \<Rightarrow> (bytes \<times> world) option" where
  "GetCode E db account w = get E (state db) account GET_CODE 0 w"

definition SetCode :: "env \<Rightarrow> OverlayStateDB \<Rightarrow> address \<Rightarrow> bytes \<Rightarrow> world \<Rightarrow> world" where
  "SetCode E db account code w =
     put_pad (state db) (calcKey (CODE_KEY E) account) code w"

definition GetCodeSize :: "env \<Rightarrow> OverlayStateDB \<Rightarrow> address \<Rightarrow> world \<Rightarrow> (nat \<times> world) option" where
  "GetCodeSize E db account w = do {
     (code, w1) \<leftarrow> get E (state db) account GET_CODE 0 w;
     Some (length code, w1)
   }"

section \<open>Refund counter\<close>

definition AddRefund :: "OverlayStateDB \<Rightarrow> u64 \<Rightarrow> OverlayStateDB" where
  "AddRefund db delta = db\<lparr>refundGas := refundGas db + delta\<rparr>"

definition SubRefund :: "OverlayStateDB \<Rightarrow> u64 \<Rightarrow> OverlayStateDB" where
  "SubRefund db delta = db\<lparr>refundGas := refundGas db - delta\<rparr>"

definition GetRefund :: "OverlayStateDB \<Rightarrow> u64" where
  "GetRefund db = refundGas db"

section \<open>Storage\<close>

definition GetCommittedState ::
  "env \<Rightarrow> OverlayStateDB \<Rightarrow> address \<Rightarrow> hash \<Rightarrow> world \<Rightarrow> (hash \<times> world) option" where
  "GetCommittedState E db account key w = do {
     (val, w1) \<leftarrow> get E (state db) account GET_STATE key w;
     Some (BytesToHash val, w1)
   }"

definition GetState ::
  "env \<Rightarrow> OverlayStateDB \<Rightarrow> address \<Rightarrow> hash \<Rightarrow> world \<Rightarrow> (hash \<times> world) option" where
  "GetState E db account key w = GetCommittedState E db account key w"

definition SetState :: "env \<Rightarrow> OverlayStateDB \<Rightarrow> address \<Rightarrow> hash \<Rightarrow> hash \<Rightarrow> world \<Rightarrow> world" where
  "SetState E db account key val w =
     put_pad (state db) (calcStateKey E account key) (Hash_Bytes val) w"

section \<open>Self-destruction and existence\<close>

definition Suicide :: "env \<Rightarrow> OverlayStateDB \<Rightarrow> address \<Rightarrow> world \<Rightarrow> bool \<times> world" where
  "Suicide E db account w =
     (True, put_pad (state db) (calcKey (SUICIDE_KEY E) account) [1] w)"

definition HasSuicided :: "env \<Rightarrow> OverlayStateDB \<Rightarrow> address \<Rightarrow> world \<Rightarrow> bool" where
  "HasSuicided E db account w =
     (case map_of (scratchPad (st w (state db))) (calcKey (SUICIDE_KEY E) account) of
        Some val \<Rightarrow> val = [1]
      | None \<Rightarrow> False)"

definition Empty :: "env \<Rightarrow> OverlayStateDB \<Rightarrow> address \<Rightarrow> world \<Rightarrow> (bool \<times> world) option" where
  "Empty E db account w = do {
     (code, w1) \<leftarrow> GetCode E db account w;
     (nonce, w2) \<leftarrow> GetNonce E db account w1;
     (balance, w3) \<leftarrow> GetBalance E db account w2;
     Some (length code = 0 \<and> nonce = 0 \<and> sgn balance = 0, w3)
   }"

definition Exist :: "env \<Rightarrow> OverlayStateDB \<Rightarrow> address \<Rightarrow> world \<Rightarrow> (bool \<times> world) option" where
  "Exist E db account w = do {
     (b, w1) \<leftarrow> Empty E db account w;
     Some (\<not> b, w1)
   }"

section \<open>Access lists\<close>

definition PrepareAccessList ::
  "address \<Rightarrow> address option \<Rightarrow> address list \<Rightarrow> access_list \<Rightarrow> world \<Rightarrow> world" where
  "PrepareAccessList sender dest precompiles txAccesses w = w"

definition AddressInAccessList :: "address \<Rightarrow> bool" where
  "AddressInAccessList addr = True"

definition SlotInAccessList :: "address \<Rightarrow> hash \<Rightarrow> bool \<times> bool" where
  "SlotInAccessList addr slot = (True, True)"

definition AddAddressToAccessList :: "address \<Rightarrow> world \<Rightarrow> world" where
  "AddAddressToAccessList addr w = w"

definition AddSlotToAccessList :: "address \<Rightarrow> hash \<Rightarrow> world \<Rightarrow> world" where
  "AddSlotToAccessList addr slot w = w"

section \<open>Snapshots\<close>

partial_function (option) revert_walk :: "ref option \<Rightarrow> int \<Rightarrow> world \<Rightarrow> ref option" where
  "revert_walk tmpState revisionID w = (case tmpState of
     None \<Rightarrow> None
   | Some t \<Rightarrow> if deriveCnt (st w t) + 1 = revisionID then Some t
               else revert_walk (Parent t w) revisionID w)"

definition RevertToSnapshot :: "OverlayStateDB \<Rightarrow> int \<Rightarrow> world \<Rightarrow> OverlayStateDB option" where
  "RevertToSnapshot db revisionID w = do {
     t \<leftarrow> revert_walk (Parent (state db) w) revisionID w;
     Some (db\<lparr>state := t\<rparr>)
   }"

definition Snapshot :: "env \<Rightarrow> OverlayStateDB \<Rightarrow> world \<Rightarrow> int \<times> OverlayStateDB \<times> world" where
  "Snapshot E db w =
     (let (s, w1) = Derive E ''snapshot'' (state db) w
      in (deriveCnt (st w1 s), db\<lparr>state := s\<rparr>, w1))"

partial_function (option) merge_walk :: "ref \<Rightarrow> int \<Rightarrow> world \<Rightarrow> (ref \<times> world) option" where
  "merge_walk currState revisionID w =
     (if deriveCnt (st w currState) = revisionID then Some (currState, w)
      else (case parent (st w currState) of
              None \<Rightarrow> None
            | Some parentState \<Rightarrow>
                merge_walk parentState revisionID
                  (upd_st parentState (\<lambda>x. x\<lparr>scratchPad :=
                     copy_over (scratchPad (st w currState)) (scratchPad x)\<rparr>) w)))"

definition MergeTo :: "OverlayStateDB \<Rightarrow> int \<Rightarrow> world \<Rightarrow> (OverlayStateDB \<times> world) option" where
  "MergeTo db revisionID w = do {
     (s, w1) \<leftarrow> merge_walk (state db) revisionID w;
     Some (db\<lparr>state := s\<rparr>, w1)
   }"

section \<open>Clones and statistics\<close>

definition Clone :: "env \<Rightarrow> OverlayStateDB \<Rightarrow> world \<Rightarrow> OverlayStateDB \<times> world" where
  "Clone E db w =
     (let (s, w1) = Derive E ''clone'' (state db) w
      in (\<lparr>cacheFilePath = [], maxKeyCache = 0, refundGas = 0, state = s, stateBN = False\<rparr>, w1))"

definition CloneFromRoot :: "env \<Rightarrow> OverlayStateDB \<Rightarrow> world \<Rightarrow> (OverlayStateDB \<times> world) option" where
  "CloneFromRoot E db w = do {
     (s, w1) \<leftarrow> DeriveFromRoot E (state db) w;
     Some (\<lparr>cacheFilePath = [], maxKeyCache = 0, refundGas = 0, state = s, stateBN = False\<rparr>, w1)
   }"

definition CacheSize :: "OverlayStateDB \<Rightarrow> world \<Rightarrow> nat option" where
  "CacheSize db w = do {
     root \<leftarrow> getRootState (state db) w;
     Some (\<Sum>(k, v)\<leftarrow>scratchPad (st w root). length k + length v)
   }"

definition RPCRequestCount :: "OverlayStateDB \<Rightarrow> world \<Rightarrow> int option" where
  "RPCRequestCount db w = do {
     root \<leftarrow> getRootState (state db) w;
     Some (rpcCnt (st w root))
   }"

definition StateBlockNumber :: "OverlayStateDB \<Rightarrow> world \<Rightarrow> u64 option" where
  "StateBlockNumber db w = (if stateBN db then Some (blockNumber w) else None)"

definition SetBatchSize :: "OverlayStateDB \<Rightarrow> int \<Rightarrow> world \<Rightarrow> world option" where
  "SetBatchSize db bsize w = do {
     root \<leftarrow> getRootState (state db) w;
     Some (upd_st root (\<lambda>x. x\<lparr>batchSize := bsize\<rparr>) w)
   }"

section \<open>Logs and receipts\<close>

definition StartLogCollection :: "OverlayStateDB \<Rightarrow> hash \<Rightarrow> hash \<Rightarrow> world \<Rightarrow> world" where
  "StartLogCollection db txHash blkHash w =
     upd_st (state db) (\<lambda>x. x\<lparr>currentTxHash := txHash, currentBlockHash := blkHash\<rparr>) w"

definition logs_of :: "(hash, Log list) gomap \<Rightarrow> hash \<Rightarrow> Log list" where
  "logs_of m h = (case map_of m h of Some l \<Rightarrow> l | None \<Rightarrow> [])"

definition AddLog :: "OverlayStateDB \<Rightarrow> Log \<Rightarrow> world \<Rightarrow> world" where
  "AddLog db vLog w =
     upd_st (state db) (\<lambda>x. x\<lparr>txLogs := AList.update (currentTxHash x)
       (logs_of (txLogs x) (currentTxHash x) @ [vLog]) (txLogs x)\<rparr>) w"

partial_function (option) logs_walk :: "ref option \<Rightarrow> hash \<Rightarrow> Log list \<Rightarrow> world \<Rightarrow> Log list option"
  where
  "logs_walk tmpStateDB txHash logs w = (case tmpStateDB of
     None \<Rightarrow> Some logs
   | Some t \<Rightarrow> logs_walk (parent (st w t)) txHash (logs_of (txLogs (st w t)) txHash @ logs) w)"

definition GetLogs :: "OverlayStateDB \<Rightarrow> hash \<Rightarrow> world \<Rightarrow> Log list option" where
  "GetLogs db txHash w = logs_walk (Some (state db)) txHash [] w"

definition AddReceipt :: "OverlayStateDB \<Rightarrow> hash \<Rightarrow> Receipt \<Rightarrow> world \<Rightarrow> world" where
  "AddReceipt db txHash receipt w =
     upd_st (state db) (\<lambda>x. x\<lparr>receipts := AList.update txHash receipt (receipts x)\<rparr>) w"

partial_function (option) receipt_walk ::
  "ref \<Rightarrow> hash \<Rightarrow> world \<Rightarrow> (ref \<times> Receipt) option option" where
  "receipt_walk t txHash w = (case parent (st w t) of
     None \<Rightarrow> Some None
   | Some p \<Rightarrow> (case map_of (receipts (st w t)) txHash of
       Some receipt \<Rightarrow> Some (Some (t, receipt))
     | None \<Rightarrow> receipt_walk p txHash w))"

definition GetReceipt ::
  "OverlayStateDB \<Rightarrow> hash \<Rightarrow> world \<Rightarrow> (Receipt option \<times> world) option" where
  "GetReceipt db txHash w = do {
     found \<leftarrow> receipt_walk (state db) txHash w;
     (case found of
        None \<Rightarrow> Some (None, w)
      | Some (t, receipt) \<Rightarrow> do {
          logs \<leftarrow> GetLogs db txHash w;
          let receipt' = receipt\<lparr>rcpt_Logs := logs\<rparr>;
          Some (Some receipt',
                upd_st t (\<lambda>x. x\<lparr>receipts := AList.update txHash receipt' (receipts x)\<rparr>) w)
        })
   }"

definition AddPreimage :: "hash \<Rightarrow> bytes \<Rightarrow> world \<Rightarrow> world" where
  "AddPreimage h preimage w = w"

definition ForEachStorage :: "address \<Rightarrow> (hash \<Rightarrow> hash \<Rightarrow> bool) \<Rightarrow> world \<Rightarrow> string option \<times> world" where
  "ForEachStorage account callback w = (None, w)"

section \<open>State difference\<close>

record OverrideAccount =
  ov_Nonce :: "u64 option"
  ov_Code :: "bytes option"
  ov_Balance :: "int option"
  ov_StateDiff :: "(hash, hash) gomap option"

type_synonym StateOverride = "(address, OverrideAccount) gomap"

partial_function (option) merged_walk ::
  "ref \<Rightarrow> (bytes, bytes) gomap \<Rightarrow> world \<Rightarrow> (bytes, bytes) gomap option" where
  "merged_walk tmpState merged w = (case parent (st w tmpState) of
     None \<Rightarrow> Some merged
   | Some p \<Rightarrow> merged_walk p (copy_missing (scratchPad (st w tmpState)) merged) w)"

definition getMergedScratchPad :: "OverlayStateDB \<Rightarrow> world \<Rightarrow> (bytes, bytes) gomap option" where
  "getMergedScratchPad db w = merged_walk (state db) [] w"

definition no_override :: OverrideAccount where
  "no_override = \<lparr>ov_Nonce = None, ov_Code = None, ov_Balance = None, ov_StateDiff = None\<rparr>"

definition diff_entry ::
  "env \<Rightarrow> OverlayStateDB \<Rightarrow> bytes \<Rightarrow> StateOverride \<Rightarrow> world \<Rightarrow> (StateOverride \<times> world) option" where
  "diff_entry E clonedState k accounts w = do {
     kb \<leftarrow> go_slice k 0 32;
     ab \<leftarrow> go_slice k 32 52;
     let key = BytesToHash kb;
     let account = BytesToAddress ab;
     let override = (case map_of accounts account of Some ov \<Rightarrow> ov | None \<Rightarrow> no_override);
     (ov, w1) \<leftarrow>
       (if key = BALANCE_KEY E then do {
          (balance, w1) \<leftarrow> GetBalance E clonedState account w;
          Some (override\<lparr>ov_Balance := Some balance\<rparr>, w1)
        } else if key = NONCE_KEY E then do {
          (nonce, w1) \<leftarrow> GetNonce E clonedState account w;
          Some (override\<lparr>ov_Nonce := Some nonce\<rparr>, w1)
        } else if key = CODE_KEY E then do {
          (code, w1) \<leftarrow> GetCode E clonedState account w;
          Some (override\<lparr>ov_Code := Some code\<rparr>, w1)
        } else if key = STATE_KEY E then do {
          sb \<leftarrow> go_slice k 52 84;
          let stateKey = BytesToHash sb;
          (stateValue, w1) \<leftarrow> GetState E clonedState account stateKey w;
          let diff = (case ov_StateDiff override of Some d \<Rightarrow> d | None \<Rightarrow> []);
          Some (override\<lparr>ov_StateDiff := Some (AList.update stateKey stateValue diff)\<rparr>, w1)
        } else Some (override, w));
     Some (AList.update account ov accounts, w1)
   }"

fun diff_loop ::
  "env \<Rightarrow> OverlayStateDB \<Rightarrow> bytes list \<Rightarrow> StateOverride \<Rightarrow> world \<Rightarrow> (StateOverride \<times> world) option"
  where
  "diff_loop E clonedState [] accounts w = Some (accounts, w)"
| "diff_loop E clonedState (k # ks) accounts w = do {
     (accounts1, w1) \<leftarrow> diff_entry E clonedState k accounts w;
     diff_loop E clonedState ks accounts1 w1
   }"

definition GetStateDiff ::
  "env \<Rightarrow> OverlayStateDB \<Rightarrow> world \<Rightarrow> (StateOverride \<times> world) option" where
  "GetStateDiff E db w = do {
     merged \<leftarrow> getMergedScratchPad db w;
     (clonedState, w1) \<leftarrow> CloneFromRoot E db w;
     let w2 = upd_st (state clonedState) (\<lambda>x. x\<lparr>scratchPad := merged\<rparr>) w1;
     diff_loop E clonedState (map fst merged) [] w2
   }"

section \<open>Reading and writing one kind of value\<close>

text \<open>
  The database is usable: the upstream node keeps its contract, the world is well formed, and
  the current layer is not the root (the constructor, \<^verbatim>\<open>InitState\<close> and the clones all put a
  derived layer on top).
\<close>

definition db_ok :: "env \<Rightarrow> OverlayStateDB \<Rightarrow> world \<Rightarrow> bool" where
  "db_ok E db w \<longleftrightarrow> upstream_ok E \<and> wf_world E w \<and> state db < length (heap w) \<and>
     parent (heap w ! state db) \<noteq> None"

lemma db_ok_parts:
  assumes "db_ok E db w"
  shows "upstream_ok E" "keys_distinct E" "wf_world E w" "wf_heap (heap w)"
    "state db < length (heap w)" "parent (heap w ! state db) \<noteq> None"
  using assms by (auto simp: db_ok_def upstream_ok_def wf_world_def)

lemma db_ok_cache_ext:
  "db_ok E db w \<Longrightarrow> cache_ext w w' \<Longrightarrow> wf_world E w' \<Longrightarrow> db_ok E db w'"
  by (auto simp: db_ok_def cache_ext_globals cache_ext_parent)

lemma db_ok_put_pad [simp]: "db_ok E db w \<Longrightarrow> pad_key E k \<Longrightarrow> db_ok E db (put_pad (state db) k v w)"
  by (auto simp: db_ok_def wf_world_put_pad heap_put_pad)

lemma db_get:
  assumes "db_ok E db w"
  shows "\<exists>w'. get E (state db) a action k w = Some (view E w (state db) action a k, w') \<and>
    cache_ext w w' \<and> db_ok E db w'"
  using get_ok [OF db_ok_parts(1,3,5) [OF assms]] db_ok_cache_ext [OF assms] by blast

lemma db_view_cache_ext:
  assumes "db_ok E db w" "cache_ext w w'"
  shows "view E w' (state db) = view E w (state db)"
  using cache_ext_view [OF assms(2) db_ok_parts(4,5) [OF assms(1)]] by (intro ext)

lemma db_view_put_pad:
  assumes "db_ok E db w"
  shows "view E (put_pad (state db) (scratchpadKey E action a k) v w) (state db) action' a' k' =
    (if action' = action \<and> a' = a \<and> (action = GET_STATE \<longrightarrow> k' = k) then v
     else view E w (state db) action' a' k')"
  by (rule view_put_pad) (use db_ok_parts [OF assms] in auto)

text \<open>
  The contract every getter and setter pair of the database keeps: \<open>shown\<close> is the value a
  database shows at a key, \<open>norm\<close> what a written value is turned into by its encoding.
\<close>

locale cell =
  fixes ok :: "'d \<Rightarrow> 'w \<Rightarrow> bool"
    and shown :: "'w \<Rightarrow> 'd \<Rightarrow> 'k \<Rightarrow> 'v"
    and fetch :: "'d \<Rightarrow> 'k \<Rightarrow> 'w \<Rightarrow> ('v \<times> 'w) option"
    and put :: "'d \<Rightarrow> 'k \<Rightarrow> 'v \<Rightarrow> 'w \<Rightarrow> 'w"
    and norm :: "'v \<Rightarrow> 'v"
  assumes read_shown: "ok db w \<Longrightarrow> \<exists>w'. fetch db k w = Some (shown w db k, w') \<and> ok db w' \<and>
      shown w' db = shown w db"
    and ok_write: "ok db w \<Longrightarrow> ok db (put db k v w)"
    and write_shown: "ok db w \<Longrightarrow> shown (put db k v w) db = (shown w db)(k := norm v)"
begin

lemma read_after_write:
  "ok db w \<Longrightarrow> \<exists>w'. fetch db k' (put db k v w) = Some (if k' = k then norm v else shown w db k', w')"
  using read_shown [OF ok_write, of db w k' k v] write_shown [of db w k v] by (auto simp: fun_upd_def)

lemma last_write_wins:
  "ok db w \<Longrightarrow> shown (put db k v2 (put db k v1 w)) db = shown (put db k v2 w) db"
  by (simp add: write_shown ok_write)

lemma read_twice:
  assumes "ok db w"
  shows "\<exists>v w' w''. fetch db k w = Some (v, w') \<and> fetch db k w' = Some (v, w'')"
proof -
  obtain w' where w': "fetch db k w = Some (shown w db k, w')" "ok db w'" "shown w' db = shown w db"
    using read_shown [OF assms] by blast
  moreover obtain w'' where "fetch db k w' = Some (shown w' db k, w'')"
    using read_shown [OF w'(2)] by blast
  ultimately show ?thesis by auto
qed

end

definition balance_of :: "env \<Rightarrow> world \<Rightarrow> OverlayStateDB \<Rightarrow> address \<Rightarrow> int" where
  "balance_of E w db a = big_SetBytes (view E w (state db) GET_BALANCE a 0)"

definition nonce_of :: "env \<Rightarrow> world \<Rightarrow> OverlayStateDB \<Rightarrow> address \<Rightarrow> u64" where
  "nonce_of E w db a = big_Uint64 (big_SetBytes (view E w (state db) GET_NONCE a 0))"

definition codehash_of :: "env \<Rightarrow> world \<Rightarrow> OverlayStateDB \<Rightarrow> address \<Rightarrow> hash" where
  "codehash_of E w db a = BytesToHash (view E w (state db) GET_CODEHASH a 0)"

definition code_of :: "env \<Rightarrow> world \<Rightarrow> OverlayStateDB \<Rightarrow> address \<Rightarrow> bytes" where
  "code_of E w db a = view E w (state db) GET_CODE a 0"

definition slot_of :: "env \<Rightarrow> world \<Rightarrow> OverlayStateDB \<Rightarrow> address \<times> hash \<Rightarrow> hash" where
  "slot_of E w db = (\<lambda>(a, k). BytesToHash (view E w (state db) GET_STATE a k))"

lemmas shown_defs = balance_of_def nonce_of_def codehash_of_def code_of_def slot_of_def

text \<open>A 64-bit nonce is stored through \<^verbatim>\<open>int64\<close> and comes back as the absolute value.\<close>

definition norm_nonce :: "u64 \<Rightarrow> u64" where
  "norm_nonce n = (if uint n < 2 ^ 63 then n else - n)"

lemma uint_u64_bound: "uint (n :: u64) < 2 ^ 64"
  using unsigned_less [where w = n and ?'a = int] by simp

lemma odd_div_iff: "0 \<le> x \<Longrightarrow> x < 2 * m \<Longrightarrow> odd (x div m) \<longleftrightarrow> m \<le> x" for x m :: int
proof (cases "m \<le> x")
  case True
  assume "0 \<le> x" "x < 2 * m"
  with True have "x div m = 1" by (intro int_div_pos_eq [of x m 1 "x - m"]) auto
  with True show ?thesis by simp
qed simp

lemma sint_u64: "sint (n :: u64) = uint n - (if uint n < 2 ^ 63 then 0 else 2 ^ 64)"
proof -
  have "bit (uint n) 63 \<longleftrightarrow> \<not> uint n < 2 ^ 63"
    unfolding bit_iff_odd using odd_div_iff [of "uint n" "2 ^ 63"] uint_u64_bound [of n]
    by (simp add: not_less)
  with uint_u64_bound [of n] show ?thesis
    by (simp add: sint_uint signed_take_bit_eq_take_bit_minus take_bit_int_eq_self)
qed

lemma norm_nonce_eq: "big_Uint64 (big_SetBytes (nonce_Bytes n)) = norm_nonce n"
proof (cases "uint n < 2 ^ 63")
  case True
  then show ?thesis by (simp add: nonce_Bytes_def big_Uint64_def norm_nonce_def sint_u64)
next
  case False
  have *: "big_Uint64 (big_SetBytes (nonce_Bytes n)) = word_of_int \<bar>sint n\<bar>"
    by (simp add: nonce_Bytes_def big_Uint64_def)
  from False uint_u64_bound [of n] have "\<bar>sint n\<bar> = 2 ^ 64 - uint n" by (simp add: sint_u64)
  then have "big_Uint64 (big_SetBytes (nonce_Bytes n)) = word_of_int (2 ^ 64) - word_of_int (uint n)"
    unfolding * by (metis of_int_diff)
  also have "\<dots> = - n" by simp
  finally show ?thesis using False by (simp add: norm_nonce_def)
qed


text \<open>Each setter writes the key its getter reads.\<close>

lemma setter_keys:
  "SetBalance E db a v w = put_pad (state db) (scratchpadKey E GET_BALANCE a 0) (big_Bytes v) w"
  "SetNonce E db a n w = put_pad (state db) (scratchpadKey E GET_NONCE a 0) (nonce_Bytes n) w"
  "SetCodeHash E db a h w = put_pad (state db) (scratchpadKey E GET_CODEHASH a 0) (Hash_Bytes h) w"
  "SetCode E db a c w = put_pad (state db) (scratchpadKey E GET_CODE a 0) c w"
  "SetState E db a k x w = put_pad (state db) (scratchpadKey E GET_STATE a k) (Hash_Bytes x) w"
  by (simp_all add: SetBalance_def SetNonce_def SetCodeHash_def SetCode_def SetState_def scratchpadKey_def)

lemma getters_ok:
  assumes "db_ok E db w"
  shows "\<exists>w'. GetBalance E db a w = Some (balance_of E w db a, w') \<and> cache_ext w w' \<and> db_ok E db w'"
    and "\<exists>w'. GetNonce E db a w = Some (nonce_of E w db a, w') \<and> cache_ext w w' \<and> db_ok E db w'"
    and "\<exists>w'. GetCodeHash E db a w = Some (codehash_of E w db a, w') \<and> cache_ext w w' \<and> db_ok E db w'"
    and "\<exists>w'. GetCode E db a w = Some (code_of E w db a, w') \<and> cache_ext w w' \<and> db_ok E db w'"
    and "\<exists>w'. GetCodeSize E db a w = Some (length (code_of E w db a), w') \<and> cache_ext w w' \<and> db_ok E db w'"
    and "\<exists>w'. GetState E db a k w = Some (slot_of E w db (a, k), w') \<and> cache_ext w w' \<and> db_ok E db w'"
  using db_get [OF assms, of a GET_BALANCE 0] db_get [OF assms, of a GET_NONCE 0]
    db_get [OF assms, of a GET_CODEHASH 0] db_get [OF assms, of a GET_CODE 0]
    db_get [OF assms, of a GET_STATE k]
  by (auto simp: GetBalance_def GetNonce_def GetCodeHash_def GetCode_def GetCodeSize_def GetState_def
        GetCommittedState_def shown_defs)

lemma shown_cache_ext:
  assumes "db_ok E db w" "cache_ext w w'"
  shows "balance_of E w' db = balance_of E w db" "nonce_of E w' db = nonce_of E w db"
    "codehash_of E w' db = codehash_of E w db" "code_of E w' db = code_of E w db"
    "slot_of E w' db = slot_of E w db"
  using db_view_cache_ext [OF assms] by (simp_all add: shown_defs fun_eq_iff)

interpretation balance_cell: cell "db_ok E" "balance_of E" "GetBalance E" "SetBalance E" abs for E
proof (unfold_locales, goal_cases)
  case (1 db w k)
  with getters_ok(1) [OF 1] shown_cache_ext(1) [OF 1] show ?case by blast
qed (auto simp: setter_keys db_view_put_pad shown_defs fun_eq_iff)

interpretation nonce_cell: cell "db_ok E" "nonce_of E" "GetNonce E" "SetNonce E" norm_nonce for E
proof (unfold_locales, goal_cases)
  case (1 db w k)
  with getters_ok(2) [OF 1] shown_cache_ext(2) [OF 1] show ?case by blast
qed (auto simp: setter_keys db_view_put_pad shown_defs fun_eq_iff norm_nonce_eq)

interpretation codehash_cell: cell "db_ok E" "codehash_of E" "GetCodeHash E" "SetCodeHash E" id for E
proof (unfold_locales, goal_cases)
  case (1 db w k)
  with getters_ok(3) [OF 1] shown_cache_ext(3) [OF 1] show ?case by blast
qed (auto simp: setter_keys db_view_put_pad shown_defs fun_eq_iff)

interpretation code_cell: cell "db_ok E" "code_of E" "GetCode E" "SetCode E" id for E
proof (unfold_locales, goal_cases)
  case (1 db w k)
  with getters_ok(4) [OF 1] shown_cache_ext(4) [OF 1] show ?case by blast
qed (auto simp: setter_keys db_view_put_pad shown_defs fun_eq_iff)

interpretation slot_cell: cell "db_ok E" "slot_of E" "\<lambda>db (a, k). GetState E db a k"
  "\<lambda>db (a, k). SetState E db a k" id for E
proof (unfold_locales, goal_cases)
  case (1 db w k)
  obtain a s where k: "k = (a, s)" by fastforce
  from getters_ok(6) [OF 1, of a s] shown_cache_ext(5) [OF 1] show ?case
    unfolding k prod.case by blast
next
  case (2 db w k v)
  then show ?case by (simp add: setter_keys case_prod_beta)
next
  case (3 db w k v)
  obtain a s where k: "k = (a, s)" by fastforce
  from 3 show ?case
    by (simp add: k setter_keys db_view_put_pad slot_of_def fun_eq_iff)
qed

lemma AddBalance_ok:
  assumes "db_ok E db w"
  shows "\<exists>w'. AddBalance E db a d w = Some w' \<and> db_ok E db w' \<and>
    view E w' (state db) = (\<lambda>action b k. if action = GET_BALANCE \<and> b = a
       then big_Bytes (balance_of E w db a + d) else view E w (state db) action b k)"
proof -
  obtain w1 where w1: "get E (state db) a GET_BALANCE 0 w =
      Some (view E w (state db) GET_BALANCE a 0, w1)" "cache_ext w w1" "db_ok E db w1"
    using db_get [OF assms] by blast
  define v where "v = big_Bytes (balance_of E w db a + d)"
  define w2 where "w2 = put_pad (state db) (scratchpadKey E GET_BALANCE a 0) v w1"
  have "AddBalance E db a d w = Some w2"
    using w1(1) by (simp add: AddBalance_def balance_of_def v_def w2_def scratchpadKey_def)
  moreover have "db_ok E db w2" unfolding w2_def by (rule db_ok_put_pad [OF w1(3)]) simp
  moreover have "view E w2 (state db) = (\<lambda>action b k. if action = GET_BALANCE \<and> b = a then v
       else view E w (state db) action b k)"
    unfolding w2_def by (simp add: fun_eq_iff db_view_put_pad [OF w1(3)] db_view_cache_ext [OF assms w1(2)])
  ultimately show ?thesis unfolding v_def by blast
qed

lemma SubBalance_eq: "SubBalance E db a d w = AddBalance E db a (- d) w"
  by (simp add: SubBalance_def AddBalance_def)

section \<open>Properties\<close>

definition demo_db :: OverlayStateDB where
  "demo_db = \<lparr>cacheFilePath = [], maxKeyCache = 100, refundGas = 0, state = 1, stateBN = True\<rparr>"

lemma demo_db_ok: "db_ok demo_env demo_db demo_world"
  by (simp add: db_ok_def upstream_ok_demo wf_demo demo_heap(1) demo_heap(3) [simplified] demo_db_def)



text \<open>
  Balances move by the amount: \<^verbatim>\<open>AddBalance\<close> and \<^verbatim>\<open>SubBalance\<close> return, the account's balance is then
  the old one plus or minus the amount, in absolute value (an overdraft comes back positive), and
  everything else the database shows is what it was.
\<close>

theorem balance_arithmetic:
  assumes "db_ok E db w"
  shows "(\<exists>w'. AddBalance E db a d w = Some w' \<and>
        balance_of E w' db a = \<bar>balance_of E w db a + d\<bar> \<and>
        (\<forall>action b k. action \<noteq> GET_BALANCE \<or> b \<noteq> a \<longrightarrow>
           view E w' (state db) action b k = view E w (state db) action b k)) \<and>
     (\<exists>w'. SubBalance E db a d w = Some w' \<and>
        balance_of E w' db a = \<bar>balance_of E w db a - d\<bar> \<and>
        (\<forall>action b k. action \<noteq> GET_BALANCE \<or> b \<noteq> a \<longrightarrow>
           view E w' (state db) action b k = view E w (state db) action b k))"
proof -
  have "\<exists>w'. AddBalance E db a x w = Some w' \<and> balance_of E w' db a = \<bar>balance_of E w db a + x\<bar> \<and>
      (\<forall>action b k. action \<noteq> GET_BALANCE \<or> b \<noteq> a \<longrightarrow>
         view E w' (state db) action b k = view E w (state db) action b k)" for x
    using AddBalance_ok [OF assms, of a x] by (auto simp: balance_of_def)
  from this [of d] this [of "- d"] show ?thesis by (simp add: SubBalance_eq)
qed

theorem balance_arithmetic_witness:
  "db_ok demo_env demo_db demo_world \<and>
   (\<exists>w'. SubBalance demo_env demo_db 3 8 demo_world = Some w' \<and> balance_of demo_env w' demo_db 3 = 3)"
proof -
  have "balance_of demo_env demo_world demo_db 3 = 5"
    by (simp add: balance_of_def demo_db_def view_demo uval_def answer_demo demo_answer_def as_big_def)
  with balance_arithmetic [OF demo_db_ok, of 3 8] demo_db_ok show ?thesis by auto
qed



end
