(* ===== verification/VM.thy ===== *)
theory VM
  imports OverlayStateDB
begin

text \<open>
  The interface between the program and go-ethereum's virtual machine. The machine
  (\<^verbatim>\<open>core.ApplyMessage\<close>) is not part of the source: it is a parameter that, for a message, gives an
  interaction tree: which method of \<^verbatim>\<open>vm.StateDB\<close> it calls next, as a function of the answers so
  far, where it hands an event to the tracer, and what it returns. A tree is well founded, which
  is the machine's termination by gas. Running a tree is generic in the state it runs on, so the
  same tree runs on the database of the source and on an abstract journal.
\<close>

section \<open>Calls, answers and events\<close>

text \<open>The methods of \<^verbatim>\<open>vm.StateDB\<close> that \<^verbatim>\<open>OverlayStateDB\<close> implements.\<close>

datatype db_call =
    CCreateAccount address
  | CSubBalance address int
  | CAddBalance address int
  | CGetBalance address
  | CGetNonce address
  | CSetNonce address u64
  | CGetCodeHash address
  | CGetCode address
  | CSetCode address bytes
  | CGetCodeSize address
  | CAddRefund u64
  | CSubRefund u64
  | CGetRefund
  | CGetCommittedState address hash
  | CGetState address hash
  | CSetState address hash hash
  | CSuicide address
  | CHasSuicided address
  | CExist address
  | CEmpty address
  | CPrepareAccessList address "address option" "address list" access_list
  | CAddressInAccessList address
  | CSlotInAccessList address hash
  | CAddAddressToAccessList address
  | CAddSlotToAccessList address hash
  | CRevertToSnapshot int
  | CSnapshot
  | CAddLog Log
  | CAddPreimage hash bytes

datatype db_ret =
    RUnit
  | RInt int
  | RU64 u64
  | RHash hash
  | RBytes bytes
  | RNat nat
  | RBool bool
  | RBools bool bool

text \<open>
  The events of \<^verbatim>\<open>vm.EVMLogger\<close>; of the scope of an opcode, the parts that the source's tracers
  look at.
\<close>

record Scope =
  sc_Contract :: address
  sc_Gas :: u64
  sc_Stack :: "hash list"
  sc_Memory :: bytes

datatype evm_event =
    CaptureTxStart u64
  | CaptureTxEnd u64
  | CaptureStart address address bool bytes u64 int
  | CaptureEnd bytes u64 "string option"
  | CaptureEnter nat address address bytes u64 int
  | CaptureExit bytes u64 "string option"
  | CaptureState u64 nat u64 u64 Scope bytes int "string option"
  | CaptureFault u64 nat u64 u64 Scope int "string option"

section \<open>Interaction trees\<close>

datatype 'r evm_prog =
    Done 'r
  | Panic
  | Call db_call "db_ret \<Rightarrow> 'r evm_prog"
  | Emit evm_event "'r evm_prog"

text \<open>With \<^verbatim>\<open>vm.Config.Debug\<close> off, events go nowhere.\<close>

primrec run_quiet ::
  "(db_call \<Rightarrow> 's \<Rightarrow> (db_ret \<times> 's) option) \<Rightarrow> 'r evm_prog \<Rightarrow> 's \<Rightarrow> ('r \<times> 's) option" where
  "run_quiet step (Done r) = (\<lambda>s. Some (r, s))"
| "run_quiet step Panic = (\<lambda>s. None)"
| "run_quiet step (Call c f) = (\<lambda>s. do { (x, s1) \<leftarrow> step c s; run_quiet step (f x) s1 })"
| "run_quiet step (Emit e p) = (\<lambda>s. run_quiet step p s)"

text \<open>
  With it on, each event is handed to the tracer, whose reaction is itself a tree of calls on the
  same database.
\<close>

primrec run_traced ::
  "(db_call \<Rightarrow> 's \<Rightarrow> (db_ret \<times> 's) option) \<Rightarrow> (evm_event \<Rightarrow> 't \<Rightarrow> 't evm_prog) \<Rightarrow>
   'r evm_prog \<Rightarrow> 't \<Rightarrow> 's \<Rightarrow> ('r \<times> 't \<times> 's) option" where
  "run_traced step cap (Done r) = (\<lambda>t s. Some (r, t, s))"
| "run_traced step cap Panic = (\<lambda>t s. None)"
| "run_traced step cap (Call c f) =
     (\<lambda>t s. do { (x, s1) \<leftarrow> step c s; run_traced step cap (f x) t s1 })"
| "run_traced step cap (Emit e p) =
     (\<lambda>t s. do { (t1, s1) \<leftarrow> run_quiet step (cap e t) s; run_traced step cap p t1 s1 })"

section \<open>Simulation\<close>

text \<open>
  A state machine that answers every call the way another one does, whenever that one answers,
  runs every tree the same way.
\<close>

locale answers_like =
  fixes cstep :: "db_call \<Rightarrow> 's \<Rightarrow> (db_ret \<times> 's) option"
    and astep :: "db_call \<Rightarrow> 'a \<Rightarrow> (db_ret \<times> 'a) option"
    and related :: "'s \<Rightarrow> 'a \<Rightarrow> bool"
  assumes step_like: "related s a \<Longrightarrow> astep c a = Some (x, a') \<Longrightarrow>
      \<exists>s'. cstep c s = Some (x, s') \<and> related s' a'"
begin

lemma quiet_like:
  "related s a \<Longrightarrow> run_quiet astep p a = Some (r, a') \<Longrightarrow>
   \<exists>s'. run_quiet cstep p s = Some (r, s') \<and> related s' a'"
proof (induction p arbitrary: s a)
  case (Call c f)
  from Call.prems(2) obtain x a1 where a1: "astep c a = Some (x, a1)"
    and rest: "run_quiet astep (f x) a1 = Some (r, a')"
    by (auto simp: bind_eq_Some_conv)
  from step_like [OF Call.prems(1) a1] obtain s1 where s1: "cstep c s = Some (x, s1)" "related s1 a1"
    by blast
  from Call.IH [OF rangeI s1(2) rest] s1(1) show ?case by auto
qed auto

lemma traced_like:
  "related s a \<Longrightarrow> run_traced astep cap p t a = Some (r, t', a') \<Longrightarrow>
   \<exists>s'. run_traced cstep cap p t s = Some (r, t', s') \<and> related s' a'"
proof (induction p arbitrary: s a t)
  case (Call c f)
  from Call.prems(2) obtain x a1 where a1: "astep c a = Some (x, a1)"
    and rest: "run_traced astep cap (f x) t a1 = Some (r, t', a')"
    by (auto simp: bind_eq_Some_conv)
  from step_like [OF Call.prems(1) a1] obtain s1 where s1: "cstep c s = Some (x, s1)" "related s1 a1"
    by blast
  from Call.IH [OF rangeI s1(2) rest] s1(1) show ?case by auto
next
  case (Emit e p)
  from Emit.prems(2) obtain t1 a1 where a1: "run_quiet astep (cap e t) a = Some (t1, a1)"
    and rest: "run_traced astep cap p t1 a1 = Some (r, t', a')"
    by (auto simp: bind_eq_Some_conv)
  from quiet_like [OF Emit.prems(1) a1] obtain s1
    where s1: "run_quiet cstep (cap e t) s = Some (t1, s1)" "related s1 a1" by blast
  from Emit.IH [OF s1(2) rest] s1(1) show ?case by auto
qed auto

end

section \<open>The database as the machine's state\<close>

definition unit_ret :: "OverlayStateDB \<Rightarrow> world \<Rightarrow> (db_ret \<times> OverlayStateDB \<times> world) option" where
  "unit_ret db w = Some (RUnit, db, w)"

definition read_ret ::
  "('a \<Rightarrow> db_ret) \<Rightarrow> OverlayStateDB \<Rightarrow> ('a \<times> world) option \<Rightarrow>
   (db_ret \<times> OverlayStateDB \<times> world) option" where
  "read_ret f db r = do { (v, w1) \<leftarrow> r; Some (f v, db, w1) }"

fun db_step ::
  "env \<Rightarrow> db_call \<Rightarrow> OverlayStateDB \<times> world \<Rightarrow> (db_ret \<times> OverlayStateDB \<times> world) option" where
  "db_step E (CCreateAccount a) (db, w) = unit_ret db (CreateAccount db a w)"
| "db_step E (CSubBalance a d) (db, w) = do { w1 \<leftarrow> SubBalance E db a d w; unit_ret db w1 }"
| "db_step E (CAddBalance a d) (db, w) = do { w1 \<leftarrow> AddBalance E db a d w; unit_ret db w1 }"
| "db_step E (CGetBalance a) (db, w) = read_ret RInt db (GetBalance E db a w)"
| "db_step E (CGetNonce a) (db, w) = read_ret RU64 db (GetNonce E db a w)"
| "db_step E (CSetNonce a n) (db, w) = unit_ret db (SetNonce E db a n w)"
| "db_step E (CGetCodeHash a) (db, w) = read_ret RHash db (GetCodeHash E db a w)"
| "db_step E (CGetCode a) (db, w) = read_ret RBytes db (GetCode E db a w)"
| "db_step E (CSetCode a c) (db, w) = unit_ret db (SetCode E db a c w)"
| "db_step E (CGetCodeSize a) (db, w) = read_ret RNat db (GetCodeSize E db a w)"
| "db_step E (CAddRefund g) (db, w) = unit_ret (AddRefund db g) w"
| "db_step E (CSubRefund g) (db, w) = unit_ret (SubRefund db g) w"
| "db_step E CGetRefund (db, w) = Some (RU64 (GetRefund db), db, w)"
| "db_step E (CGetCommittedState a k) (db, w) = read_ret RHash db (GetCommittedState E db a k w)"
| "db_step E (CGetState a k) (db, w) = read_ret RHash db (GetState E db a k w)"
| "db_step E (CSetState a k v) (db, w) = unit_ret db (SetState E db a k v w)"
| "db_step E (CSuicide a) (db, w) = (let (b, w1) = Suicide E db a w in Some (RBool b, db, w1))"
| "db_step E (CHasSuicided a) (db, w) = Some (RBool (HasSuicided E db a w), db, w)"
| "db_step E (CExist a) (db, w) = read_ret RBool db (Exist E db a w)"
| "db_step E (CEmpty a) (db, w) = read_ret RBool db (Empty E db a w)"
| "db_step E (CPrepareAccessList s d ps l) (db, w) = unit_ret db (PrepareAccessList s d ps l w)"
| "db_step E (CAddressInAccessList a) (db, w) = Some (RBool (AddressInAccessList a), db, w)"
| "db_step E (CSlotInAccessList a k) (db, w) =
     (let (b, c) = SlotInAccessList a k in Some (RBools b c, db, w))"
| "db_step E (CAddAddressToAccessList a) (db, w) = unit_ret db (AddAddressToAccessList a w)"
| "db_step E (CAddSlotToAccessList a k) (db, w) = unit_ret db (AddSlotToAccessList a k w)"
| "db_step E (CRevertToSnapshot n) (db, w) = do { db1 \<leftarrow> RevertToSnapshot db n w; unit_ret db1 w }"
| "db_step E CSnapshot (db, w) = (let (n, db1, w1) = Snapshot E db w in Some (RInt n, db1, w1))"
| "db_step E (CAddLog l) (db, w) = unit_ret db (AddLog db l w)"
| "db_step E (CAddPreimage h p) (db, w) = unit_ret db (AddPreimage h p w)"

text \<open>The calls that only read.\<close>

fun reads :: "db_call \<Rightarrow> bool" where
  "reads (CGetBalance a) = True"
| "reads (CGetNonce a) = True"
| "reads (CGetCodeHash a) = True"
| "reads (CGetCode a) = True"
| "reads (CGetCodeSize a) = True"
| "reads CGetRefund = True"
| "reads (CGetCommittedState a k) = True"
| "reads (CGetState a k) = True"
| "reads (CHasSuicided a) = True"
| "reads (CExist a) = True"
| "reads (CEmpty a) = True"
| "reads (CAddressInAccessList a) = True"
| "reads (CSlotInAccessList a k) = True"
| "reads _ = False"

primrec reads_only :: "'r evm_prog \<Rightarrow> bool" where
  "reads_only (Done r) = True"
| "reads_only Panic = True"
| "reads_only (Call c f) = (reads c \<and> (\<forall>x. reads_only (f x)))"
| "reads_only (Emit e p) = reads_only p"

end
