(* ===== verification/Journal.thy ===== *)
theory Journal
  imports VM
begin

text \<open>
  What the state database promises the virtual machine, stated without layers: an abstract journal
  keeps the current contents, a stack of saved copies with their snapshot numbers, and the refund
  counter. The theory shows that \<^verbatim>\<open>OverlayStateDB\<close> answers every call of \<^verbatim>\<open>vm.StateDB\<close> the way the
  journal does, and that running on it leaves all layers below the starting layer alone but for
  the caches of the roots.
\<close>

section \<open>What a layer shows\<close>

record shown =
  sh_view :: "RequestType \<Rightarrow> address \<Rightarrow> hash \<Rightarrow> bytes"
  sh_logs :: "hash \<Rightarrow> Log list"
  sh_dead :: "address \<Rightarrow> bool"
  sh_tx :: hash

function logs_at :: "OverlayState list \<Rightarrow> ref \<Rightarrow> hash \<Rightarrow> Log list" where
  "logs_at h r txHash = (case parent (h ! r) of
     None \<Rightarrow> []
   | Some p \<Rightarrow> if p < r then logs_at h p txHash else []) @ logs_of (txLogs (h ! r)) txHash"
  by pat_completeness auto
termination
  by (relation "measure (\<lambda>(h, r, t). r)") auto

declare logs_at.simps [simp del]

definition dead_at :: "env \<Rightarrow> OverlayState list \<Rightarrow> ref \<Rightarrow> address \<Rightarrow> bool" where
  "dead_at E h r a \<longleftrightarrow> parent (h ! r) \<noteq> None \<and>
     map_of (scratchPad (h ! r)) (calcKey (SUICIDE_KEY E) a) = Some [1]"

definition shown_at :: "env \<Rightarrow> world \<Rightarrow> ref \<Rightarrow> shown" where
  "shown_at E w r = \<lparr>sh_view = view E w r, sh_logs = logs_at (heap w) r,
     sh_dead = dead_at E (heap w) r, sh_tx = currentTxHash (heap w ! r)\<rparr>"

text \<open>The layers between a layer and a base below it, as snapshots that can be returned to.\<close>

function saved :: "env \<Rightarrow> world \<Rightarrow> ref \<Rightarrow> ref \<Rightarrow> (int \<times> shown) list" where
  "saved E w base r = (if r = base then [] else
     case parent (heap w ! r) of
       None \<Rightarrow> []
     | Some p \<Rightarrow> (deriveCnt (heap w ! r), shown_at E w p) # (if p < r then saved E w base p else []))"
  by pat_completeness auto
termination
  by (relation "measure (\<lambda>(E, w, base, r). r)") auto

declare saved.simps [simp del]

text \<open>A layer lies on a base layer, and the layers between them are no older than \<open>n\<close>.\<close>

function above :: "OverlayState list \<Rightarrow> nat \<Rightarrow> ref \<Rightarrow> ref \<Rightarrow> bool" where
  "above h n base r \<longleftrightarrow> r = base \<or> n \<le> r \<and>
     (case parent (h ! r) of None \<Rightarrow> False | Some p \<Rightarrow> if p < r then above h n base p else False)"
  by pat_completeness auto
termination
  by (relation "measure (\<lambda>(h, n, base, r). r)") auto

declare above.simps [simp del]

lemma above_le: "above h n base r \<Longrightarrow> base \<le> r"
proof (induction r rule: less_induct)
  case (less r)
  then show ?case by (subst (asm) (2) above.simps) (force split: option.splits if_splits)
qed

section \<open>Worlds that agree below a layer\<close>

text \<open>
  From one world to a later one nothing happened to the layers below \<open>b\<close>, except that the caches
  of roots among them may have grown.
\<close>

definition below :: "nat \<Rightarrow> world \<Rightarrow> world \<Rightarrow> bool" where
  "below b w w' \<longleftrightarrow> b \<le> length (heap w) \<and> length (heap w) \<le> length (heap w') \<and>
     blockNumber w' = blockNumber w \<and> keyCacheFile w' = keyCacheFile w \<and> bigs w' = bigs w \<and>
     clock w \<le> clock w' \<and> (\<forall>r<b. root_ext (heap w ! r) (heap w' ! r))"

text \<open>Of the layers that existed in the first world, only \<open>base\<close> was written to.\<close>

definition only :: "ref \<Rightarrow> world \<Rightarrow> world \<Rightarrow> bool" where
  "only base w w' \<longleftrightarrow> base < length (heap w) \<and> length (heap w) \<le> length (heap w') \<and>
     blockNumber w' = blockNumber w \<and> keyCacheFile w' = keyCacheFile w \<and> bigs w' = bigs w \<and>
     clock w \<le> clock w' \<and>
     (\<forall>r<length (heap w). r \<noteq> base \<longrightarrow> root_ext (heap w ! r) (heap w' ! r))"

lemma only_below: "only base w w' \<Longrightarrow> below base w w'"
  by (auto simp: only_def below_def)

lemma only_refl: "base < length (heap w) \<Longrightarrow> only base w w"
  by (simp add: only_def)

lemma only_cache_ext: "only base w w' \<Longrightarrow> cache_ext w' w'' \<Longrightarrow> only base w w''"
  by (auto simp: only_def cache_ext_def intro: root_ext_trans)

lemma only_upd_st:
  "only base w w' \<Longrightarrow> r = base \<or> length (heap w) \<le> r \<Longrightarrow> only base w (upd_st r f w')"
  by (auto simp: only_def) (simp_all add: upd_st_def nth_list_update)

lemma only_append: "only base w w' \<Longrightarrow> only base w (w'\<lparr>heap := heap w' @ hs\<rparr>)"
  by (auto simp: only_def nth_append)

lemma below_refl: "b \<le> length (heap w) \<Longrightarrow> below b w w"
  by (simp add: below_def)

lemma below_trans: "below b w w' \<Longrightarrow> below b w' w'' \<Longrightarrow> below b w w''"
  by (auto simp: below_def intro: root_ext_trans)

lemma below_mono: "below b w w' \<Longrightarrow> c \<le> b \<Longrightarrow> below c w w'"
  by (auto simp: below_def)

lemma cache_ext_below: "cache_ext w w' \<Longrightarrow> b \<le> length (heap w) \<Longrightarrow> below b w w'"
  by (auto simp: below_def cache_ext_def)

lemma upd_st_below: "b \<le> r \<Longrightarrow> b \<le> length (heap w) \<Longrightarrow> below b w (upd_st r f w)"
  by (auto simp: below_def) (simp add: upd_st_def)

lemma append_below: "b \<le> length (heap w) \<Longrightarrow> below b w (w\<lparr>heap := heap w @ hs\<rparr>)"
  by (auto simp: below_def nth_append)

lemma below_parent: "below b w w' \<Longrightarrow> r < b \<Longrightarrow> parent (heap w' ! r) = parent (heap w ! r)"
  by (auto simp: below_def root_ext_parent)

lemma below_layer:
  "below b w w' \<Longrightarrow> r < b \<Longrightarrow> parent (heap w ! r) \<noteq> None \<Longrightarrow> heap w' ! r = heap w ! r"
  by (auto simp: below_def root_ext_def)

lemma below_fields:
  assumes "below b w w'" "r < b"
  shows "txLogs (heap w' ! r) = txLogs (heap w ! r)"
    and "receipts (heap w' ! r) = receipts (heap w ! r)"
    and "currentTxHash (heap w' ! r) = currentTxHash (heap w ! r)"
    and "deriveCnt (heap w' ! r) = deriveCnt (heap w ! r)"
  using assms by (auto simp: below_def root_ext_def split: if_splits)

lemma below_len: "below b w w' \<Longrightarrow> r < b \<Longrightarrow> r < length (heap w) \<and> r < length (heap w')"
  by (auto simp: below_def)

lemma below_view:
  assumes "below b w w'" "wf_heap (heap w)" "r < b"
  shows "view E w' r = view E w r"
proof -
  have "overlay (heap w') r key = overlay (heap w) r key" for key
    by (rule overlay_cong)
      (use assms below_parent [OF assms(1)] below_layer [OF assms(1)] below_len [OF assms(1,3)] in auto)
  moreover have "blockNumber w' = blockNumber w" using assms(1) by (simp add: below_def)
  ultimately show ?thesis by (auto simp: fun_eq_iff view_def split: option.split)
qed

lemma below_logs:
  assumes "below b w w'" "wf_heap (heap w)" "r < b"
  shows "logs_at (heap w') r = logs_at (heap w) r"
  using assms(3)
proof (induction r rule: less_induct)
  case (less r)
  have "parent (heap w' ! r) = parent (heap w ! r)" "txLogs (heap w' ! r) = txLogs (heap w ! r)"
    using below_parent [OF assms(1) less.prems] below_fields [OF assms(1) less.prems] by auto
  moreover have "logs_at (heap w') p = logs_at (heap w) p" if "p < r" for p
    using less.IH [OF that] that less.prems by simp
  ultimately show ?case
    by (auto simp: fun_eq_iff logs_at.simps [of _ r] split: option.splits)
qed

lemma below_dead: "below b w w' \<Longrightarrow> r < b \<Longrightarrow> dead_at E (heap w') r = dead_at E (heap w) r"
  by (cases "parent (heap w ! r)") (auto simp: fun_eq_iff dead_at_def below_parent below_layer)

lemma below_shown:
  assumes "below b w w'" "wf_heap (heap w)" "r < b"
  shows "shown_at E w' r = shown_at E w r"
  by (simp add: shown_at_def below_view [OF assms] below_logs [OF assms] below_dead [OF assms(1,3)]
      below_fields [OF assms(1,3)])

lemma below_saved:
  assumes "below b w w'" "wf_heap (heap w)" "r < b"
  shows "saved E w' base r = saved E w base r"
  using assms(3)
proof (induction r rule: less_induct)
  case (less r)
  have *: "saved E w' base p = saved E w base p" "shown_at E w' p = shown_at E w p" if "p < r" for p
    using less.IH [OF that] below_shown [OF assms(1,2)] that less.prems by auto
  have "p < r" if "parent (heap w ! r) = Some p" for p
    using wf_heap_parent [OF assms(2) _ that] below_len [OF assms(1) less.prems] by simp
  with * less.prems show ?case
    by (auto simp: saved.simps [of _ _ _ r] below_parent [OF assms(1)] below_fields [OF assms(1)]
        split: option.splits)
qed

lemma below_above:
  assumes "below b w w'" "r < b"
  shows "above (heap w') n base r = above (heap w) n base r"
  using assms(2)
proof (induction r rule: less_induct)
  case (less r)
  have "above (heap w') n base p = above (heap w) n base p" if "p < r" for p
    using less.IH [OF that] that less.prems by simp
  with less.prems show ?case
    by (auto simp: above.simps [of _ _ _ r] below_parent [OF assms(1)] split: option.splits)
qed

section \<open>The abstract journal\<close>

record journal =
  j_now :: shown
  j_saved :: "(int \<times> shown) list"
  j_depth :: int
  j_refund :: u64

definition write_view ::
  "RequestType \<Rightarrow> address \<Rightarrow> hash \<Rightarrow> bytes \<Rightarrow> journal \<Rightarrow> journal" where
  "write_view action a k v j = j\<lparr>j_now := (j_now j)\<lparr>sh_view := (\<lambda>action' a' k'.
     if action' = action \<and> a' = a \<and> (action = GET_STATE \<longrightarrow> k' = k) then v
     else sh_view (j_now j) action' a' k')\<rparr>\<rparr>"

definition read_view :: "journal \<Rightarrow> RequestType \<Rightarrow> address \<Rightarrow> hash \<Rightarrow> bytes" where
  "read_view j action a k = sh_view (j_now j) action a k"

definition j_empty :: "journal \<Rightarrow> address \<Rightarrow> bool" where
  "j_empty j a \<longleftrightarrow> read_view j GET_CODE a 0 = [] \<and>
     big_Uint64 (big_SetBytes (read_view j GET_NONCE a 0)) = 0 \<and>
     big_SetBytes (read_view j GET_BALANCE a 0) = 0"

fun jstep :: "db_call \<Rightarrow> journal \<Rightarrow> (db_ret \<times> journal) option" where
  "jstep (CCreateAccount a) j = Some (RUnit, j)"
| "jstep (CSubBalance a d) j = Some (RUnit,
     write_view GET_BALANCE a 0 (big_Bytes (big_SetBytes (read_view j GET_BALANCE a 0) - d)) j)"
| "jstep (CAddBalance a d) j = Some (RUnit,
     write_view GET_BALANCE a 0 (big_Bytes (big_SetBytes (read_view j GET_BALANCE a 0) + d)) j)"
| "jstep (CGetBalance a) j = Some (RInt (big_SetBytes (read_view j GET_BALANCE a 0)), j)"
| "jstep (CGetNonce a) j = Some (RU64 (big_Uint64 (big_SetBytes (read_view j GET_NONCE a 0))), j)"
| "jstep (CSetNonce a n) j = Some (RUnit, write_view GET_NONCE a 0 (nonce_Bytes n) j)"
| "jstep (CGetCodeHash a) j = Some (RHash (BytesToHash (read_view j GET_CODEHASH a 0)), j)"
| "jstep (CGetCode a) j = Some (RBytes (read_view j GET_CODE a 0), j)"
| "jstep (CSetCode a c) j = Some (RUnit, write_view GET_CODE a 0 c j)"
| "jstep (CGetCodeSize a) j = Some (RNat (length (read_view j GET_CODE a 0)), j)"
| "jstep (CAddRefund g) j = Some (RUnit, j\<lparr>j_refund := j_refund j + g\<rparr>)"
| "jstep (CSubRefund g) j = Some (RUnit, j\<lparr>j_refund := j_refund j - g\<rparr>)"
| "jstep CGetRefund j = Some (RU64 (j_refund j), j)"
| "jstep (CGetCommittedState a k) j = Some (RHash (BytesToHash (read_view j GET_STATE a k)), j)"
| "jstep (CGetState a k) j = Some (RHash (BytesToHash (read_view j GET_STATE a k)), j)"
| "jstep (CSetState a k v) j = Some (RUnit, write_view GET_STATE a k (Hash_Bytes v) j)"
| "jstep (CSuicide a) j = Some (RBool True, j\<lparr>j_now := (j_now j)\<lparr>sh_dead := (sh_dead (j_now j))(a := True)\<rparr>\<rparr>)"
| "jstep (CHasSuicided a) j = Some (RBool (sh_dead (j_now j) a), j)"
| "jstep (CExist a) j = Some (RBool (\<not> j_empty j a), j)"
| "jstep (CEmpty a) j = Some (RBool (j_empty j a), j)"
| "jstep (CPrepareAccessList s d ps l) j = Some (RUnit, j)"
| "jstep (CAddressInAccessList a) j = Some (RBool True, j)"
| "jstep (CSlotInAccessList a k) j = Some (RBools True True, j)"
| "jstep (CAddAddressToAccessList a) j = Some (RUnit, j)"
| "jstep (CAddSlotToAccessList a k) j = Some (RUnit, j)"
| "jstep (CRevertToSnapshot n) j = (case dropWhile (\<lambda>(i, s). i \<noteq> n) (j_saved j) of
     [] \<Rightarrow> None
   | (i, s) # rest \<Rightarrow> Some (RUnit, j\<lparr>j_now := s, j_saved := rest, j_depth := n - 1\<rparr>))"
| "jstep CSnapshot j = Some (RInt (j_depth j + 1),
     j\<lparr>j_now := (j_now j)\<lparr>sh_dead := \<lambda>a. False\<rparr>, j_saved := (j_depth j + 1, j_now j) # j_saved j,
       j_depth := j_depth j + 1\<rparr>)"
| "jstep (CAddLog l) j = Some (RUnit, j\<lparr>j_now := (j_now j)\<lparr>sh_logs :=
     (sh_logs (j_now j))(sh_tx (j_now j) := sh_logs (j_now j) (sh_tx (j_now j)) @ [l])\<rparr>\<rparr>)"
| "jstep (CAddPreimage h p) j = Some (RUnit, j)"

section \<open>The database implements it\<close>

definition abs_journal :: "env \<Rightarrow> ref \<Rightarrow> OverlayStateDB \<Rightarrow> world \<Rightarrow> journal" where
  "abs_journal E base db w = \<lparr>j_now = shown_at E w (state db), j_saved = saved E w base (state db),
     j_depth = deriveCnt (heap w ! state db), j_refund = refundGas db\<rparr>"

text \<open>
  The database runs on layers that lie on \<open>base\<close> and are newer than the world \<open>w0\<close>, and of the older
  layers only \<open>base\<close> has been written to.
\<close>

definition same_config :: "OverlayStateDB \<Rightarrow> OverlayStateDB \<Rightarrow> bool" where
  "same_config db db' \<longleftrightarrow> cacheFilePath db' = cacheFilePath db \<and> maxKeyCache db' = maxKeyCache db \<and>
     stateBN db' = stateBN db"

definition on_base :: "env \<Rightarrow> ref \<Rightarrow> world \<Rightarrow> OverlayStateDB \<Rightarrow> OverlayStateDB \<times> world \<Rightarrow> bool" where
  "on_base E base w0 db0 = (\<lambda>(db, w). db_ok E db w \<and>
     above (heap w) (length (heap w0)) base (state db) \<and> parent (heap w ! base) \<noteq> None \<and> only base w0 w \<and>
     same_config db0 db)"

definition implements :: "env \<Rightarrow> ref \<Rightarrow> world \<Rightarrow> OverlayStateDB \<Rightarrow> OverlayStateDB \<times> world \<Rightarrow> journal \<Rightarrow> bool" where
  "implements E base w0 db0 = (\<lambda>(db, w) j. on_base E base w0 db0 (db, w) \<and> abs_journal E base db w = j)"

lemma on_base_parts:
  assumes "on_base E base w0 db0 (db, w)"
  shows "db_ok E db w" "above (heap w) (length (heap w0)) base (state db)" "parent (heap w ! base) \<noteq> None"
    "below base w0 w" "base \<le> state db" "state db < length (heap w)" "wf_heap (heap w)"
    "parent (heap w ! state db) \<noteq> None" "only base w0 w" "state db = base \<or> length (heap w0) \<le> state db"
proof -
  have "state db = base \<or> length (heap w0) \<le> state db"
    using assms by (subst (asm) on_base_def, subst (asm) above.simps) auto
  then show "state db = base \<or> length (heap w0) \<le> state db" .
qed (use assms above_le db_ok_parts only_below in \<open>auto simp: on_base_def\<close>)

text \<open>Reads.\<close>

lemma on_base_cache_ext:
  assumes "on_base E base w0 db0 (db, w)" "cache_ext w w'" "db_ok E db w'"
  shows "on_base E base w0 db0 (db, w')" "abs_journal E base db w' = abs_journal E base db w"
proof -
  note p = on_base_parts [OF assms(1)]
  have b: "below (length (heap w)) w w'" using assms(2) by (rule cache_ext_below) simp
  have "only base w0 w'" using p(9) assms(2) by (rule only_cache_ext)
  moreover have "parent (heap w' ! base) \<noteq> None"
    using below_parent [OF b, of base] p(3,5,6) by simp
  ultimately show "on_base E base w0 db0 (db, w')"
    using assms(1,3) below_above [OF b p(6)] by (auto simp: on_base_def)
  show "abs_journal E base db w' = abs_journal E base db w"
    using below_shown [OF b p(7,6)] below_saved [OF b p(7,6)] below_fields(4) [OF b p(6)]
    by (simp add: abs_journal_def)
qed

text \<open>Updates of the current layer.\<close>

lemma on_base_upd:
  fixes db w f
  assumes "on_base E base w0 db0 (db, w)" "wf_world E (upd_st (state db) f w)"
    and "parent (f (heap w ! state db)) = parent (heap w ! state db)"
      "deriveCnt (f (heap w ! state db)) = deriveCnt (heap w ! state db)"
  shows "on_base E base w0 db0 (db, upd_st (state db) f w)"
    and "saved E (upd_st (state db) f w) base (state db) = saved E w base (state db)"
    and "\<forall>p. p < state db \<longrightarrow> logs_at (heap (upd_st (state db) f w)) p = logs_at (heap w) p"
proof -
  let ?w = "upd_st (state db) f w"
  note p = on_base_parts [OF assms(1)]
  have b: "below (state db) w ?w" using p(6) by (intro upd_st_below) auto
  have par: "parent (heap ?w ! i) = parent (heap w ! i)" for i
    using p(6) assms(3) by (simp add: heap_upd_st)
  obtain q where q: "parent (heap w ! state db) = Some q" "q < state db"
    using p(8) wf_heap_parent [OF p(7,6)] by blast
  have "db_ok E db ?w" using p(1) assms(2) by (auto simp: db_ok_def par)
  moreover have "above (heap ?w) (length (heap w0)) base (state db)"
    using p(2) q below_above [OF b q(2)] by (simp add: above.simps [of _ _ _ "state db"] par)
  ultimately show "on_base E base w0 db0 (db, ?w)"
    using assms(1) only_upd_st [OF p(9,10)] by (auto simp: on_base_def par)
  show "saved E ?w base (state db) = saved E w base (state db)"
    using q below_saved [OF b p(7) q(2)] below_shown [OF b p(7) q(2)] p(6) assms(3,4)
    by (simp add: saved.simps [of _ _ _ "state db"] heap_upd_st)
  show "\<forall>p. p < state db \<longrightarrow> logs_at (heap ?w) p = logs_at (heap w) p"
    using below_logs [OF b p(7)] by blast
qed

lemma db_view_other_key:
  assumes "db_ok E db w"
  shows "view E (put_pad (state db) (calcKey (SUICIDE_KEY E) a) v w) (state db) = view E w (state db)"
proof -
  note p = db_ok_parts [OF assms]
  have "scratchpadKey E action b k \<noteq> calcKey (SUICIDE_KEY E) a" for action b k
    using p(2) by (auto simp: scratchpadKey_def keys_distinct_def split: RequestType.splits)
  with overlay_put_pad [OF p(4,5,6)] show ?thesis
    by (auto simp: fun_eq_iff view_def split: option.split)
qed

lemma implements_put:
  assumes "on_base E base w0 db0 (db, w)"
  defines "w' \<equiv> \<lambda>key v. put_pad (state db) key v w"
  shows "pad_key E key \<Longrightarrow> on_base E base w0 db0 (db, w' key v)"
    and "abs_journal E base db (w' (scratchpadKey E action a k) v) =
      write_view action a k v (abs_journal E base db w)"
    and "abs_journal E base db (w' (calcKey (SUICIDE_KEY E) a) [1]) =
      (let j = abs_journal E base db w in
       j\<lparr>j_now := (j_now j)\<lparr>sh_dead := (sh_dead (j_now j))(a := True)\<rparr>\<rparr>)"
proof -
  note p = on_base_parts [OF assms(1)]
  have ok: "db_ok E db (put_pad (state db) key v w)" if "pad_key E key" for key v using p(1) that by simp
  note upd = on_base_upd [OF assms(1), of "\<lambda>x. x\<lparr>scratchPad := AList.update key v (scratchPad x)\<rparr>" for key v,
      folded put_pad_def, OF db_ok_parts(3) [OF ok], simplified]
  show "on_base E base w0 db0 (db, w' key v)" if "pad_key E key" unfolding w'_def by (rule upd(1) [OF that])
  have logs: "logs_at (heap (put_pad (state db) key v w)) (state db) = logs_at (heap w) (state db)"
      if "pad_key E key" for key v
    using upd(3) [OF that] p(6) by (auto simp: fun_eq_iff logs_at.simps [of _ "state db"] heap_put_pad split: option.splits)
  have neq: "scratchpadKey E action b k \<noteq> calcKey (SUICIDE_KEY E) a" for action b k a
    using db_ok_parts(2) [OF p(1)] by (auto simp: scratchpadKey_def keys_distinct_def split: RequestType.splits)
  have "dead_at E (heap (put_pad (state db) (scratchpadKey E action a k) v w)) (state db) =
      dead_at E (heap w) (state db)"
    using neq [symmetric] p(6) by (auto simp: fun_eq_iff dead_at_def heap_put_pad)
  then show "abs_journal E base db (w' (scratchpadKey E action a k) v) =
      write_view action a k v (abs_journal E base db w)"
    using db_view_put_pad [OF p(1)] upd(2) logs p(6)
    by (auto simp: w'_def abs_journal_def write_view_def shown_at_def heap_put_pad fun_eq_iff)
  have "dead_at E (heap (put_pad (state db) (calcKey (SUICIDE_KEY E) a) [1] w)) (state db) =
      (dead_at E (heap w) (state db))(a := True)"
    using p(6,8) by (auto simp: fun_eq_iff dead_at_def heap_put_pad)
  then show "abs_journal E base db (w' (calcKey (SUICIDE_KEY E) a) [1]) =
      (let j = abs_journal E base db w in
       j\<lparr>j_now := (j_now j)\<lparr>sh_dead := (sh_dead (j_now j))(a := True)\<rparr>\<rparr>)"
    using db_view_other_key [OF p(1)] upd(2) logs p(6)
    by (simp add: w'_def abs_journal_def shown_at_def heap_put_pad)
qed

lemma implements_log:
  assumes "on_base E base w0 db0 (db, w)"
  shows "on_base E base w0 db0 (db, AddLog db l w)"
    and "abs_journal E base db (AddLog db l w) =
      (let j = abs_journal E base db w; n = j_now j in
       j\<lparr>j_now := n\<lparr>sh_logs := (sh_logs n)(sh_tx n := sh_logs n (sh_tx n) @ [l])\<rparr>\<rparr>)"
proof -
  let ?f = "\<lambda>x. x\<lparr>txLogs := AList.update (currentTxHash x)
       (logs_of (txLogs x) (currentTxHash x) @ [l]) (txLogs x)\<rparr>"
  note p = on_base_parts [OF assms]
  have wf: "wf_world E (upd_st (state db) ?f w)"
    using db_ok_parts [OF p(1)] by (intro wf_world_layer_update) (auto simp: wf_heap_def)
  note upd = on_base_upd [OF assms wf, simplified]
  show "on_base E base w0 db0 (db, AddLog db l w)" unfolding AddLog_def by (rule upd(1))
  let ?w = "upd_st (state db) ?f w"
  have "overlay (heap ?w) (state db) key = overlay (heap w) (state db) key" for key
    by (rule overlay_cong) (use p(6,7) in \<open>auto simp: heap_upd_st\<close>)
  then have v: "view E ?w (state db) = view E w (state db)"
    by (auto simp: fun_eq_iff view_def split: option.split)
  have g: "logs_at (heap ?w) (state db) = (logs_at (heap w) (state db))
      (currentTxHash (heap w ! state db) := logs_at (heap w) (state db) (currentTxHash (heap w ! state db)) @ [l])"
    using upd(3) p(6)
    by (auto simp: fun_eq_iff logs_at.simps [of _ "state db"] heap_upd_st logs_of_def split: option.splits)
  have "dead_at E (heap ?w) (state db) = dead_at E (heap w) (state db)"
    using p(6) by (simp add: fun_eq_iff dead_at_def heap_upd_st)
  with v g upd(2) p(6) show "abs_journal E base db (AddLog db l w) =
      (let j = abs_journal E base db w; n = j_now j in
       j\<lparr>j_now := n\<lparr>sh_logs := (sh_logs n)(sh_tx n := sh_logs n (sh_tx n) @ [l])\<rparr>\<rparr>)"
    by (simp add: AddLog_def abs_journal_def shown_at_def heap_upd_st)
qed

text \<open>Snapshots.\<close>

lemma Snapshot_eq:
  "Snapshot E db w = (deriveCnt (heap w ! state db) + 1, db\<lparr>state := length (heap w)\<rparr>,
     w\<lparr>heap := heap w @ [fresh_layer E ''snapshot'' (state db) w]\<rparr>)"
  by (simp add: Snapshot_def Derive_eq st_def fresh_layer_def)

lemma shown_at_fresh:
  fixes why :: string
  assumes "wf_world E w" "s < length (heap w)"
  defines "w' \<equiv> w\<lparr>heap := heap w @ [fresh_layer E why s w]\<rparr>"
  shows "shown_at E w' (length (heap w)) = (shown_at E w s)\<lparr>sh_dead := \<lambda>a. False\<rparr>"
proof -
  have "logs_at (heap w') s = logs_at (heap w) s"
    unfolding w'_def by (rule below_logs [OF append_below, of "length (heap w)"])
      (use assms in \<open>auto simp: wf_world_def\<close>)
  then have "logs_at (heap w') (length (heap w)) = logs_at (heap w) s"
    using assms(2) by (auto simp: fun_eq_iff logs_at.simps [of _ "length (heap w)"] w'_def
        fresh_layer_def logs_of_def)
  with assms(2) view_Derive_new [OF assms(1,2)] show ?thesis
    by (auto simp: w'_def shown_at_def dead_at_def fresh_layer_def st_def fun_eq_iff)
qed

lemma implements_snapshot:
  assumes "on_base E base w0 db0 (db, w)"
  defines "w' \<equiv> w\<lparr>heap := heap w @ [fresh_layer E ''snapshot'' (state db) w]\<rparr>"
    and "db' \<equiv> db\<lparr>state := length (heap w)\<rparr>"
  shows "on_base E base w0 db0 (db', w')"
    and "abs_journal E base db' w' = (let j = abs_journal E base db w in
      j\<lparr>j_now := (j_now j)\<lparr>sh_dead := \<lambda>a. False\<rparr>, j_saved := (j_depth j + 1, j_now j) # j_saved j,
        j_depth := j_depth j + 1\<rparr>)"
proof -
  note p = on_base_parts [OF assms(1)]
  have b: "below (length (heap w)) w w'" unfolding w'_def by (rule append_below) simp
  have new: "heap w' ! length (heap w) = fresh_layer E ''snapshot'' (state db) w"
    by (simp add: w'_def)
  have len: "length (heap w') = Suc (length (heap w))" by (simp add: w'_def)
  have "wf_world E w'" using wf_world_Derive [OF db_ok_parts(3) [OF p(1)] p(6)] by (simp add: w'_def)
  then have ok: "db_ok E db' w'"
    using db_ok_parts(1) [OF p(1)] by (simp add: db_ok_def db'_def new len) (simp add: fresh_layer_def)
  have "length (heap w0) \<le> length (heap w)" using p(9) by (simp add: only_def)
  then have "above (heap w') (length (heap w0)) base (state db')"
    using p(2,6) below_above [OF b p(6)]
    by (simp add: above.simps [of _ _ _ "length (heap w)"] db'_def new) (simp add: fresh_layer_def)
  moreover have "parent (heap w' ! base) \<noteq> None" using below_parent [OF b, of base] p(3,5,6) by simp
  moreover have "only base w0 w'" unfolding w'_def by (rule only_append [OF p(9)])
  moreover have "same_config db0 db'"
    using assms(1) by (simp add: on_base_def db'_def same_config_def)
  ultimately show "on_base E base w0 db0 (db', w')" using ok by (simp add: on_base_def)
  have "saved E w' base (length (heap w)) =
      (deriveCnt (heap w ! state db) + 1, shown_at E w (state db)) # saved E w base (state db)"
    using p(5,6) below_saved [OF b p(7,6)] below_shown [OF b p(7,6)]
    by (simp add: saved.simps [of _ _ _ "length (heap w)"] new)
      (simp add: new fresh_layer_def st_def)
  with shown_at_fresh [OF db_ok_parts(3) [OF p(1)] p(6)]
  show "abs_journal E base db' w' = (let j = abs_journal E base db w in
      j\<lparr>j_now := (j_now j)\<lparr>sh_dead := \<lambda>a. False\<rparr>, j_saved := (j_depth j + 1, j_now j) # j_saved j,
        j_depth := j_depth j + 1\<rparr>)"
    by (simp add: abs_journal_def db'_def new w'_def) (simp add: fresh_layer_def st_def)
qed

lemma revert_walk_finds:
  assumes "wf_heap (heap w)" "r < length (heap w)" "above (heap w) m base r"
    and "dropWhile (\<lambda>(i, s). i \<noteq> n) (saved E w base r) = (i, s) # rest"
  shows "\<exists>t<r. revert_walk (Parent r w) n w = Some t \<and> shown_at E w t = s \<and> saved E w base t = rest \<and>
    deriveCnt (heap w ! t) = n - 1 \<and> above (heap w) m base t"
  using assms(2-)
proof (induction r rule: less_induct)
  case (less r)
  have "r \<noteq> base" using less.prems(3) by (auto simp: saved.simps)
  with less.prems(2) obtain q where q: "parent (heap w ! r) = Some q" "q < r" "above (heap w) m base q"
    by (auto simp: above.simps [of _ _ _ r] split: option.splits if_splits)
  have cnt: "deriveCnt (heap w ! r) = deriveCnt (heap w ! q) + 1"
    using assms(1) less.prems(1) q(1) by (auto simp: wf_heap_def)
  have sv: "saved E w base r = (deriveCnt (heap w ! r), shown_at E w q) # saved E w base q"
    using \<open>r \<noteq> base\<close> q by (simp add: saved.simps [of _ _ _ r])
  show ?case
  proof (cases "deriveCnt (heap w ! r) = n")
    case True
    with less.prems(3) sv cnt q show ?thesis
      by (intro exI [of _ q]) (auto simp: Parent_def st_def revert_walk.simps [of "Some q"])
  next
    case False
    with less.prems(3) sv have "dropWhile (\<lambda>(i, s). i \<noteq> n) (saved E w base q) = (i, s) # rest" by simp
    from less.IH [OF q(2) _ q(3) this] less.prems(1) q(2) obtain t where
      "t < q" "revert_walk (Parent q w) n w = Some t" "shown_at E w t = s" "saved E w base t = rest"
      "deriveCnt (heap w ! t) = n - 1" "above (heap w) m base t" by auto
    with False cnt q show ?thesis
      by (intro exI [of _ t]) (auto simp: Parent_def st_def revert_walk.simps [of "Some q"])
  qed
qed

lemma above_parent:
  "above h n base r \<Longrightarrow> parent (h ! base) \<noteq> None \<Longrightarrow> parent (h ! r) \<noteq> None"
  by (subst (asm) above.simps) (auto split: option.splits)

lemma implements_revert:
  assumes "on_base E base w0 db0 (db, w)"
    and "dropWhile (\<lambda>(i, s). i \<noteq> n) (j_saved (abs_journal E base db w)) = (i, s) # rest"
  shows "\<exists>db'. RevertToSnapshot db n w = Some db' \<and> on_base E base w0 db0 (db', w) \<and>
     abs_journal E base db' w =
       (abs_journal E base db w)\<lparr>j_now := s, j_saved := rest, j_depth := n - 1\<rparr>"
proof -
  note p = on_base_parts [OF assms(1)]
  from assms(2) have "dropWhile (\<lambda>(i, s). i \<noteq> n) (saved E w base (state db)) = (i, s) # rest"
    by (simp add: abs_journal_def)
  from revert_walk_finds [OF p(7,6,2) this] obtain t where
    t: "t < state db" "revert_walk (Parent (state db) w) n w = Some t" "shown_at E w t = s"
      "saved E w base t = rest" "deriveCnt (heap w ! t) = n - 1"
      "above (heap w) (length (heap w0)) base t" by blast
  have "db_ok E (db\<lparr>state := t\<rparr>) w"
    using p(1,6) t(1) above_parent [OF t(6) p(3)] by (auto simp: db_ok_def)
  moreover have "same_config db0 (db\<lparr>state := t\<rparr>)"
    using assms(1) by (simp add: on_base_def same_config_def)
  ultimately have "on_base E base w0 db0 (db\<lparr>state := t\<rparr>, w)"
    using assms(1) t(6) by (simp add: on_base_def)
  with t show ?thesis
    by (intro exI [of _ "db\<lparr>state := t\<rparr>"]) (simp add: RevertToSnapshot_def abs_journal_def)
qed

text \<open>Reads, through the database's getters.\<close>

lemma Empty_ok:
  assumes "db_ok E db w"
  shows "\<exists>w'. Empty E db a w = Some (code_of E w db a = [] \<and> nonce_of E w db a = 0 \<and> balance_of E w db a = 0, w') \<and>
    cache_ext w w' \<and> db_ok E db w'"
proof -
  obtain w1 where w1: "GetCode E db a w = Some (code_of E w db a, w1)" "cache_ext w w1" "db_ok E db w1"
    using getters_ok(4) [OF assms] by blast
  obtain w2 where w2: "GetNonce E db a w1 = Some (nonce_of E w1 db a, w2)" "cache_ext w1 w2" "db_ok E db w2"
    using getters_ok(2) [OF w1(3)] by blast
  obtain w3 where w3: "GetBalance E db a w2 = Some (balance_of E w2 db a, w3)" "cache_ext w2 w3" "db_ok E db w3"
    using getters_ok(1) [OF w2(3)] by blast
  have c2: "cache_ext w w2" using w1(2) w2(2) by (rule cache_ext_trans)
  with w3(2) have "cache_ext w w3" by (blast intro: cache_ext_trans)
  with w1 w2 w3 shown_cache_ext(1) [OF assms c2] shown_cache_ext(2) [OF assms w1(2)] show ?thesis
    by (simp add: Empty_def sgn_0_0)
qed

lemma read_ret_like:
  assumes "on_base E base w0 db0 (db, w)"
    and "\<exists>w'. r = Some (v, w') \<and> cache_ext w w' \<and> db_ok E db w'"
  shows "\<exists>s'. read_ret f db r = Some (f v, s') \<and> implements E base w0 db0 s' (abs_journal E base db w)"
  using assms on_base_cache_ext [OF assms(1)]
  by (force simp: read_ret_def implements_def)

lemma abs_reads:
  "read_view (abs_journal E base db w) action a k = view E w (state db) action a k"
  "sh_dead (j_now (abs_journal E base db w)) a = dead_at E (heap w) (state db) a"
  "j_refund (abs_journal E base db w) = refundGas db"
  by (simp_all add: read_view_def abs_journal_def shown_at_def)

lemma db_step_reads:
  assumes s: "on_base E base w0 db0 (db, w)" and c: "reads c"
    and j: "jstep c (abs_journal E base db w) = Some (x, j')"
  shows "\<exists>s'. db_step E c (db, w) = Some (x, s') \<and> implements E base w0 db0 s' j'"
proof -
  have ok: "db_ok E db w" using s by (simp add: on_base_def)
  have dead: "HasSuicided E db a w = dead_at E (heap w) (state db) a" for a
    using db_ok_parts(6) [OF ok] by (auto simp: HasSuicided_def dead_at_def st_def split: option.splits)
  have em: "(code_of E w db a = [] \<and> nonce_of E w db a = 0 \<and> balance_of E w db a = 0) =
      j_empty (abs_journal E base db w) a" for a
    by (auto simp: j_empty_def abs_reads shown_defs)
  have ex: "\<exists>w'. Exist E db a w = Some (\<not> j_empty (abs_journal E base db w) a, w') \<and>
      cache_ext w w' \<and> db_ok E db w'" for a
    using Empty_ok [OF ok, of a] unfolding em by (auto simp: Exist_def)
  note like = read_ret_like [OF s]
  note rd = like [OF getters_ok(1) [OF ok], where f = RInt] like [OF getters_ok(2) [OF ok], where f = RU64]
    like [OF getters_ok(3) [OF ok], where f = RHash] like [OF getters_ok(4) [OF ok], where f = RBytes]
    like [OF getters_ok(5) [OF ok], where f = RNat] like [OF getters_ok(6) [OF ok], where f = RHash]
    like [OF getters_ok(6) [OF ok, unfolded GetState_def], where f = RHash]
    like [OF Empty_ok [OF ok, unfolded em], where f = RBool] like [OF ex, where f = RBool]
  have j0: "implements E base w0 db0 (db, w) (abs_journal E base db w)" using s by (simp add: implements_def)
  from c j j0 dead show ?thesis
    by (cases c) (auto simp del: split_paired_Ex simp: abs_reads AddressInAccessList_def
        SlotInAccessList_def GetRefund_def intro: rd [unfolded shown_defs prod.case])
qed

lemma db_step_writes:
  assumes s: "on_base E base w0 db0 (db, w)" and c: "\<not> reads c"
    and j: "jstep c (abs_journal E base db w) = Some (x, j')"
  shows "\<exists>s'. db_step E c (db, w) = Some (x, s') \<and> implements E base w0 db0 s' j'"
proof -
  have ok: "db_ok E db w" using s by (simp add: on_base_def)
  note put = implements_put [OF s]
  have add: "\<exists>w'. AddBalance E db a d w = Some w' \<and> on_base E base w0 db0 (db, w') \<and>
      abs_journal E base db w' = write_view GET_BALANCE a 0
        (big_Bytes (big_SetBytes (view E w (state db) GET_BALANCE a 0) + d)) (abs_journal E base db w)" for a d
  proof -
    obtain w1 where w1: "get E (state db) a GET_BALANCE 0 w = Some (view E w (state db) GET_BALANCE a 0, w1)"
      "cache_ext w w1" "db_ok E db w1" using db_get [OF ok] by blast
    note c1 = on_base_cache_ext [OF s w1(2,3)]
    have key: "calcKey (BALANCE_KEY E) a = scratchpadKey E GET_BALANCE a 0" by (simp add: scratchpadKey_def)
    show ?thesis using w1(1) implements_put(1,2) [OF c1(1)]
      by (simp add: AddBalance_def key c1(2))
  qed
  have sub: "\<exists>w'. SubBalance E db a d w = Some w' \<and> on_base E base w0 db0 (db, w') \<and>
      abs_journal E base db w' = write_view GET_BALANCE a 0
        (big_Bytes (big_SetBytes (view E w (state db) GET_BALANCE a 0) - d)) (abs_journal E base db w)" for a d
    using add [of a "- d"] by (simp add: SubBalance_eq)
  have refund: "on_base E base w0 db0 (db\<lparr>refundGas := g\<rparr>, w)"
    "abs_journal E base (db\<lparr>refundGas := g\<rparr>) w = (abs_journal E base db w)\<lparr>j_refund := g\<rparr>" for g
    using s by (simp_all add: on_base_def db_ok_def abs_journal_def same_config_def)
  show ?thesis
  proof (cases c)
    case (CRevertToSnapshot n)
    with j obtain i s1 rest where d: "dropWhile (\<lambda>(i, s). i \<noteq> n) (j_saved (abs_journal E base db w)) = (i, s1) # rest"
      "x = RUnit" "j' = (abs_journal E base db w)\<lparr>j_now := s1, j_saved := rest, j_depth := n - 1\<rparr>"
      by (auto split: list.splits)
    from implements_revert [OF s d(1)] d(2,3) CRevertToSnapshot show ?thesis
      by (auto simp: unit_ret_def implements_def)
  next
    case CSnapshot
    with j implements_snapshot [OF s] show ?thesis
      by (simp add: Snapshot_eq implements_def Let_def) (simp add: abs_journal_def)
  next
    case (CAddBalance a d)
    with j add [of a d] show ?thesis by (auto simp: unit_ret_def implements_def abs_reads)
  next
    case (CSubBalance a d)
    with j sub [of a d] show ?thesis by (auto simp: unit_ret_def implements_def abs_reads)
  qed (use c j s put refund implements_log [OF s] in
    \<open>auto simp: unit_ret_def implements_def setter_keys CreateAccount_def Suicide_def Let_def
      PrepareAccessList_def AddAddressToAccessList_def AddSlotToAccessList_def AddPreimage_def
      AddRefund_def SubRefund_def abs_reads\<close>)
qed

interpretation db_journal: answers_like "db_step E" jstep "implements E base w0 db0"
  for E base w0 db0
proof
  fix s a c x a'
  assume s: "implements E base w0 db0 s a" and j: "jstep c a = Some (x, a')"
  obtain db w where sw: "s = (db, w)" by fastforce
  from s have "on_base E base w0 db0 (db, w)" "a = abs_journal E base db w"
    by (auto simp: implements_def sw)
  with j show "\<exists>s'. db_step E c s = Some (x, s') \<and> implements E base w0 db0 s' a'"
    by (cases "reads c") (auto simp del: split_paired_Ex simp: sw intro: db_step_reads db_step_writes)
qed

section \<open>Running on the database\<close>

lemma implements_start:
  assumes "db_ok E db w"
  shows "implements E (state db) w db (db, w) (abs_journal E (state db) db w)"
  using assms db_ok_parts [OF assms]
  by (simp add: implements_def on_base_def only_refl above.simps same_config_def)

text \<open>
  A journal with more saved copies at the bottom of its stack answers the same way; \<open>d\<close> is the
  depth at which the run started.
\<close>

definition deeper :: "int \<Rightarrow> (int \<times> shown) list \<Rightarrow> journal \<Rightarrow> journal \<Rightarrow> bool" where
  "deeper d bottom j a \<longleftrightarrow> j = a\<lparr>j_saved := j_saved a @ bottom\<rparr> \<and> d \<le> j_depth a \<and>
     (\<forall>(i, s) \<in> set (j_saved a). d < i)"

lemma dropWhile_Cons_split:
  "dropWhile P xs = y # ys \<Longrightarrow> set ys \<subseteq> set xs \<and> y \<in> set xs \<and> \<not> P y"
  by (metis dropWhile_eq_Cons_conv list.set_intros set_dropWhileD subsetI)

lemma write_view_saved:
  "write_view action a k v (j\<lparr>j_saved := x\<rparr>) = (write_view action a k v j)\<lparr>j_saved := x\<rparr>"
  "j_saved (write_view action a k v j) = j_saved j" "j_depth (write_view action a k v j) = j_depth j"
  by (simp_all add: write_view_def cong: if_cong)

interpretation deeper: answers_like jstep jstep "deeper d bottom" for d bottom
proof
  fix j a c x a'
  assume d: "deeper d bottom j a" and s: "jstep c a = Some (x, a')"
  show "\<exists>j'. jstep c j = Some (x, j') \<and> deeper d bottom j' a'"
  proof (cases c)
    case (CRevertToSnapshot n)
    with s obtain i sh rest where dw: "dropWhile (\<lambda>(i, s). i \<noteq> n) (j_saved a) = (i, sh) # rest"
      and a': "x = RUnit" "a' = a\<lparr>j_now := sh, j_saved := rest, j_depth := n - 1\<rparr>"
      by (auto split: list.splits)
    from dropWhile_Cons_split [OF dw] have i: "i = n" "set rest \<subseteq> set (j_saved a)" "(n, sh) \<in> set (j_saved a)"
      by auto
    have "dropWhile (\<lambda>(i, s). i \<noteq> n) (j_saved a @ bottom) = (n, sh) # rest @ bottom"
      using dropWhile_append1 [OF i(3), of "\<lambda>(i, s). i \<noteq> n" bottom] dw i(1) by simp
    with d a' i CRevertToSnapshot show ?thesis
      by (auto simp: deeper_def)
  qed (use d s in \<open>auto simp: deeper_def write_view_saved read_view_def j_empty_def\<close>)
qed

lemma revert_to_bottom:
  assumes "on_base E (state db) w db (db2, w2)"
    and "dropWhile (\<lambda>(i, s). i \<noteq> n) (j_saved (abs_journal E (state db) db2 w2)) = [(n, shown_at E w (state db))]"
  shows "RevertToSnapshot db2 n w2 = Some (db2\<lparr>state := state db\<rparr>) \<and> db_ok E (db2\<lparr>state := state db\<rparr>) w2 \<and>
    shown_at E w2 (state db) = shown_at E w (state db) \<and> deriveCnt (heap w2 ! state db) = n - 1"
proof -
  from implements_revert [OF assms] obtain db3 where
    r3: "RevertToSnapshot db2 n w2 = Some db3" "on_base E (state db) w db (db3, w2)"
      "abs_journal E (state db) db3 w2 =
        (abs_journal E (state db) db2 w2)\<lparr>j_now := shown_at E w (state db), j_saved := [], j_depth := n - 1\<rparr>"
    by blast
  have sv: "saved E w2 (state db) (state db3) = []" "shown_at E w2 (state db3) = shown_at E w (state db)"
    "deriveCnt (heap w2 ! state db3) = n - 1"
    using arg_cong [OF r3(3), of j_saved] arg_cong [OF r3(3), of j_now] arg_cong [OF r3(3), of j_depth] by (simp_all add: abs_journal_def)
  have eq: "state db3 = state db"
    using sv(1) on_base_parts(8) [OF r3(2)] by (auto simp: saved.simps split: if_splits option.splits)
  have "db3 = db2\<lparr>state := state db\<rparr>"
    using r3(1) eq by (auto simp: RevertToSnapshot_def bind_eq_Some_conv)
  with r3(1) sv(2,3) eq on_base_parts(1) [OF r3(2)] show ?thesis by auto
qed

text \<open>A run above a snapshot that was taken of the database: it goes as it would with nothing below, and the snapshot can be returned to.\<close>

lemma run_over_snapshot:
  assumes "on_base E (state db) w db (db1, w1)" "abs_journal E (state db) db1 w1 = j1"
    and "j_saved j1 = [(n, shown_at E w (state db))]" "n \<le> j_depth j1"
    and run: "run_traced jstep cap p t (j1\<lparr>j_saved := []\<rparr>) = Some (r, t', j')"
  shows "\<exists>db2 w2. run_traced (db_step E) cap p t (db1, w1) = Some (r, t', db2, w2) \<and> on_base E (state db) w db (db2, w2) \<and>
    (abs_journal E (state db) db2 w2)\<lparr>j_saved := []\<rparr> = j'\<lparr>j_saved := []\<rparr> \<and>
    RevertToSnapshot db2 n w2 = Some (db2\<lparr>state := state db\<rparr>) \<and> db_ok E (db2\<lparr>state := state db\<rparr>) w2 \<and>
    shown_at E w2 (state db) = shown_at E w (state db) \<and> deriveCnt (heap w2 ! state db) = n - 1"
proof -
  let ?b = "[(n, shown_at E w (state db))]"
  have "deeper n ?b j1 (j1\<lparr>j_saved := []\<rparr>)" using assms(3,4) by (simp add: deeper_def)
  from deeper.traced_like [OF this run] obtain j2 where
    j2: "run_traced jstep cap p t j1 = Some (r, t', j2)" "deeper n ?b j2 j'" by blast
  have "implements E (state db) w db (db1, w1) j1" using assms(1,2) by (simp add: implements_def)
  from db_journal.traced_like [OF this j2(1)] obtain db2 w2 where
    r2: "run_traced (db_step E) cap p t (db1, w1) = Some (r, t', db2, w2)"
      "on_base E (state db) w db (db2, w2)" "abs_journal E (state db) db2 w2 = j2" by (auto simp: implements_def)
  have "\<forall>x\<in>set (j_saved j'). (\<lambda>(i, s). i \<noteq> n) x" using j2(2) by (auto simp: deeper_def)
  then have "dropWhile (\<lambda>(i, s). i \<noteq> n) (j_saved (abs_journal E (state db) db2 w2)) = ?b"
    using j2(2) by (simp add: r2(3) deeper_def)
  with revert_to_bottom [OF r2(2)] r2 j2(2) show ?thesis by (auto simp: deeper_def)
qed

lemma snapshot_run_revert:
  assumes ok: "db_ok E db w" and sn: "Snapshot E db w = (n, db1, w1)"
    and run: "run_traced jstep cap p t (abs_journal E (state db1) db1 w1) = Some (r, t', j')"
  shows "\<exists>db2 w2. run_traced (db_step E) cap p t (db1, w1) = Some (r, t', db2, w2) \<and>
    RevertToSnapshot db2 n w2 = Some (db2\<lparr>state := state db\<rparr>) \<and> db_ok E (db2\<lparr>state := state db\<rparr>) w2 \<and>
    shown_at E w2 (state db) = shown_at E w (state db) \<and> below (state db) w w2"
proof -
  from sn have n: "n = deriveCnt (heap w ! state db) + 1"
    and w1: "db1 = db\<lparr>state := length (heap w)\<rparr>" "w1 = w\<lparr>heap := heap w @ [fresh_layer E ''snapshot'' (state db) w]\<rparr>"
    by (auto simp: Snapshot_eq)
  have s0: "on_base E (state db) w db (db, w)" using implements_start [OF ok] by (simp add: implements_def)
  note sn1 = implements_snapshot [OF s0, folded w1]
  let ?j = "abs_journal E (state db) db1 w1"
  have j: "j_saved ?j = [(n, shown_at E w (state db))]" "n \<le> j_depth ?j"
    unfolding sn1(2) by (simp_all add: abs_journal_def n saved.simps)
  have "run_traced jstep cap p t (?j\<lparr>j_saved := []\<rparr>) = Some (r, t', j')" using run by (simp add: abs_journal_def saved.simps)
  from run_over_snapshot [OF sn1(1) refl j this] on_base_parts(4) show ?thesis by blast
qed

text \<open>A clone is a layer of its own, so what runs on it stays above it.\<close>

definition fresh_db :: "ref \<Rightarrow> OverlayStateDB" where
  "fresh_db r = \<lparr>cacheFilePath = [], maxKeyCache = 0, refundGas = 0, state = r, stateBN = False\<rparr>"

lemma Clone_eq:
  "Clone E db w = (fresh_db (length (heap w)), w\<lparr>heap := heap w @ [fresh_layer E ''clone'' (state db) w]\<rparr>)"
  by (simp add: Clone_def Derive_eq fresh_db_def)

lemma derived_ok:
  fixes why :: string
  assumes "upstream_ok E" "wf_world E w" "s < length (heap w)"
  defines "w' \<equiv> w\<lparr>heap := heap w @ [fresh_layer E why s w]\<rparr>"
  shows "db_ok E (db\<lparr>state := length (heap w)\<rparr>) w'" "below (length (heap w)) w w'"
    "shown_at E w' (length (heap w)) = (shown_at E w s)\<lparr>sh_dead := \<lambda>a. False\<rparr>"
  using assms wf_world_Derive [OF assms(2,3), of why] shown_at_fresh [OF assms(2,3), of why]
    append_below [of "length (heap w)" w]
  by (simp_all add: db_ok_def fresh_layer_def w'_def)

lemma run_traced_on:
  assumes "db_ok E db w" "run_traced jstep cap p t (abs_journal E (state db) db w) = Some (r, t', j')"
  shows "\<exists>db' w'. run_traced (db_step E) cap p t (db, w) = Some (r, t', db', w') \<and>
    on_base E (state db) w db (db', w') \<and> abs_journal E (state db) db' w' = j'"
  using db_journal.traced_like [OF implements_start [OF assms(1)] assms(2)]
  by (auto simp: implements_def)

lemma run_quiet_on:
  assumes "db_ok E db w" "run_quiet jstep p (abs_journal E (state db) db w) = Some (r, j')"
  shows "\<exists>db' w'. run_quiet (db_step E) p (db, w) = Some (r, db', w') \<and>
    on_base E (state db) w db (db', w') \<and> abs_journal E (state db) db' w' = j'"
  using db_journal.quiet_like [OF implements_start [OF assms(1)] assms(2)]
  by (auto simp: implements_def)

lemma logs_walk_ok:
  assumes "wf_heap (heap w)" "r < length (heap w)"
  shows "logs_walk (Some r) txHash acc w = Some (logs_at (heap w) r txHash @ acc)"
  using assms(2)
proof (induction r arbitrary: acc rule: less_induct)
  case (less r)
  show ?case
  proof (cases "parent (heap w ! r)")
    case None
    then show ?thesis
      by (simp add: logs_walk.simps [of "Some r"] logs_walk.simps [of None] logs_at.simps [of _ r] st_def)
  next
    case (Some q)
    with wf_heap_parent [OF assms(1) less.prems] have q: "q < r" by simp
    with less.IH [OF q] less.prems Some show ?thesis
      by (simp add: logs_walk.simps [of "Some r"] logs_at.simps [of _ r] st_def)
  qed
qed

lemma GetLogs_ok:
  "wf_heap (heap w) \<Longrightarrow> state db < length (heap w) \<Longrightarrow>
   GetLogs db txHash w = Some (logs_at (heap w) (state db) txHash)"
  by (simp add: GetLogs_def logs_walk_ok)

section \<open>Properties\<close>

text \<open>
  A small run used to show that the hypotheses below can be met: a snapshot, a write, an event, a
  read, a return to the snapshot and another read.
\<close>

definition demo_prog :: "(db_ret \<times> db_ret) evm_prog" where
  "demo_prog = Call CSnapshot (\<lambda>n. Call (CSetState 1 2 77) (\<lambda>_. Emit (CaptureTxEnd 0)
     (Call (CGetState 1 2) (\<lambda>x. Call (CRevertToSnapshot (case n of RInt i \<Rightarrow> i | _ \<Rightarrow> 0))
       (\<lambda>_. Call (CGetState 1 2) (\<lambda>y. Done (x, y)))))))"

definition demo_capture :: "evm_event \<Rightarrow> nat \<Rightarrow> nat evm_prog" where
  "demo_capture e n = Call (CGetNonce 1) (\<lambda>_. Done (Suc n))"

lemma demo_clone_ok: "db_ok demo_env (fresh_db (Suc 0)) demo_world"
  by (simp add: db_ok_def upstream_ok_demo wf_demo demo_heap(1) demo_heap(3) [simplified] fresh_db_def)

lemma demo_clone_view: "sh_view (j_now (abs_journal demo_env b (fresh_db (Suc 0)) demo_world)) GET_STATE a k = Hash_Bytes k"
  by (simp add: abs_journal_def shown_at_def fresh_db_def view_demo uval_def answer_demo demo_answer_def as_hash_def)

lemma demo_run:
  "\<exists>j'. run_traced jstep demo_capture demo_prog 0 j =
     Some ((RHash 77, RHash (BytesToHash (sh_view (j_now j) GET_STATE 1 2))), Suc 0, j')"
  by (simp add: demo_prog_def demo_capture_def write_view_def read_view_def)

text \<open>C2.
  The state database implements the journal: whenever a run of the virtual machine, tracer
  included, is answered by the abstract journal, the same run on the database returns with the
  same result, the database then shows exactly what the journal holds (contents, logs, refund
  counter, snapshots), and every layer below the one the run started on is as before, but for the
  caches of the roots.
\<close>

theorem database_implements_journal:
  assumes "db_ok E db w" "run_traced jstep cap p t (abs_journal E (state db) db w) = Some (r, t', j')"
  shows "\<exists>db' w'. run_traced (db_step E) cap p t (db, w) = Some (r, t', db', w') \<and>
    db_ok E db' w' \<and> abs_journal E (state db) db' w' = j' \<and> below (state db) w w'"
  using run_traced_on [OF assms] on_base_parts(1,4) by blast

theorem database_implements_journal_witness:
  "db_ok demo_env (fresh_db (Suc 0)) demo_world \<and>
   (\<exists>db' w'. run_traced (db_step demo_env) demo_capture demo_prog 0 (fresh_db (Suc 0), demo_world) =
      Some ((RHash 77, RHash 2), Suc 0, db', w'))"
proof -
  let ?j = "abs_journal demo_env (state (fresh_db (Suc 0))) (fresh_db (Suc 0)) demo_world"
  obtain j' where "run_traced jstep demo_capture demo_prog 0 ?j = Some ((RHash 77, RHash 2), Suc 0, j')"
    using demo_run [of ?j] by (auto simp: demo_clone_view)
  from database_implements_journal [OF demo_clone_ok this] show ?thesis using demo_clone_ok by blast
qed

text \<open>C6.
  A snapshot can be returned to: after \<^verbatim>\<open>Snapshot\<close>, whatever a run does that keeps to its own
  snapshots, \<^verbatim>\<open>RevertToSnapshot\<close> with the returned number succeeds, puts the database back on the
  layer it was on, and this layer shows the same balances, nonces, codes, slots and logs as before
  the snapshot.
\<close>

theorem revert_restores_snapshot:
  assumes "db_ok E db w" "Snapshot E db w = (n, db1, w1)"
    and "run_traced jstep cap p t (abs_journal E (state db1) db1 w1) = Some (r, t', j')"
  shows "\<exists>db2 w2. run_traced (db_step E) cap p t (db1, w1) = Some (r, t', db2, w2) \<and>
    RevertToSnapshot db2 n w2 = Some (db2\<lparr>state := state db\<rparr>) \<and>
    view E w2 (state db) = view E w (state db) \<and>
    (\<forall>h. GetLogs (db2\<lparr>state := state db\<rparr>) h w2 = GetLogs db h w)"
proof -
  from snapshot_run_revert [OF assms] obtain db2 w2 where
    r: "run_traced (db_step E) cap p t (db1, w1) = Some (r, t', db2, w2)"
      "RevertToSnapshot db2 n w2 = Some (db2\<lparr>state := state db\<rparr>)" "db_ok E (db2\<lparr>state := state db\<rparr>) w2"
      "shown_at E w2 (state db) = shown_at E w (state db)" by blast
  then have "view E w2 (state db) = view E w (state db)"
    "logs_at (heap w2) (state db) = logs_at (heap w) (state db)"
    using arg_cong [OF r(4), of sh_view] arg_cong [OF r(4), of sh_logs] by (simp_all add: shown_at_def)
  with r db_ok_parts [OF assms(1)] db_ok_parts [OF r(3)] show ?thesis
    by (auto simp: GetLogs_ok)
qed

theorem revert_restores_snapshot_witness:
  "db_ok demo_env (fresh_db (Suc 0)) demo_world \<and>
   (let (n, db1, w1) = Snapshot demo_env (fresh_db (Suc 0)) demo_world in
    \<exists>db2 w2. run_traced (db_step demo_env) demo_capture (Call (CSetNonce 5 9) (\<lambda>_. demo_prog)) 0 (db1, w1) =
        Some ((RHash 77, RHash 2), Suc 0, db2, w2) \<and>
      RevertToSnapshot db2 n w2 = Some (db2\<lparr>state := Suc 0\<rparr>) \<and>
      view demo_env w2 (Suc 0) = view demo_env demo_world (Suc 0))"
proof -
  let ?db = "fresh_db (Suc 0)"
  obtain n db1 w1 where sn: "Snapshot demo_env ?db demo_world = (n, db1, w1)"
    by (cases "Snapshot demo_env ?db demo_world") auto
  then have "state db1 = length (heap demo_world)" "w1 = demo_world\<lparr>heap := heap demo_world @
      [fresh_layer demo_env ''snapshot'' (Suc 0) demo_world]\<rparr>"
    by (auto simp: Snapshot_eq fresh_db_def)
  then have v: "sh_view (j_now (abs_journal demo_env b db1 w1)) GET_STATE 1 2 = Hash_Bytes 2" for b
    using shown_at_fresh [OF wf_demo, of "Suc 0" "''snapshot''"]
    by (simp add: demo_heap abs_journal_def)
      (simp add: shown_at_def view_demo uval_def answer_demo demo_answer_def as_hash_def)
  let ?j = "abs_journal demo_env (state db1) db1 w1"
  obtain j' where "run_traced jstep demo_capture (Call (CSetNonce 5 9) (\<lambda>_. demo_prog)) 0 ?j =
      Some ((RHash 77, RHash 2), Suc 0, j')"
    using demo_run [of "write_view GET_NONCE 5 0 (nonce_Bytes 9) ?j"] by (auto simp: write_view_def v)
  from revert_restores_snapshot [OF demo_clone_ok sn this] demo_clone_ok show ?thesis
    unfolding sn by (auto simp: fresh_db_def)
qed

text \<open>C7.
  A clone is isolated: whatever runs on a clone of a database, what the original database shows
  (balances, nonces, codes, slots, logs and receipts, for its current layer and for every other
  layer that existed) does not change.
\<close>

theorem clone_isolated:
  assumes "db_ok E db w" "Clone E db w = (cl, w1)"
    and "run_traced jstep cap p t (abs_journal E (state cl) cl w1) = Some (r, t', j')"
  shows "\<exists>cl' w2. run_traced (db_step E) cap p t (cl, w1) = Some (r, t', cl', w2) \<and> db_ok E db w2 \<and>
    (\<forall>l < length (heap w). view E w2 l = view E w l \<and>
       (\<forall>h. GetLogs (fresh_db l) h w2 = GetLogs (fresh_db l) h w) \<and>
       receipts (st w2 l) = receipts (st w l))"
proof -
  note p = db_ok_parts [OF assms(1)]
  from assms(2) have cl: "cl = fresh_db (length (heap w))"
    "w1 = w\<lparr>heap := heap w @ [fresh_layer E ''clone'' (state db) w]\<rparr>" by (auto simp: Clone_eq)
  have "db_ok E cl w1" and b1: "below (length (heap w)) w w1"
    using derived_ok(1) [OF p(1,3,5), where db = cl and why = "''clone''"]
      derived_ok(2) [OF p(1,3,5), where why = "''clone''"] by (simp_all add: cl fresh_db_def)
  from run_traced_on [OF this(1) assms(3)] obtain cl' w2 where
    r: "run_traced (db_step E) cap p t (cl, w1) = Some (r, t', cl', w2)"
      "on_base E (state cl) w1 cl (cl', w2)" by blast
  note q = on_base_parts [OF r(2)]
  have b: "below (length (heap w)) w w2"
    using below_trans [OF b1] q(4) by (simp add: cl fresh_db_def)
  have "db_ok E db w2"
    using assms(1) q(1) below_parent [OF b p(5)] b by (auto simp: db_ok_def below_def)
  moreover have "view E w2 l = view E w l \<and> (\<forall>h. GetLogs (fresh_db l) h w2 = GetLogs (fresh_db l) h w) \<and>
       receipts (st w2 l) = receipts (st w l)" if "l < length (heap w)" for l
    using that below_view [OF b p(4)] below_logs [OF b p(4)] below_fields(2) [OF b] below_len [OF b] p(4) q(7)
    by (auto simp: GetLogs_ok fresh_db_def st_def)
  ultimately show ?thesis using r(1) by blast
qed

theorem clone_isolated_witness:
  "db_ok demo_env (fresh_db (Suc 0)) demo_world \<and>
   (let (cl, w1) = Clone demo_env (fresh_db (Suc 0)) demo_world in
    \<exists>cl' w2. run_traced (db_step demo_env) demo_capture (Call (CSetState 5 6 9) (\<lambda>_. Done ())) 0 (cl, w1) =
        Some ((), 0, cl', w2) \<and>
      view demo_env w2 (Suc 0) = view demo_env demo_world (Suc 0))"
proof -
  obtain cl w1 where c: "Clone demo_env (fresh_db (Suc 0)) demo_world = (cl, w1)" by fastforce
  show ?thesis
    using clone_isolated [OF demo_clone_ok c, where cap = demo_capture
        and p = "Call (CSetState 5 6 9) (\<lambda>_. Done ())" and t = 0]
    by (auto simp: c demo_clone_ok demo_heap)
qed

end
