(* ===== verification/Frames.thy ===== *)
theory Frames
  imports Journal
begin

text \<open>
  What a database and its clones leave alone: relations between worlds that say which layers may
  have been written to, and that every operation of the database keeps to them.
\<close>

section \<open>Worlds in which only some layers were written\<close>

lemma only_trans:
  "only b w w1 \<Longrightarrow> only b' w1 w2 \<Longrightarrow> b' = b \<or> length (heap w) \<le> b' \<Longrightarrow> only b w w2"
  by (auto simp: only_def intro: root_ext_trans)

text \<open>
  From one state to a later one, a database moved on: of the layers that existed, only its current
  one may have been written to, and it is on that layer or on a new one.
\<close>

definition moved :: "env \<Rightarrow> OverlayStateDB \<times> world \<Rightarrow> OverlayStateDB \<times> world \<Rightarrow> bool" where
  "moved E = (\<lambda>(db, w) (db', w'). db_ok E db' w' \<and> only (state db) w w' \<and>
     (state db' = state db \<or> length (heap w) \<le> state db') \<and> parent (heap w' ! state db) \<noteq> None \<and>
     same_config db db')"

lemma moved_parts:
  assumes "moved E (db, w) (db', w')"
  shows "db_ok E db' w'" "only (state db) w w'" "state db' = state db \<or> length (heap w) \<le> state db'"
    "below (state db) w w'" "state db \<le> state db'" "parent (heap w' ! state db) \<noteq> None" "same_config db db'"
  using assms only_below by (auto simp: moved_def only_def)

lemma moved_refl: "db_ok E db w \<Longrightarrow> moved E (db, w) (db, w)"
  using db_ok_parts [of E db w] by (simp add: moved_def only_refl same_config_def)

lemma moved_trans:
  assumes "moved E s s1" "moved E s1 s2"
  shows "moved E s s2"
proof -
  obtain db w db1 w1 db2 w2 where s: "s = (db, w)" "s1 = (db1, w1)" "s2 = (db2, w2)"
    by (metis surj_pair)
  note 1 = moved_parts [OF assms(1) [unfolded s]] and 2 = moved_parts [OF assms(2) [unfolded s]]
  have "only (state db) w w2" using only_trans [OF 1(2) 2(2) 1(3)] .
  moreover have "state db2 = state db \<or> length (heap w) \<le> state db2"
    using 1(3) 2(3) 1(2) by (auto simp: only_def)
  moreover have "parent (heap w2 ! state db) \<noteq> None"
  proof (cases "state db1 = state db")
    case False
    with 1 2(2) have "root_ext (heap w1 ! state db) (heap w2 ! state db)" by (auto simp: only_def)
    with 1(6) show ?thesis by (simp add: root_ext_parent)
  qed (use 2(6) in simp)
  moreover have "same_config db db2" using 1(7) 2(7) by (simp add: same_config_def)
  ultimately show ?thesis using 2(1) by (simp add: moved_def s)
qed

lemma on_base_moved:
  assumes "on_base E (state db) w db (db', w')"
  shows "moved E (db, w) (db', w')"
  unfolding moved_def prod.case
  using on_base_parts(1,3,9,10) [OF assms] assms by (intro conjI) (simp_all add: on_base_def)

lemma moved_other_ok:
  assumes "moved E (db, w) (db', w')" "db_ok E db w" "db_ok E c w"
  shows "db_ok E c w'"
proof -
  note m = moved_parts [OF assms(1)]
  have "parent (heap w' ! state c) \<noteq> None"
  proof (cases "state c = state db")
    case True
    then show ?thesis using m(6) by simp
  next
    case False
    with m(2) db_ok_parts(5,6) [OF assms(3)] show ?thesis by (auto simp: only_def root_ext_parent)
  qed
  with m(1,2) assms(3) show ?thesis by (auto simp: db_ok_def only_def)
qed

section \<open>Updates of the current layer\<close>

lemma moved_upd:
  assumes "db_ok E db w" "wf_world E (upd_st (state db) f w)"
    and "parent (f (heap w ! state db)) = parent (heap w ! state db)"
      "deriveCnt (f (heap w ! state db)) = deriveCnt (heap w ! state db)"
  shows "moved E (db, w) (db, upd_st (state db) f w)"
  using on_base_moved on_base_upd(1) implements_start [OF assms(1)] assms(2-)
  by (auto simp: implements_def)

lemma moved_put_pad:
  assumes "db_ok E db w" "pad_key E k"
  shows "moved E (db, w) (db, put_pad (state db) k v w)"
  using db_ok_parts(3) [OF db_ok_put_pad [OF assms], of v] unfolding put_pad_def
  by (intro moved_upd [OF assms(1)]) simp_all

lemma moved_SetCodeHash: "db_ok E db w \<Longrightarrow> moved E (db, w) (db, SetCodeHash E db a h w)"
  by (simp add: setter_keys moved_put_pad)

lemma StartLog_wf:
  assumes "db_ok E db w"
  shows "wf_world E (StartLogCollection db h b w)"
  unfolding StartLogCollection_def
  by (rule wf_world_layer_update) (use db_ok_parts [OF assms] in \<open>auto simp: wf_heap_def\<close>)

lemma moved_StartLog: "db_ok E db w \<Longrightarrow> moved E (db, w) (db, StartLogCollection db h b w)"
  using StartLog_wf [of E db w h b] unfolding StartLogCollection_def by (intro moved_upd) auto

lemma moved_Snapshot:
  assumes "db_ok E db w" "Snapshot E db w = (n, db1, w1)"
  shows "moved E (db, w) (db1, w1)"
  using implements_snapshot(1) [of E "state db" w db db w] implements_start [OF assms(1)] assms(2) on_base_moved
  by (auto simp: implements_def Snapshot_eq)

lemma moved_AddReceipt: "db_ok E db w \<Longrightarrow> moved E (db, w) (db, AddReceipt db h r w)"
  unfolding AddReceipt_def
  by (rule moved_upd, assumption, rule wf_world_layer_update) (use db_ok_parts in \<open>auto simp: wf_heap_def\<close>)

lemma moved_AddLog: "db_ok E db w \<Longrightarrow> moved E (db, w) (db, AddLog db l w)"
  unfolding AddLog_def
  by (rule moved_upd, assumption, rule wf_world_layer_update) (use db_ok_parts in \<open>auto simp: wf_heap_def\<close>)

section \<open>Clones\<close>

text \<open>New layers may have appeared and caches grown, but every layer that existed is as it was.\<close>

definition grown :: "env \<Rightarrow> world \<Rightarrow> world \<Rightarrow> bool" where
  "grown E w w' \<longleftrightarrow> wf_world E w' \<and> below (length (heap w)) w w'"

lemma grown_trans:
  assumes "grown E w w1" "grown E w1 w2"
  shows "grown E w w2"
proof -
  have "length (heap w) \<le> length (heap w1)" using assms(1) by (simp add: grown_def below_def)
  with assms below_mono have "below (length (heap w)) w1 w2" by (auto simp: grown_def)
  with assms show ?thesis by (auto simp: grown_def intro: below_trans)
qed

lemma grown_refl: "wf_world E w \<Longrightarrow> grown E w w"
  by (simp add: grown_def below_refl)

lemma grown_db_ok: "grown E w w' \<Longrightarrow> db_ok E db w \<Longrightarrow> db_ok E db w'"
  by (auto simp: grown_def db_ok_def below_parent dest: below_len)

lemma grown_Derive:
  "wf_world E w \<Longrightarrow> s < length (heap w) \<Longrightarrow> grown E w (w\<lparr>heap := heap w @ [fresh_layer E why s w]\<rparr>)"
  by (simp add: grown_def wf_world_Derive append_below)

lemma grown_shown:
  "grown E w w' \<Longrightarrow> wf_heap (heap w) \<Longrightarrow> r < length (heap w) \<Longrightarrow> shown_at E w' r = shown_at E w r"
  unfolding grown_def using below_shown by blast

lemma moved_above_grown:
  assumes "moved E (c, w1) (c', w2)" "below n w w1" "n \<le> state c"
  shows "below n w w2" "n \<le> state c'"
  using moved_parts [OF assms(1)] below_mono assms(2,3) by (auto intro: below_trans)

lemma Clone_grown:
  assumes "db_ok E db w" "Clone E db w = (cl, w1)"
  shows "grown E w w1" "db_ok E cl w1" "state cl = length (heap w)" "cl = fresh_db (length (heap w))"
    "shown_at E w1 (state cl) = (shown_at E w (state db))\<lparr>sh_dead := \<lambda>a. False\<rparr>"
proof -
  note p = db_ok_parts [OF assms(1)]
  from assms(2) have cl: "cl = fresh_db (length (heap w))"
    "w1 = w\<lparr>heap := heap w @ [fresh_layer E ''clone'' (state db) w]\<rparr>" by (auto simp: Clone_eq)
  show "grown E w w1" unfolding cl by (rule grown_Derive [OF p(3,5)])
  show "db_ok E cl w1" using derived_ok(1) [OF p(1,3,5), of "fresh_db 0" "''clone''"]
    by (simp add: cl fresh_db_def)
  show "state cl = length (heap w)" "cl = fresh_db (length (heap w))" by (simp_all add: cl fresh_db_def)
  then show "shown_at E w1 (state cl) = (shown_at E w (state db))\<lparr>sh_dead := \<lambda>a. False\<rparr>"
    using derived_ok(3) [OF p(1,3,5), of "''clone''"] by (simp add: cl)
qed

lemma CloneFromRoot_ok:
  assumes "db_ok E db w"
  shows "\<exists>root. getRootState (state db) w = Some root \<and> parent (heap w ! root) = None \<and> root < length (heap w) \<and>
    CloneFromRoot E db w = Some (fresh_db (length (heap w)), w\<lparr>heap := heap w @ [fresh_layer E ''from root'' root w]\<rparr>)"
proof -
  note p = db_ok_parts [OF assms]
  from getRootState_ok [OF p(4,5)] obtain root where
    "getRootState (state db) w = Some root" "root \<le> state db" "parent (heap w ! root) = None" by blast
  with p(5) show ?thesis
    by (simp add: CloneFromRoot_def DeriveFromRoot_def Derive_eq fresh_db_def)
qed

lemma CloneFromRoot_grown:
  assumes "db_ok E db w" "CloneFromRoot E db w = Some (cl, w1)"
  shows "grown E w w1" "db_ok E cl w1" "state cl = length (heap w)" "cl = fresh_db (length (heap w))"
    "view E w1 (state cl) = uval E (blockNumber w)"
proof -
  note p = db_ok_parts [OF assms(1)]
  from CloneFromRoot_ok [OF assms(1)] assms(2) obtain root where
    r: "root < length (heap w)" "parent (heap w ! root) = None"
    and cl: "cl = fresh_db (length (heap w))" "w1 = w\<lparr>heap := heap w @ [fresh_layer E ''from root'' root w]\<rparr>" by auto
  show "grown E w w1" unfolding cl by (rule grown_Derive [OF p(3) r(1)])
  show "db_ok E cl w1" using derived_ok(1) [OF p(1,3) r(1), of "fresh_db 0" "''from root''"]
    by (simp add: cl fresh_db_def)
  show "state cl = length (heap w)" "cl = fresh_db (length (heap w))" by (simp_all add: cl fresh_db_def)
  then show "view E w1 (state cl) = uval E (blockNumber w)"
    using view_Derive_new [OF p(3) r(1), of "''from root''"] r(2)
    by (simp add: cl fun_eq_iff view_def [of E w root] overlay.simps)
qed

lemma CacheSize_ok:
  assumes "db_ok E db w"
  shows "\<exists>n. CacheSize db w = Some n"
  using getRootState_ok [OF db_ok_parts(4,5) [OF assms]] by (auto simp: CacheSize_def)

section \<open>Types of the interface\<close>

text \<open>The result types that \<^verbatim>\<open>vm.StateDB\<close> declares for its methods.\<close>

datatype ret_type = TUnit | TInt | TU64 | THash | TBytes | TNat | TBool | TBools

fun ret_type_of :: "db_ret \<Rightarrow> ret_type" where
  "ret_type_of RUnit = TUnit"
| "ret_type_of (RInt i) = TInt"
| "ret_type_of (RU64 n) = TU64"
| "ret_type_of (RHash h) = THash"
| "ret_type_of (RBytes bs) = TBytes"
| "ret_type_of (RNat n) = TNat"
| "ret_type_of (RBool b) = TBool"
| "ret_type_of (RBools b c) = TBools"

fun declared_type :: "db_call \<Rightarrow> ret_type" where
  "declared_type (CGetBalance a) = TInt"
| "declared_type (CGetNonce a) = TU64"
| "declared_type (CGetCodeHash a) = THash"
| "declared_type (CGetCode a) = TBytes"
| "declared_type (CGetCodeSize a) = TNat"
| "declared_type CGetRefund = TU64"
| "declared_type (CGetCommittedState a k) = THash"
| "declared_type (CGetState a k) = THash"
| "declared_type (CSuicide a) = TBool"
| "declared_type (CHasSuicided a) = TBool"
| "declared_type (CExist a) = TBool"
| "declared_type (CEmpty a) = TBool"
| "declared_type (CAddressInAccessList a) = TBool"
| "declared_type (CSlotInAccessList a k) = TBools"
| "declared_type CSnapshot = TInt"
| "declared_type _ = TUnit"

lemma jstep_typed:
  assumes "\<forall>n. c \<noteq> CRevertToSnapshot n"
  shows "\<exists>x j'. jstep c j = Some (x, j') \<and> ret_type_of x = declared_type c"
  using assms by (cases c) simp_all

text \<open>C24.
  The interface of the virtual machine is sound: from a state database in order, every call but
  \<^verbatim>\<open>RevertToSnapshot\<close> returns, its answer has the type that \<^verbatim>\<open>vm.StateDB\<close> declares, the database is
  in order again, with the same cache file and key limit, and of the layers that existed only the
  database's own was written to. \<^verbatim>\<open>RevertToSnapshot\<close>, which panics for an identifier that no layer
  below has, returns nothing and only moves the database.
\<close>

theorem database_calls_typed:
  assumes "db_ok E db w"
  shows "case c of
      CRevertToSnapshot n \<Rightarrow> db_step E c (db, w) = None \<or> (\<exists>t. db_step E c (db, w) = Some (RUnit, db\<lparr>state := t\<rparr>, w))
    | _ \<Rightarrow> \<exists>x db' w'. db_step E c (db, w) = Some (x, db', w') \<and> ret_type_of x = declared_type c \<and> db_ok E db' w' \<and>
        only (state db) w w' \<and> cacheFilePath db' = cacheFilePath db \<and> maxKeyCache db' = maxKeyCache db"
proof (cases "\<exists>n. c = CRevertToSnapshot n")
  case True
  then obtain n where "c = CRevertToSnapshot n" by blast
  then show ?thesis by (cases "revert_walk (Parent (state db) w) n w") (auto simp: RevertToSnapshot_def unit_ret_def)
next
  case False
  then obtain x j' where "jstep c (abs_journal E (state db) db w) = Some (x, j')" "ret_type_of x = declared_type c"
    using jstep_typed by metis
  with db_journal.step_like [OF implements_start [OF assms]] obtain db' w' where
    s: "db_step E c (db, w) = Some (x, db', w')" "on_base E (state db) w db (db', w')" "ret_type_of x = declared_type c"
    by (fastforce simp: implements_def)
  with moved_parts(1,2,7) [OF on_base_moved [OF s(2)]] False show ?thesis
    by (auto simp: same_config_def split: db_call.split)
qed

theorem database_calls_typed_witness:
  "db_ok demo_env demo_db demo_world \<and>
   (\<exists>x db' w'. db_step demo_env (CAddBalance 5 7) (demo_db, demo_world) = Some (x, db', w') \<and>
      ret_type_of x = TUnit \<and> db_ok demo_env db' w')"
  using database_calls_typed [OF demo_db_ok, of "CAddBalance 5 7"] demo_db_ok by (fastforce simp del: db_step.simps)

end
