(* ===== verification/Tracers.thy ===== *)
theory Tracers
  imports Journal
begin

text \<open>
  \<^verbatim>\<open>mfertracer/keccaktracer.go\<close> and \<^verbatim>\<open>mfertracer/statetracer.go\<close>: the program's own tracers. A
  tracer reacts to an event of the virtual machine with a tree of calls on the database of that
  run, at the end of which stands its new state; indexing an empty stack panics.
  \<^verbatim>\<open>Memory.GetPtr\<close> is go-ethereum's and a parameter (\<^const>\<open>None\<close> when it panics).
\<close>

section \<open>Opcodes\<close>

definition op_KECCAK256 :: nat where "op_KECCAK256 = 0x20"
definition op_ORIGIN :: nat where "op_ORIGIN = 0x32"
definition op_SLOAD :: nat where "op_SLOAD = 0x54"
definition op_SSTORE :: nat where "op_SSTORE = 0x55"
definition op_GAS :: nat where "op_GAS = 0x5a"
definition op_REVERT :: nat where "op_REVERT = 0xfd"

lemmas opcode_defs = op_KECCAK256_def op_ORIGIN_def op_SLOAD_def op_SSTORE_def op_GAS_def op_REVERT_def

text \<open>The \<open>i\<close>-th element of the stack from the top, as \<^verbatim>\<open>stack[len(stack)-i]\<close>.\<close>

definition stack_top :: "hash list \<Rightarrow> int \<Rightarrow> hash option" where
  "stack_top stack i = go_index stack (int (length stack) - i)"

definition or_panic :: "'a option \<Rightarrow> ('a \<Rightarrow> 'r evm_prog) \<Rightarrow> 'r evm_prog" where
  "or_panic x f = (case x of None \<Rightarrow> Panic | Some v \<Rightarrow> f v)"

text \<open>\<^verbatim>\<open>int64(v.Uint64())\<close> of a stack element.\<close>

definition word_int64 :: "hash \<Rightarrow> int" where
  "word_int64 v = sint (ucast v :: 64 word)"

section \<open>The Keccak tracer\<close>

datatype trace_op =
    KeccakOp (kop_Contract: address) (kop_Preimage: bytes) (kop_Hash: hash)
  | StorageOp (sop_Contract: address) (sop_Key: hash) (sop_Value: hash) (sop_IsWrite: bool)
  | GasOp (gop_Contract: address) (gop_GasRemain: u64)

text \<open>\<open>kt_env\<close> tells whether \<^verbatim>\<open>CaptureStart\<close> has set the tracer's environment.\<close>

record KeccakTracer =
  kt_env :: bool
  kt_traceOps :: "trace_op list"

definition NewKeccakTracer :: KeccakTracer where
  "NewKeccakTracer = \<lparr>kt_env = False, kt_traceOps = []\<rparr>"

definition kt_append :: "trace_op \<Rightarrow> KeccakTracer \<Rightarrow> KeccakTracer" where
  "kt_append x tracer = tracer\<lparr>kt_traceOps := kt_traceOps tracer @ [x]\<rparr>"

definition Keccak_CaptureState ::
  "(bytes \<Rightarrow> hash) \<Rightarrow> (bytes \<Rightarrow> int \<Rightarrow> int \<Rightarrow> bytes option) \<Rightarrow> nat \<Rightarrow> Scope \<Rightarrow> KeccakTracer \<Rightarrow>
   KeccakTracer evm_prog" where
  "Keccak_CaptureState keccak GetPtr opcode scope tracer =
     (let contract = sc_Contract scope; stack = sc_Stack scope in
      if opcode = op_KECCAK256 then
        or_panic (stack_top stack 1) (\<lambda>offset. or_panic (stack_top stack 2) (\<lambda>sz.
          or_panic (GetPtr (sc_Memory scope) (word_int64 offset) (word_int64 sz)) (\<lambda>data.
            Done (kt_append (KeccakOp contract data (keccak data)) tracer))))
      else if opcode = op_ORIGIN then Done tracer
      else if opcode = op_REVERT then
        or_panic (stack_top stack 1) (\<lambda>offset. or_panic (stack_top stack 2) (\<lambda>sz.
          or_panic (GetPtr (sc_Memory scope) (word_int64 offset) (word_int64 sz)) (\<lambda>data. Done tracer)))
      else if opcode = op_SLOAD then
        or_panic (stack_top stack 1) (\<lambda>key.
          if \<not> kt_env tracer then Panic
          else Call (CGetState contract key) (\<lambda>ret.
            (case ret of
               RHash val \<Rightarrow> Done (kt_append (StorageOp contract key val False) tracer)
             | _ \<Rightarrow> Panic)))
      else if opcode = op_SSTORE then
        or_panic (stack_top stack 1) (\<lambda>key. or_panic (stack_top stack 2) (\<lambda>val.
          Done (kt_append (StorageOp contract key val True) tracer)))
      else if opcode = op_GAS then Done (kt_append (GasOp contract (sc_Gas scope)) tracer)
      else Done tracer)"

fun Keccak_capture ::
  "(bytes \<Rightarrow> hash) \<Rightarrow> (bytes \<Rightarrow> int \<Rightarrow> int \<Rightarrow> bytes option) \<Rightarrow> evm_event \<Rightarrow> KeccakTracer \<Rightarrow> KeccakTracer evm_prog"
  where
  "Keccak_capture keccak GetPtr (CaptureStart from to create input gas val) tracer =
     Done (tracer\<lparr>kt_env := True\<rparr>)"
| "Keccak_capture keccak GetPtr (CaptureState pc opcode gas cost scope rData depth err) tracer =
     Keccak_CaptureState keccak GetPtr opcode scope tracer"
| "Keccak_capture keccak GetPtr _ tracer = Done tracer"

definition Keccak_GetResult :: "KeccakTracer \<Rightarrow> trace_op list" where
  "Keccak_GetResult tracer = kt_traceOps tracer"

definition Keccak_Reset :: "KeccakTracer \<Rightarrow> KeccakTracer" where
  "Keccak_Reset tracer = tracer\<lparr>kt_traceOps := []\<rparr>"

section \<open>The state tracer\<close>

record StateTracer =
  stt_env :: bool
  stt_slotAccessed :: "(address, (hash, hash) gomap) gomap"

definition NewStateTracer :: StateTracer where
  "NewStateTracer = \<lparr>stt_env = False, stt_slotAccessed = []\<rparr>"

definition slots_of :: "address \<Rightarrow> StateTracer \<Rightarrow> (hash, hash) gomap" where
  "slots_of contract tracer = (case map_of (stt_slotAccessed tracer) contract of Some m \<Rightarrow> m | None \<Rightarrow> [])"

definition st_note :: "address \<Rightarrow> hash \<Rightarrow> hash \<Rightarrow> StateTracer \<Rightarrow> StateTracer" where
  "st_note contract key val tracer = tracer\<lparr>stt_slotAccessed :=
     AList.update contract (AList.update key val (slots_of contract tracer)) (stt_slotAccessed tracer)\<rparr>"

definition State_CaptureState :: "nat \<Rightarrow> Scope \<Rightarrow> StateTracer \<Rightarrow> StateTracer evm_prog" where
  "State_CaptureState opcode scope tracer0 =
     (let contract = sc_Contract scope; stack = sc_Stack scope;
          tracer = (if map_of (stt_slotAccessed tracer0) contract = None
                    then tracer0\<lparr>stt_slotAccessed := AList.update contract [] (stt_slotAccessed tracer0)\<rparr>
                    else tracer0)
      in if opcode = op_SLOAD then
           or_panic (stack_top stack 1) (\<lambda>key.
             if \<not> stt_env tracer then Panic
             else Call (CGetState contract key) (\<lambda>ret.
               (case ret of RHash val \<Rightarrow> Done (st_note contract key val tracer) | _ \<Rightarrow> Panic)))
         else if opcode = op_SSTORE then
           or_panic (stack_top stack 1) (\<lambda>key. or_panic (stack_top stack 2) (\<lambda>val.
             Done (st_note contract key val tracer)))
         else Done tracer)"

fun State_capture :: "evm_event \<Rightarrow> StateTracer \<Rightarrow> StateTracer evm_prog" where
  "State_capture (CaptureStart from to create input gas val) tracer = Done (tracer\<lparr>stt_env := True\<rparr>)"
| "State_capture (CaptureState pc opcode gas cost scope rData depth err) tracer =
     State_CaptureState opcode scope tracer"
| "State_capture _ tracer = Done tracer"

definition State_GetResult :: "StateTracer \<Rightarrow> (address, (hash, hash) gomap) gomap" where
  "State_GetResult tracer = stt_slotAccessed tracer"

definition State_Reset :: "StateTracer \<Rightarrow> StateTracer" where
  "State_Reset tracer = tracer\<lparr>stt_slotAccessed := []\<rparr>"

section \<open>Tracers only look\<close>

text \<open>
  The contract of a tracer that the program relies on everywhere: it reads the database and never
  writes it. On the journal its reactions then leave everything as it is.
\<close>

locale looking_tracer =
  fixes capture :: "evm_event \<Rightarrow> 't \<Rightarrow> 't evm_prog"
  assumes looks: "reads_only (capture e t)"
begin

lemma quiet_reads: "reads_only p \<Longrightarrow> run_quiet jstep p j = Some (r, j') \<Longrightarrow> j' = j"
proof (induction p arbitrary: j)
  case (Call c f)
  then obtain x j1 where "jstep c j = Some (x, j1)" "run_quiet jstep (f x) j1 = Some (r, j')"
    by (auto simp: bind_eq_Some_conv)
  moreover from this(1) Call.prems(1) have "j1 = j" by (cases c) auto
  ultimately show ?case using Call.IH [OF rangeI] Call.prems(1) by auto
qed auto

text \<open>So tracing does not change what a run does: it returns the same and leaves the same state.\<close>

lemma tracing_transparent:
  "run_traced jstep capture p t j = Some (r, t', j') \<Longrightarrow> run_quiet jstep p j = Some (r, j')"
proof (induction p arbitrary: t j)
  case (Call c f)
  then obtain x j1 where "jstep c j = Some (x, j1)" "run_traced jstep capture (f x) t j1 = Some (r, t', j')"
    by (auto simp: bind_eq_Some_conv)
  with Call.IH [OF rangeI] show ?case by simp
next
  case (Emit e p)
  then obtain t1 j1 where 1: "run_quiet jstep (capture e t) j = Some (t1, j1)"
    "run_traced jstep capture p t1 j1 = Some (r, t', j')" by (auto simp: bind_eq_Some_conv)
  with quiet_reads [OF looks] have "j1 = j" by blast
  with 1 Emit.IH show ?case by simp
qed auto

end

lemma reads_only_or_panic: "(\<And>v. x = Some v \<Longrightarrow> reads_only (f v)) \<Longrightarrow> reads_only (or_panic x f)"
  by (cases x) (simp_all add: or_panic_def)

interpretation keccak_tracer: looking_tracer "Keccak_capture keccak GetPtr" for keccak GetPtr
proof
  fix e t
  show "reads_only (Keccak_capture keccak GetPtr e t)"
    by (cases "(keccak, GetPtr, e, t)" rule: Keccak_capture.cases)
      (auto simp: Keccak_CaptureState_def Let_def intro!: reads_only_or_panic split: db_ret.split)
qed

interpretation state_tracer: looking_tracer State_capture
proof
  fix e t
  show "reads_only (State_capture e t)"
    by (cases "(e, t)" rule: State_capture.cases)
      (auto simp: State_CaptureState_def Let_def intro!: reads_only_or_panic split: db_ret.split)
qed

section \<open>Properties\<close>

lemma stack_top_ok:
  "2 \<le> length stack \<Longrightarrow> stack_top stack 1 = Some (last stack)"
  "2 \<le> length stack \<Longrightarrow> stack_top stack 2 = Some (stack ! (length stack - 2))"
proof -
  assume l: "2 \<le> length stack"
  then have ne: "stack \<noteq> []" by auto
  have "nat (int (length stack) - 1) = length stack - 1" "nat (int (length stack) - 2) = length stack - 2"
    using l by auto
  with l ne show "stack_top stack 1 = Some (last stack)"
    "stack_top stack 2 = Some (stack ! (length stack - 2))"
    by (auto simp: stack_top_def go_index_def last_conv_nth)
qed

text \<open>C32.
  Tracing changes nothing: a run of the virtual machine under the Keccak tracer returns the same
  result as the run without a tracer, and the database shows the same afterwards (contents, logs,
  snapshots and refund counter).
\<close>

theorem tracing_changes_nothing:
  assumes "db_ok E db w"
    and "run_traced jstep (Keccak_capture keccak GetPtr) p t (abs_journal E (state db) db w) = Some (r, t', j')"
  shows "\<exists>db1 w1 db2 w2.
    run_traced (db_step E) (Keccak_capture keccak GetPtr) p t (db, w) = Some (r, t', db1, w1) \<and>
    run_quiet (db_step E) p (db, w) = Some (r, db2, w2) \<and>
    abs_journal E (state db) db1 w1 = abs_journal E (state db) db2 w2"
  using run_traced_on [OF assms] run_quiet_on [OF assms(1) keccak_tracer.tracing_transparent [OF assms(2)]]
  by auto

text \<open>An opcode on a stack of two, for the witnesses.\<close>

definition demo_scope :: Scope where
  "demo_scope = \<lparr>sc_Contract = 1, sc_Gas = 500, sc_Stack = [8, 2], sc_Memory = []\<rparr>"

definition demo_traced :: "db_ret evm_prog" where
  "demo_traced = Emit (CaptureStart 3 1 False [] 500 0)
     (Emit (CaptureState 0 op_SLOAD 500 100 demo_scope [] 1 None)
       (Call (CSetState 1 2 8) (\<lambda>_. Call (CGetState 1 2) Done)))"

theorem tracing_changes_nothing_witness:
  "db_ok demo_env (fresh_db (Suc 0)) demo_world \<and>
   (\<exists>db1 w1 db2 w2.
      run_traced (db_step demo_env) (Keccak_capture (\<lambda>_. 0) (\<lambda>_ _ _. Some [])) demo_traced NewKeccakTracer
        (fresh_db (Suc 0), demo_world) =
        Some (RHash 8, \<lparr>kt_env = True, kt_traceOps = [StorageOp 1 2 2 False]\<rparr>, db1, w1) \<and>
      run_quiet (db_step demo_env) demo_traced (fresh_db (Suc 0), demo_world) = Some (RHash 8, db2, w2))"
proof -
  let ?j = "abs_journal demo_env (state (fresh_db (Suc 0))) (fresh_db (Suc 0)) demo_world"
  have "\<exists>j'. run_traced jstep (Keccak_capture (\<lambda>_. 0) (\<lambda>_ _ _. Some [])) demo_traced NewKeccakTracer ?j =
      Some (RHash 8, \<lparr>kt_env = True, kt_traceOps = [StorageOp 1 2 2 False]\<rparr>, j')"
    by (simp add: demo_traced_def Keccak_CaptureState_def opcode_defs demo_scope_def stack_top_def go_index_def
        or_panic_def NewKeccakTracer_def kt_append_def read_view_def demo_clone_view write_view_def)
  then obtain j' where "run_traced jstep (Keccak_capture (\<lambda>_. 0) (\<lambda>_ _ _. Some [])) demo_traced NewKeccakTracer ?j =
      Some (RHash 8, \<lparr>kt_env = True, kt_traceOps = [StorageOp 1 2 2 False]\<rparr>, j')" by blast
  from tracing_changes_nothing [OF demo_clone_ok this] demo_clone_ok show ?thesis by blast
qed

text \<open>
  The state tracer records the storage slots a run touches with their values: at an \<^verbatim>\<open>SLOAD\<close> the
  value the database shows for the slot on top of the stack, at an \<^verbatim>\<open>SSTORE\<close> the value being
  written; what it recorded for other slots and contracts is kept, and other opcodes record nothing.
\<close>

theorem state_tracer_records:
  assumes "stt_env t" "2 \<le> length (sc_Stack scope)"
  shows "\<exists>t'. run_quiet jstep (State_capture (CaptureState pc opcode gas cost scope rData depth err) t) j =
      Some (t', j) \<and> stt_env t' \<and>
    (\<forall>a k. map_of (slots_of a t') k =
       (if a = sc_Contract scope \<and> k = last (sc_Stack scope) \<and> opcode = op_SLOAD
          then Some (BytesToHash (read_view j GET_STATE a k))
        else if a = sc_Contract scope \<and> k = last (sc_Stack scope) \<and> opcode = op_SSTORE
          then Some (sc_Stack scope ! (length (sc_Stack scope) - 2))
        else map_of (slots_of a t) k))"
  using assms stack_top_ok [OF assms(2)]
  by (auto simp: State_CaptureState_def Let_def or_panic_def st_note_def slots_of_def opcode_defs)

definition empty_journal :: journal where
  "empty_journal = \<lparr>j_now = \<lparr>sh_view = (\<lambda>_ _ _. []), sh_logs = (\<lambda>_. []), sh_dead = (\<lambda>_. False), sh_tx = 0\<rparr>,
     j_saved = [], j_depth = 1, j_refund = 0\<rparr>"

theorem state_tracer_records_witness:
  "\<exists>t'. run_quiet jstep (State_capture (CaptureState 0 op_SSTORE 500 100 demo_scope [] 1 None)
        (NewStateTracer\<lparr>stt_env := True\<rparr>)) empty_journal = Some (t', empty_journal) \<and>
     map_of (slots_of 1 t') 2 = Some 8"
  using state_tracer_records [of "NewStateTracer\<lparr>stt_env := True\<rparr>" demo_scope 0 op_SSTORE 500 100 "[]" 1 None empty_journal]
  by (fastforce simp: demo_scope_def opcode_defs)

text \<open>
  The Keccak tracer appends at most one entry per opcode and keeps the earlier ones: the hash of
  the memory range at a \<^verbatim>\<open>KECCAK256\<close>, the slot and its value at an \<^verbatim>\<open>SLOAD\<close> and an \<^verbatim>\<open>SSTORE\<close>, the gas
  left at a \<^verbatim>\<open>GAS\<close>; on a stack of two elements it fails only where the memory range is out of bounds.
\<close>

theorem keccak_tracer_records:
  assumes "kt_env t" "2 \<le> length (sc_Stack scope)"
    and "\<forall>x y. GetPtr (sc_Memory scope) x y \<noteq> None"
  shows "\<exists>t' new. run_quiet jstep (Keccak_capture keccak GetPtr
        (CaptureState pc opcode gas cost scope rData depth err) t) j = Some (t', j) \<and>
     kt_traceOps t' = kt_traceOps t @ new \<and>
     new = (let c = sc_Contract scope; a = last (sc_Stack scope);
                b = sc_Stack scope ! (length (sc_Stack scope) - 2) in
       if opcode = op_KECCAK256
       then (let m = the (GetPtr (sc_Memory scope) (word_int64 a) (word_int64 b)) in [KeccakOp c m (keccak m)])
       else if opcode = op_SLOAD then [StorageOp c a (BytesToHash (read_view j GET_STATE c a)) False]
       else if opcode = op_SSTORE then [StorageOp c a b True]
       else if opcode = op_GAS then [GasOp c (sc_Gas scope)]
       else [])"
proof -
  obtain m where "GetPtr (sc_Memory scope) (word_int64 (last (sc_Stack scope)))
      (word_int64 (sc_Stack scope ! (length (sc_Stack scope) - 2))) = Some m"
    using assms(3) by blast
  with assms(1) stack_top_ok [OF assms(2)] show ?thesis
    by (auto simp: Keccak_CaptureState_def Let_def or_panic_def kt_append_def opcode_defs)
qed

theorem keccak_tracer_records_witness:
  "\<exists>t'. run_quiet jstep (Keccak_capture (\<lambda>bs. word_of_nat (length bs)) (\<lambda>m x y. Some (replicate (nat y) 0))
        (CaptureState 0 op_KECCAK256 500 100 demo_scope [] 1 None) (NewKeccakTracer\<lparr>kt_env := True\<rparr>)) empty_journal =
      Some (t', empty_journal) \<and> kt_traceOps t' = [KeccakOp 1 (replicate 8 0) 8]"
  using keccak_tracer_records [of "NewKeccakTracer\<lparr>kt_env := True\<rparr>" demo_scope
      "\<lambda>m x y. Some (replicate (nat y) 0)" "\<lambda>bs. word_of_nat (length bs)" 0 op_KECCAK256 500 100 "[]" 1 None empty_journal]
  by (fastforce simp: demo_scope_def opcode_defs NewKeccakTracer_def word_int64_def)

end
