(* ===== verification/Signer.thy ===== *)
theory Signer
  imports Constant
begin

text \<open>
  \<^verbatim>\<open>mfersigner/signer.go\<close>: a signer that signs for any account. The \<^verbatim>\<open>r\<close> value of a signature is the
  sender's address, \<^verbatim>\<open>s\<close> is a fixed mark and \<^verbatim>\<open>v\<close> is 1. Setting the signature values of a
  transaction (\<^verbatim>\<open>Transaction.WithSignature\<close>) and turning it into a message
  (\<^verbatim>\<open>Transaction.AsMessage\<close>) are go-ethereum's and parameters.
\<close>

section \<open>The signer\<close>

record SetFromSigner =
  chainID :: "64 word"

definition NewSigner :: "64 word \<Rightarrow> SetFromSigner" where
  "NewSigner chain = \<lparr>chainID = chain\<rparr>"

definition SignatureValues :: "SetFromSigner \<Rightarrow> Transaction \<Rightarrow> bytes \<Rightarrow> string + int \<times> int \<times> int" where
  "SignatureValues signer tx sig = Inr (big_SetBytes sig, MFERSIGNER_S, 1)"

definition BigToAddress :: "int \<Rightarrow> address" where
  "BigToAddress x = BytesToAddress (big_Bytes x)"

definition Sender :: "SetFromSigner \<Rightarrow> Transaction \<Rightarrow> string + address" where
  "Sender signer tx = Inr (BigToAddress (tx_R tx))"

definition Signer_ChainID :: "SetFromSigner \<Rightarrow> int" where
  "Signer_ChainID signer = sint (chainID signer)"

definition Signer_Hash :: "SetFromSigner \<Rightarrow> Transaction \<Rightarrow> hash" where
  "Signer_Hash signer tx = 0"

definition Signer_Equal :: "SetFromSigner \<Rightarrow> 'a \<Rightarrow> bool" where
  "Signer_Equal signer signer2 = True"

section \<open>Signing and recognising a signature\<close>

text \<open>
  go-ethereum's \<^verbatim>\<open>tx.WithSignature(signer, sig)\<close> asks the signer for the values and stores them with
  its \<^verbatim>\<open>setSignatureValues\<close>, the parameter \<open>store\<close>.
\<close>

definition WithSignature ::
  "(int \<Rightarrow> int \<Rightarrow> int \<Rightarrow> int \<Rightarrow> Transaction \<Rightarrow> Transaction) \<Rightarrow> SetFromSigner \<Rightarrow> bytes \<Rightarrow> Transaction \<Rightarrow>
   string + Transaction" where
  "WithSignature store signer sig tx = (case SignatureValues signer tx sig of
     Inl err \<Rightarrow> Inl err
   | Inr (r, s, v) \<Rightarrow> Inr (store (Signer_ChainID signer) v r s tx))"

text \<open>
  The signer that \<^verbatim>\<open>MferEVM.TxToMessage\<close> picks: this one when the transaction carries its mark,
  and go-ethereum's London signer otherwise.
\<close>

datatype tx_signer = MferSigner SetFromSigner | LondonSigner int

definition big_Int64 :: "int \<Rightarrow> 64 word" where
  "big_Int64 x = word_of_int x"

definition marked :: "Transaction \<Rightarrow> bool" where
  "marked tx \<longleftrightarrow> big_Uint64 (tx_V tx) = 1 \<and> big_Bytes (tx_S tx) = big_Bytes MFERSIGNER_S"

definition pick_signer :: "int \<Rightarrow> Transaction \<Rightarrow> tx_signer" where
  "pick_signer chain tx =
     (if marked tx then MferSigner (NewSigner (big_Int64 chain)) else LondonSigner chain)"

definition TxToMessage ::
  "(tx_signer \<Rightarrow> Transaction \<Rightarrow> Message) \<Rightarrow> int \<Rightarrow> Transaction \<Rightarrow> Message" where
  "TxToMessage as_message chain tx = as_message (pick_signer chain tx) tx"

text \<open>
  What the source relies on: the signature values are stored as given and the sender of a message
  is the one its signer reports.
\<close>

definition stores_signature :: "(int \<Rightarrow> int \<Rightarrow> int \<Rightarrow> int \<Rightarrow> Transaction \<Rightarrow> Transaction) \<Rightarrow> bool" where
  "stores_signature store \<longleftrightarrow> (\<forall>chain v r s tx.
     \<exists>c. store chain v r s tx = tx\<lparr>tx_ChainID := c, tx_V := v, tx_R := r, tx_S := s\<rparr>)"

definition reports_sender :: "(tx_signer \<Rightarrow> Transaction \<Rightarrow> Message) \<Rightarrow> bool" where
  "reports_sender as_message \<longleftrightarrow> (\<forall>signer tx a. Sender signer tx = Inr a \<longrightarrow>
     msg_From (as_message (MferSigner signer) tx) = a)"

lemma BigToAddress_SetBytes: "length bs \<le> 20 \<Longrightarrow> BigToAddress (big_SetBytes bs) = BytesToAddress bs"
  by (simp add: BigToAddress_def BytesToAddress_def big_Bytes_def big_SetBytes_def)

lemma signed_recognised:
  assumes "stores_signature store" "reports_sender as_message"
    and "WithSignature store signer (Address_Bytes from) tx = Inr tx'"
  shows "pick_signer chain tx' = MferSigner (NewSigner (big_Int64 chain)) \<and>
    msg_From (TxToMessage as_message chain tx') = from"
proof -
  from assms(1,3) obtain c where tx': "tx' = tx\<lparr>tx_ChainID := c, tx_V := 1,
      tx_R := big_SetBytes (Address_Bytes from), tx_S := MFERSIGNER_S\<rparr>"
    unfolding stores_signature_def WithSignature_def SignatureValues_def by auto metis
  then have "pick_signer chain tx' = MferSigner (NewSigner (big_Int64 chain))"
    by (simp add: pick_signer_def marked_def big_Uint64_def)
  moreover have "Sender s tx' = Inr from" for s
    by (simp add: Sender_def tx' BigToAddress_SetBytes)
  ultimately show ?thesis using assms(2) by (auto simp: reports_sender_def TxToMessage_def)
qed

text \<open>C30.
  Whoever is impersonated is the sender: a transaction signed for an account is recognised by
  \<^verbatim>\<open>TxToMessage\<close> as signed by this signer, and the message it becomes is sent from that account.
\<close>

theorem signed_for_sender:
  assumes "stores_signature store" "reports_sender as_message"
    and "WithSignature store signer (Address_Bytes from) tx = Inr tx'"
  shows "pick_signer chain tx' = MferSigner (NewSigner (big_Int64 chain)) \<and>
    msg_From (TxToMessage as_message chain tx') = from"
  using assms by (rule signed_recognised)

definition demo_store :: "int \<Rightarrow> int \<Rightarrow> int \<Rightarrow> int \<Rightarrow> Transaction \<Rightarrow> Transaction" where
  "demo_store chain v r s tx = tx\<lparr>tx_V := v, tx_R := r, tx_S := s\<rparr>"

definition demo_message :: "tx_signer \<Rightarrow> Transaction \<Rightarrow> Message" where
  "demo_message signer tx = \<lparr>
     msg_From = (case signer of MferSigner s \<Rightarrow> (case Sender s tx of Inr a \<Rightarrow> a | Inl _ \<Rightarrow> 0) | _ \<Rightarrow> 0),
     msg_To = tx_To tx, msg_Nonce = tx_Nonce tx, msg_Value = tx_Value tx, msg_Gas = tx_Gas tx,
     msg_GasPrice = tx_GasPrice tx, msg_GasFeeCap = tx_GasFeeCap tx, msg_GasTipCap = tx_GasTipCap tx,
     msg_Data = tx_Data tx, msg_AccessList = tx_AccessList tx, msg_IsFake = False\<rparr>"

lemma demo_signing: "stores_signature demo_store" "reports_sender demo_message"
proof -
  show "stores_signature demo_store" unfolding stores_signature_def demo_store_def
  proof (intro allI)
    fix v r s and tx :: Transaction
    show "\<exists>c. tx\<lparr>tx_V := v, tx_R := r, tx_S := s\<rparr> = tx\<lparr>tx_ChainID := c, tx_V := v, tx_R := r, tx_S := s\<rparr>"
      by (intro exI [of _ "tx_ChainID tx"]) simp
  qed
  show "reports_sender demo_message" by (simp add: reports_sender_def demo_message_def)
qed

definition unsigned_tx :: Transaction where
  "unsigned_tx = \<lparr>tx_Type = 0, tx_ChainID = 0, tx_Nonce = 0, tx_GasPrice = 0, tx_GasTipCap = 0,
     tx_GasFeeCap = 0, tx_Gas = 21000, tx_To = Some 7, tx_Value = 1, tx_Data = [], tx_AccessList = [],
     tx_V = 0, tx_R = 0, tx_S = 0\<rparr>"

theorem signed_for_sender_witness:
  "\<exists>tx'. WithSignature demo_store (NewSigner 1) (Address_Bytes FAKE_ACCOUNT_0) unsigned_tx = Inr tx' \<and>
     msg_From (TxToMessage demo_message 1 tx') = FAKE_ACCOUNT_0"
proof -
  obtain tx' where "WithSignature demo_store (NewSigner 1) (Address_Bytes FAKE_ACCOUNT_0) unsigned_tx = Inr tx'"
    by (simp add: WithSignature_def SignatureValues_def)
  with signed_for_sender [OF demo_signing this] show ?thesis by blast
qed

end
