(* ===== verification/TxArgs.thy ===== *)
theory TxArgs
  imports Geth
begin

text \<open>
  \<^verbatim>\<open>mferbackend/ethinternaltypes.go\<close>: the arguments of a call or a transaction as they come over
  RPC, their conversion to messages and transactions, and the JSON forms of transactions, headers
  and blocks. A pointer field is an option; a field that is a pointer to a \<^verbatim>\<open>big.Int\<close> is an option
  of its value.
\<close>

section \<open>Arguments\<close>

record TransactionArgs =
  arg_From :: "address option"
  arg_To :: "address option"
  arg_Gas :: "u64 option"
  arg_GasPrice :: "int option"
  arg_MaxFeePerGas :: "int option"
  arg_MaxPriorityFeePerGas :: "int option"
  arg_Value :: "int option"
  arg_Nonce :: "u64 option"
  arg_Data :: "bytes option"
  arg_Input :: "bytes option"
  arg_AccessList :: "access_list option"
  arg_ChainID :: "int option"

definition args_from :: "TransactionArgs \<Rightarrow> address" where
  "args_from arg = (case arg_From arg of None \<Rightarrow> 0 | Some a \<Rightarrow> a)"

definition args_data :: "TransactionArgs \<Rightarrow> bytes" where
  "args_data arg = (case arg_Input arg of Some b \<Rightarrow> b | None \<Rightarrow>
     (case arg_Data arg of Some b \<Rightarrow> b | None \<Rightarrow> []))"

definition MaxUint64_half :: u64 where
  "MaxUint64_half = (- 1) div 2"

text \<open>The three prices: gas price, fee cap and tip cap.\<close>

definition gas_prices :: "TransactionArgs \<Rightarrow> int option \<Rightarrow> int \<times> int \<times> int" where
  "gas_prices args baseFee = (case baseFee of
     None \<Rightarrow> (let gasPrice = opt_else 0 (arg_GasPrice args) in (gasPrice, gasPrice, gasPrice))
   | Some base \<Rightarrow> (case arg_GasPrice args of
       Some gasPrice \<Rightarrow> (gasPrice, gasPrice, gasPrice)
     | None \<Rightarrow>
         (let gasFeeCap = opt_else 0 (arg_MaxFeePerGas args);
              gasTipCap = opt_else 0 (arg_MaxPriorityFeePerGas args);
              gasPrice = (if gasFeeCap \<noteq> 0 \<or> gasTipCap \<noteq> 0 then min (gasTipCap + base) gasFeeCap else 0)
          in (gasPrice, gasFeeCap, gasTipCap))))"

definition message_gas :: "TransactionArgs \<Rightarrow> u64 \<Rightarrow> u64" where
  "message_gas args globalGasCap =
     (let gas = (if globalGasCap = 0 then MaxUint64_half else globalGasCap);
          gas = opt_else gas (arg_Gas args)
      in if globalGasCap \<noteq> 0 \<and> globalGasCap < gas then globalGasCap else gas)"

definition ToMessage :: "TransactionArgs \<Rightarrow> u64 \<Rightarrow> int option \<Rightarrow> string + Message" where
  "ToMessage args globalGasCap baseFee =
     (if arg_GasPrice args \<noteq> None \<and> (arg_MaxFeePerGas args \<noteq> None \<or> arg_MaxPriorityFeePerGas args \<noteq> None)
      then Inl ''both gasPrice and (maxFeePerGas or maxPriorityFeePerGas) specified''
      else let (gasPrice, gasFeeCap, gasTipCap) = gas_prices args baseFee in
        Inr \<lparr>msg_From = args_from args, msg_To = arg_To args, msg_Nonce = opt_else 0 (arg_Nonce args),
             msg_Value = opt_else 0 (arg_Value args), msg_Gas = message_gas args globalGasCap,
             msg_GasPrice = gasPrice, msg_GasFeeCap = gasFeeCap, msg_GasTipCap = gasTipCap,
             msg_Data = args_data args, msg_AccessList = opt_else [] (arg_AccessList args),
             msg_IsFake = True\<rparr>)"

text \<open>
  \<^verbatim>\<open>toTransaction\<close>. \<^verbatim>\<open>types.NewTx\<close> copies the fields; a nil \<^verbatim>\<open>*big.Int\<close> becomes zero. The nonce and the
  gas are dereferenced in every branch.
\<close>

definition toTransaction :: "TransactionArgs \<Rightarrow> Transaction option" where
  "toTransaction args = do {
     nonce \<leftarrow> arg_Nonce args;
     gas \<leftarrow> arg_Gas args;
     let val = opt_else 0 (arg_Value args);
     let data = args_data args;
     (case arg_MaxFeePerGas args of
        Some feeCap \<Rightarrow>
          Some \<lparr>tx_Type = 2, tx_ChainID = opt_else 0 (arg_ChainID args), tx_Nonce = nonce,
                tx_GasPrice = feeCap, tx_GasTipCap = opt_else 0 (arg_MaxPriorityFeePerGas args),
                tx_GasFeeCap = feeCap, tx_Gas = gas, tx_To = arg_To args, tx_Value = val,
                tx_Data = data, tx_AccessList = opt_else [] (arg_AccessList args),
                tx_V = 0, tx_R = 0, tx_S = 0\<rparr>
      | None \<Rightarrow>
          (let price = opt_else 0 (arg_GasPrice args) in
           case arg_AccessList args of
             Some al \<Rightarrow>
               Some \<lparr>tx_Type = 1, tx_ChainID = opt_else 0 (arg_ChainID args), tx_Nonce = nonce,
                     tx_GasPrice = price, tx_GasTipCap = price, tx_GasFeeCap = price, tx_Gas = gas,
                     tx_To = arg_To args, tx_Value = val, tx_Data = data, tx_AccessList = al,
                     tx_V = 0, tx_R = 0, tx_S = 0\<rparr>
           | None \<Rightarrow>
               Some \<lparr>tx_Type = 0, tx_ChainID = 0, tx_Nonce = nonce, tx_GasPrice = price,
                     tx_GasTipCap = price, tx_GasFeeCap = price, tx_Gas = gas, tx_To = arg_To args,
                     tx_Value = val, tx_Data = data, tx_AccessList = [],
                     tx_V = 0, tx_R = 0, tx_S = 0\<rparr>))
   }"

definition ToTransaction :: "TransactionArgs \<Rightarrow> Transaction option" where
  "ToTransaction args = toTransaction args"

section \<open>Revert errors\<close>

record revertError =
  re_error :: string
  re_reason :: string

text \<open>\<open>unpack\<close> is go-ethereum's \<^verbatim>\<open>abi.UnpackRevert\<close>.\<close>

definition revert_text :: "(bytes \<Rightarrow> string + string) \<Rightarrow> bytes \<Rightarrow> string" where
  "revert_text unpack data = (case unpack data of
     Inl err \<Rightarrow> ''execution reverted''
   | Inr reason \<Rightarrow> ''execution reverted: '' @ reason)"

definition newRevertError :: "(bytes \<Rightarrow> string + string) \<Rightarrow> ExecutionResult \<Rightarrow> revertError" where
  "newRevertError unpack result =
     \<lparr>re_error = revert_text unpack (er_Revert result), re_reason = ''0x'' @ Bytes2Hex (er_Revert result)\<rparr>"

section \<open>JSON forms\<close>

record RPCTransaction =
  rt_BlockHash :: "hash option"
  rt_BlockNumber :: "int option"
  rt_From :: address
  rt_Gas :: u64
  rt_GasPrice :: int
  rt_GasFeeCap :: "int option"
  rt_GasTipCap :: "int option"
  rt_Hash :: hash
  rt_Input :: bytes
  rt_Nonce :: u64
  rt_To :: "address option"
  rt_TransactionIndex :: "u64 option"
  rt_Value :: int
  rt_Type :: nat
  rt_Accesses :: "access_list option"
  rt_ChainID :: "int option"
  rt_V :: int
  rt_R :: int
  rt_S :: int

text \<open>
  \<open>protected\<close>, \<open>latest\<close> and \<open>homestead\<close> are go-ethereum's \<^verbatim>\<open>Transaction.Protected\<close> and the senders that
  its latest signer and its Homestead signer recover (zero when they fail); \<open>hash_of\<close> and \<open>chain_of\<close>
  its \<^verbatim>\<open>Hash\<close> and \<^verbatim>\<open>ChainId\<close>.
\<close>

record tx_env =
  te_hash :: "Transaction \<Rightarrow> hash"
  te_chain :: "Transaction \<Rightarrow> int"
  te_protected :: "Transaction \<Rightarrow> bool"
  te_latest :: "int \<Rightarrow> Transaction \<Rightarrow> address"
  te_homestead :: "Transaction \<Rightarrow> address"

definition newRPCTransaction ::
  "tx_env \<Rightarrow> Transaction \<Rightarrow> hash \<Rightarrow> u64 \<Rightarrow> u64 \<Rightarrow> int option \<Rightarrow> RPCTransaction" where
  "newRPCTransaction T tx blockHash blockNum index baseFee =
     (let from = (if te_protected T tx then te_latest T (te_chain T tx) tx else te_homestead T tx);
          located = (blockHash \<noteq> 0);
          result = \<lparr>rt_BlockHash = (if located then Some blockHash else None),
            rt_BlockNumber = (if located then Some (uint blockNum) else None),
            rt_From = from, rt_Gas = tx_Gas tx, rt_GasPrice = tx_GasPrice tx, rt_GasFeeCap = None,
            rt_GasTipCap = None, rt_Hash = te_hash T tx, rt_Input = tx_Data tx, rt_Nonce = tx_Nonce tx,
            rt_To = tx_To tx, rt_TransactionIndex = (if located then Some index else None),
            rt_Value = tx_Value tx, rt_Type = tx_Type tx, rt_Accesses = None, rt_ChainID = None,
            rt_V = tx_V tx, rt_R = tx_R tx, rt_S = tx_S tx\<rparr>
      in if tx_Type tx = 1 then
           result\<lparr>rt_Accesses := Some (tx_AccessList tx), rt_ChainID := Some (te_chain T tx)\<rparr>
         else if tx_Type tx = 2 then
           result\<lparr>rt_Accesses := Some (tx_AccessList tx), rt_ChainID := Some (te_chain T tx),
             rt_GasFeeCap := Some (tx_GasFeeCap tx), rt_GasTipCap := Some (tx_GasTipCap tx),
             rt_GasPrice := (case baseFee of
                Some base \<Rightarrow> if located then min (tx_GasTipCap tx + base) (tx_GasFeeCap tx) else tx_GasFeeCap tx
              | None \<Rightarrow> tx_GasFeeCap tx)\<rparr>
         else result)"

text \<open>
  The maps that become JSON objects: the entries the source computes with; entries that copy a
  header field the model does not carry are \<open>JHeaderField\<close>.
\<close>

datatype json =
    JNull
  | JBig int
  | JUint64 u64
  | JHash hash
  | JAddress address
  | JHashes "hash list"
  | JString string
  | JBytes bytes
  | JLogs "Log list"
  | JNat nat
  | JOptAddress "address option"
  | JHeaderField string

record hdr_env =
  he_hash :: "Header \<Rightarrow> hash"
  he_size :: "Header \<Rightarrow> u64"
  be_size :: "Block \<Rightarrow> u64"

definition RPCMarshalHeader :: "hdr_env \<Rightarrow> Header \<Rightarrow> (string, json) gomap" where
  "RPCMarshalHeader H head =
     [(''number'', JBig (hd_Number head)), (''hash'', JHash (he_hash H head)),
      (''parentHash'', JHash (hd_ParentHash head)), (''nonce'', JHeaderField ''Nonce''),
      (''mixHash'', JHeaderField ''MixDigest''), (''sha3Uncles'', JHeaderField ''UncleHash''),
      (''logsBloom'', JHeaderField ''Bloom''), (''stateRoot'', JHeaderField ''Root''),
      (''miner'', JAddress (hd_Coinbase head)), (''difficulty'', JBig (hd_Difficulty head)),
      (''extraData'', JHeaderField ''Extra''), (''size'', JUint64 (he_size H head)),
      (''gasLimit'', JUint64 (hd_GasLimit head)), (''gasUsed'', JUint64 (hd_GasUsed head)),
      (''timestamp'', JUint64 (hd_Time head)), (''transactionsRoot'', JHeaderField ''TxHash''),
      (''receiptsRoot'', JHeaderField ''ReceiptHash'')] @
     (case hd_BaseFee head of Some f \<Rightarrow> [(''baseFeePerGas'', JBig f)] | None \<Rightarrow> [])"

definition RPCMarshalBlock ::
  "tx_env \<Rightarrow> hdr_env \<Rightarrow> Block \<Rightarrow> bool \<Rightarrow> bool \<Rightarrow> string + (string, json) gomap" where
  "RPCMarshalBlock T H block inclTx fullTx =
     (let obj = AList.update ''size'' (JUint64 (be_size H block)) (RPCMarshalHeader H (blk_Header block));
          uncles = JHashes (map (he_hash H) (blk_Uncles block))
      in if inclTx then
           (if fullTx \<and> blk_Transactions block \<noteq> [] then Inl ''cannot fetch full tx''
            else Inr (AList.update ''uncles'' uncles
                   (AList.update ''transactions'' (JHashes (map (te_hash T) (blk_Transactions block))) obj)))
         else Inr (AList.update ''uncles'' uncles obj))"

section \<open>Properties\<close>

definition no_args :: TransactionArgs where
  "no_args = \<lparr>arg_From = None, arg_To = None, arg_Gas = None, arg_GasPrice = None,
     arg_MaxFeePerGas = None, arg_MaxPriorityFeePerGas = None, arg_Value = None, arg_Nonce = None,
     arg_Data = None, arg_Input = None, arg_AccessList = None, arg_ChainID = None\<rparr>"

lemma message_gas_capped:
  "cap \<noteq> 0 \<Longrightarrow> message_gas args cap = (case arg_Gas args of Some g \<Rightarrow> min g cap | None \<Rightarrow> cap)"
  by (auto simp: message_gas_def opt_else_def min_def split: option.split)

lemma message_gas_uncapped:
  "message_gas args 0 = (case arg_Gas args of Some g \<Rightarrow> g | None \<Rightarrow> 0x7fffffffffffffff)"
  by (simp add: message_gas_def opt_else_def MaxUint64_half_def split: option.split)

lemma gas_prices_facts:
  assumes "gas_prices args baseFee = (p, f, t)"
  shows "baseFee = None \<Longrightarrow> f = p \<and> t = p" and "baseFee \<noteq> None \<Longrightarrow> 0 \<le> f \<Longrightarrow> p \<le> f"
  using assms by (auto simp: gas_prices_def Let_def split: option.splits if_splits)



text \<open>
  A transaction is built exactly when a nonce and a gas limit are given (the conversion panics
  otherwise), its type is 2 with a fee cap, 1 with an access list and no fee cap, and 0 otherwise,
  and its target, value, nonce, gas and data are those of the arguments.
\<close>

theorem toTransaction_spec:
  "(toTransaction args = None \<longleftrightarrow> arg_Nonce args = None \<or> arg_Gas args = None) \<and>
   (\<forall>tx. toTransaction args = Some tx \<longrightarrow>
      tx_Type tx = (if arg_MaxFeePerGas args \<noteq> None then 2 else if arg_AccessList args \<noteq> None then 1 else 0) \<and>
      tx_To tx = arg_To args \<and> Some (tx_Nonce tx) = arg_Nonce args \<and> Some (tx_Gas tx) = arg_Gas args \<and>
      tx_Value tx = opt_else 0 (arg_Value args) \<and> tx_Data tx = args_data args)"
  by (cases "arg_Nonce args"; cases "arg_Gas args")
    (auto simp: toTransaction_def Let_def split: option.splits)

theorem toTransaction_spec_witness:
  "toTransaction no_args = None \<and>
   (\<exists>tx. toTransaction (no_args\<lparr>arg_Nonce := Some 3, arg_Gas := Some 9, arg_AccessList := Some []\<rparr>) = Some tx \<and>
      tx_Type tx = 1 \<and> tx_Nonce tx = 3)"
proof -
  let ?a = "no_args\<lparr>arg_Nonce := Some 3, arg_Gas := Some 9, arg_AccessList := Some []\<rparr>"
  have "toTransaction ?a \<noteq> None" using toTransaction_spec [of ?a] by (simp add: no_args_def)
  then obtain tx where "toTransaction ?a = Some tx" by blast
  with toTransaction_spec [of ?a] toTransaction_spec [of no_args] show ?thesis by (auto simp: no_args_def)
qed

text \<open>
  The JSON form of a block lists the hashes of its transactions and uncles, and the sizes of the
  whole block; full transactions are refused unless the block is empty.
\<close>

theorem RPCMarshalBlock_spec:
  "(case RPCMarshalBlock T H block inclTx fullTx of
      Inl err \<Rightarrow> inclTx \<and> fullTx \<and> blk_Transactions block \<noteq> []
    | Inr obj \<Rightarrow>
        map_of obj ''size'' = Some (JUint64 (be_size H block)) \<and>
        map_of obj ''uncles'' = Some (JHashes (map (he_hash H) (blk_Uncles block))) \<and>
        map_of obj ''number'' = Some (JBig (hd_Number (blk_Header block))) \<and>
        map_of obj ''baseFeePerGas'' = map_option JBig (hd_BaseFee (blk_Header block)) \<and>
        map_of obj ''transactions'' =
          (if inclTx then Some (JHashes (map (te_hash T) (blk_Transactions block))) else None))"
  by (auto simp: RPCMarshalBlock_def RPCMarshalHeader_def Let_def split: option.splits)

end
