(* ===== verification/Bind.thy ===== *)
theory Bind
  imports Constant
begin

text \<open>
  What the generated contract bindings (\<^verbatim>\<open>multisend/gen_*.go\<close>) are made of: values and types of the
  contract ABI, the calls of go-ethereum's \<^verbatim>\<open>bind\<close> package, which are the parameter \<open>bind_env\<close>, and the code that
  is the same in every binding: a call whose results are converted to Go types, the iterator over
  the logs of an event, and the loop that forwards the logs of a subscription.
\<close>

section \<open>Values of the contract ABI\<close>

datatype abi_type = TyString | TyAddress | TyUint256 | TyUint8 | TyBool | TyBytes | TyBytes32 | TyAddressArray

datatype abi_value =
    AString string
  | AAddress address
  | ABig int
  | AUint8 "8 word"
  | ABool bool
  | ABytes bytes
  | ABytes32 hash
  | AAddressArray "address list"

fun type_of :: "abi_value \<Rightarrow> abi_type" where
  "type_of (AString x) = TyString"
| "type_of (AAddress x) = TyAddress"
| "type_of (ABig x) = TyUint256"
| "type_of (AUint8 x) = TyUint8"
| "type_of (ABool x) = TyBool"
| "type_of (ABytes x) = TyBytes"
| "type_of (ABytes32 x) = TyBytes32"
| "type_of (AAddressArray x) = TyAddressArray"

text \<open>An interface description: functions with the types of their inputs and outputs, events with
  the types of their fields, each marked when it is indexed.\<close>

record abi =
  abi_methods :: "(string \<times> abi_type list \<times> abi_type list) list"
  abi_events :: "(string \<times> (abi_type \<times> bool) list) list"

definition typed_args :: "abi \<Rightarrow> string \<Rightarrow> abi_value list \<Rightarrow> bool" where
  "typed_args A m args \<longleftrightarrow> (case map_of (abi_methods A) m of
     Some (ins, outs) \<Rightarrow> map type_of args = ins | None \<Rightarrow> False)"

definition typed_outputs :: "abi \<Rightarrow> string \<Rightarrow> abi_value list \<Rightarrow> bool" where
  "typed_outputs A m out \<longleftrightarrow> (case map_of (abi_methods A) m of
     Some (ins, outs) \<Rightarrow> map type_of out = outs | None \<Rightarrow> False)"

definition indexed_types :: "abi \<Rightarrow> string \<Rightarrow> abi_type list option" where
  "indexed_types A e = map_option (\<lambda>fs. map fst (filter snd fs)) (map_of (abi_events A) e)"

text \<open>A query for an event: for each indexed field the values it may have.\<close>

definition typed_query :: "abi \<Rightarrow> string \<Rightarrow> abi_value list list \<Rightarrow> bool" where
  "typed_query A e query \<longleftrightarrow> (case indexed_types A e of
     Some ts \<Rightarrow> list_all2 (\<lambda>t vs. \<forall>v\<in>set vs. type_of v = t) ts query | None \<Rightarrow> False)"

section \<open>The bind package\<close>

record CallOpts =
  co_Pending :: bool
  co_From :: address
  co_BlockNumber :: "int option"

record TransactOpts =
  to_From :: address
  to_Nonce :: "int option"
  to_Value :: "int option"
  to_GasLimit :: u64

record FilterOpts =
  fo_Start :: u64
  fo_End :: "u64 option"

text \<open>A contract at an address; of the node's client only whether it was passed on (it is nil otherwise).\<close>

record BoundContract =
  bc_address :: address
  bc_abi :: abi
  bc_caller :: bool
  bc_transactor :: bool
  bc_filterer :: bool

text \<open>What a subscription delivers: logs, then an error or, when it ends in order, nil.\<close>

record subscription =
  sub_logs :: "Log list"
  sub_Err :: "string option"

text \<open>
  The parameters: the parser of interface descriptions, the packer of arguments, and what the methods of a
  bound contract do at a time. A transaction may panic, which is \<^const>\<open>None\<close>: its options are
  read without a test for nil.
\<close>

record bind_env =
  be_JSON :: "abi \<Rightarrow> string option"
  be_Pack :: "abi \<Rightarrow> string \<Rightarrow> abi_value list \<Rightarrow> string + bytes"
  be_Call :: "nat \<Rightarrow> BoundContract \<Rightarrow> CallOpts option \<Rightarrow> string \<Rightarrow> abi_value list \<Rightarrow> string + abi_value list"
  be_Transact :: "nat \<Rightarrow> BoundContract \<Rightarrow> TransactOpts option \<Rightarrow> string \<Rightarrow> abi_value list \<Rightarrow> (string + Transaction) option"
  be_RawTransact :: "nat \<Rightarrow> BoundContract \<Rightarrow> TransactOpts option \<Rightarrow> bytes \<Rightarrow> (string + Transaction) option"
  be_Transfer :: "nat \<Rightarrow> BoundContract \<Rightarrow> TransactOpts option \<Rightarrow> (string + Transaction) option"
  be_FilterLogs :: "nat \<Rightarrow> BoundContract \<Rightarrow> FilterOpts option \<Rightarrow> string \<Rightarrow> abi_value list list \<Rightarrow> string + subscription"
  be_WatchLogs :: "nat \<Rightarrow> BoundContract \<Rightarrow> u64 option \<Rightarrow> string \<Rightarrow> abi_value list list \<Rightarrow> string + unit"
  be_UnpackLog :: "BoundContract \<Rightarrow> string \<Rightarrow> Log \<Rightarrow> string + abi_value list"
  be_Mismatch :: "string \<Rightarrow> abi_value list \<Rightarrow> string"
  be_Unsubscribe :: "subscription \<Rightarrow> subscription"

text \<open>A request to a node: it may depend on the time, and time passes.\<close>

definition ask :: "(nat \<Rightarrow> 'a) \<Rightarrow> world \<Rightarrow> 'a \<times> world" where
  "ask f w = (f (clock w), w\<lparr>clock := Suc (clock w)\<rparr>)"

text \<open>\<^verbatim>\<open>abi.JSON\<close> and \<^verbatim>\<open>bind.NewBoundContract\<close>, as every binding calls them.\<close>

definition bind_contract :: "bind_env \<Rightarrow> abi \<Rightarrow> address \<Rightarrow> bool \<Rightarrow> bool \<Rightarrow> bool \<Rightarrow> string + BoundContract" where
  "bind_contract B A address caller transactor filterer = (case be_JSON B A of
     Some err \<Rightarrow> Inl err
   | None \<Rightarrow> Inr \<lparr>bc_address = address, bc_abi = A, bc_caller = caller, bc_transactor = transactor, bc_filterer = filterer\<rparr>)"

section \<open>Calls with converted results\<close>

text \<open>The type assertions on the results of \<^verbatim>\<open>abi.ConvertType\<close>, which panic on another type.\<close>

definition to_string :: "abi_value \<Rightarrow> string option" where
  "to_string v = (case v of AString x \<Rightarrow> Some x | _ \<Rightarrow> None)"

definition to_address :: "abi_value \<Rightarrow> address option" where
  "to_address v = (case v of AAddress x \<Rightarrow> Some x | _ \<Rightarrow> None)"

definition to_big :: "abi_value \<Rightarrow> int option" where
  "to_big v = (case v of ABig x \<Rightarrow> Some x | _ \<Rightarrow> None)"

definition to_uint8 :: "abi_value \<Rightarrow> 8 word option" where
  "to_uint8 v = (case v of AUint8 x \<Rightarrow> Some x | _ \<Rightarrow> None)"

definition to_bool :: "abi_value \<Rightarrow> bool option" where
  "to_bool v = (case v of ABool x \<Rightarrow> Some x | _ \<Rightarrow> None)"

definition to_bytes :: "abi_value \<Rightarrow> bytes option" where
  "to_bytes v = (case v of ABytes x \<Rightarrow> Some x | _ \<Rightarrow> None)"

definition to_bytes32 :: "abi_value \<Rightarrow> hash option" where
  "to_bytes32 v = (case v of ABytes32 x \<Rightarrow> Some x | _ \<Rightarrow> None)"

definition to_addresses :: "abi_value \<Rightarrow> address list option" where
  "to_addresses v = (case v of AAddressArray x \<Rightarrow> Some x | _ \<Rightarrow> None)"

lemmas to_defs = to_string_def to_address_def to_big_def to_uint8_def to_bool_def to_bytes_def to_bytes32_def to_addresses_def

text \<open>A call: the converter \<open>conv\<close> reads the Go results off the list of outputs.\<close>

definition call_with ::
  "bind_env \<Rightarrow> BoundContract \<Rightarrow> CallOpts option \<Rightarrow> string \<Rightarrow> abi_value list \<Rightarrow> (abi_value list \<Rightarrow> 'a option) \<Rightarrow> world \<Rightarrow>
   ((string + 'a) \<times> world) option" where
  "call_with B c opts m args conv w = (case ask (\<lambda>t. be_Call B t c opts m args) w of
     (Inl err, w1) \<Rightarrow> Some (Inl err, w1)
   | (Inr out, w1) \<Rightarrow> map_option (\<lambda>x. (Inr x, w1)) (conv out))"

definition out0 :: "(abi_value \<Rightarrow> 'a option) \<Rightarrow> abi_value list \<Rightarrow> 'a option" where
  "out0 f out = do { v \<leftarrow> go_index out 0; f v }"

definition out1 :: "(abi_value \<Rightarrow> 'a option) \<Rightarrow> abi_value list \<Rightarrow> 'a option" where
  "out1 f out = do { v \<leftarrow> go_index out 1; f v }"

definition transact_with ::
  "bind_env \<Rightarrow> BoundContract \<Rightarrow> TransactOpts option \<Rightarrow> string \<Rightarrow> abi_value list \<Rightarrow> world \<Rightarrow> ((string + Transaction) \<times> world) option" where
  "transact_with B c opts m args w = (case ask (\<lambda>t. be_Transact B t c opts m args) w of
     (r, w1) \<Rightarrow> map_option (\<lambda>x. (x, w1)) r)"

definition raw_transact_with ::
  "bind_env \<Rightarrow> BoundContract \<Rightarrow> TransactOpts option \<Rightarrow> bytes \<Rightarrow> world \<Rightarrow> ((string + Transaction) \<times> world) option" where
  "raw_transact_with B c opts data w = (case ask (\<lambda>t. be_RawTransact B t c opts data) w of
     (r, w1) \<Rightarrow> map_option (\<lambda>x. (x, w1)) r)"

definition transfer_with ::
  "bind_env \<Rightarrow> BoundContract \<Rightarrow> TransactOpts option \<Rightarrow> world \<Rightarrow> ((string + Transaction) \<times> world) option" where
  "transfer_with B c opts w = (case ask (\<lambda>t. be_Transfer B t c opts) w of
     (r, w1) \<Rightarrow> map_option (\<lambda>x. (x, w1)) r)"

section \<open>Iterating over the logs of an event\<close>

text \<open>
  Unpacking a log into the struct of an event: the values of the fields come in the order of the interface and \<open>conv\<close> copies
  them into the struct, which is an error when their types are other ones.
\<close>

definition unpack_log :: "bind_env \<Rightarrow> BoundContract \<Rightarrow> string \<Rightarrow> (abi_value list \<Rightarrow> 'e option) \<Rightarrow> Log \<Rightarrow> string + 'e" where
  "unpack_log B c name conv log = (case be_UnpackLog B c name log of
     Inl err \<Rightarrow> Inl err
   | Inr vs \<Rightarrow> (case conv vs of None \<Rightarrow> Inl (be_Mismatch B name vs) | Some e \<Rightarrow> Inr e))"

text \<open>
  An iterator over the events of a struct type \<open>'e\<close>. What a log that does not unpack leaves in the event is not modelled: the event is
  \<^const>\<open>None\<close> then.
\<close>

record 'e iterator =
  it_Event :: "'e option"
  it_contract :: BoundContract
  it_event :: string
  it_sub :: subscription
  it_done :: bool
  it_fail :: "string option"

definition new_iterator :: "BoundContract \<Rightarrow> string \<Rightarrow> subscription \<Rightarrow> 'e iterator" where
  "new_iterator c name s = \<lparr>it_Event = None, it_contract = c, it_event = name, it_sub = s, it_done = False, it_fail = None\<rparr>"

definition take_log :: "(Log \<Rightarrow> string + 'e) \<Rightarrow> Log \<Rightarrow> Log list \<Rightarrow> 'e iterator \<Rightarrow> bool \<times> 'e iterator" where
  "take_log unpack log rest it = (let it1 = it\<lparr>it_sub := (it_sub it)\<lparr>sub_logs := rest\<rparr>\<rparr> in
     (case unpack log of
        Inl err \<Rightarrow> (False, it1\<lparr>it_Event := None, it_fail := Some err\<rparr>)
      | Inr ev \<Rightarrow> (True, it1\<lparr>it_Event := Some ev\<rparr>)))"

text \<open>
  The flag \<open>err_first\<close> is the choice of the \<^verbatim>\<open>select\<close> statement when a log and the end of the subscription are both ready; with
  no log left it waits for the end.
\<close>

function iterator_Next :: "(Log \<Rightarrow> string + 'e) \<Rightarrow> bool \<Rightarrow> 'e iterator \<Rightarrow> bool \<times> 'e iterator" where
  "iterator_Next unpack err_first it =
     (if it_fail it \<noteq> None then (False, it)
      else if it_done it then
        (case sub_logs (it_sub it) of
           log # rest \<Rightarrow> take_log unpack log rest it
         | [] \<Rightarrow> (False, it))
      else
        (case sub_logs (it_sub it) of
           log # rest \<Rightarrow>
             if err_first then iterator_Next unpack err_first (it\<lparr>it_done := True, it_fail := sub_Err (it_sub it)\<rparr>)
             else take_log unpack log rest it
         | [] \<Rightarrow> iterator_Next unpack err_first (it\<lparr>it_done := True, it_fail := sub_Err (it_sub it)\<rparr>)))"
  by pat_completeness auto

termination by (relation "measure (\<lambda>(u, e, it). if it_done it then 0 else 1)") auto

declare iterator_Next.simps [simp del]

definition iterator_Error :: "'e iterator \<Rightarrow> string option" where
  "iterator_Error it = it_fail it"

definition iterator_Close :: "bind_env \<Rightarrow> 'e iterator \<Rightarrow> 'e iterator" where
  "iterator_Close B it = it\<lparr>it_sub := be_Unsubscribe B (it_sub it)\<rparr>"

text \<open>\<^verbatim>\<open>Filter\<close> operations: the query, then an iterator over what it found.\<close>

definition filter_logs ::
  "bind_env \<Rightarrow> BoundContract \<Rightarrow> FilterOpts option \<Rightarrow> string \<Rightarrow> abi_value list list \<Rightarrow> world \<Rightarrow> (string + 'e iterator) \<times> world" where
  "filter_logs B c opts name query w = (case ask (\<lambda>t. be_FilterLogs B t c opts name query) w of
     (Inl err, w1) \<Rightarrow> (Inl err, w1)
   | (Inr s, w1) \<Rightarrow> (Inr (new_iterator c name s), w1))"

section \<open>Forwarding the logs of a subscription\<close>

text \<open>
  The goroutine of a \<^verbatim>\<open>Watch\<close> operation. Each round of its loop has the outcome of the first \<^verbatim>\<open>select\<close> and, when that
  was a log, of the second. The result is what was sent to the sink and, once the goroutine has returned, what it returned;
  the subscription, which it cancels then, is not used again.
\<close>

datatype recv = RecvLog Log | RecvErr "string option" | RecvQuit

datatype send = SendOk | SendErr "string option" | SendQuit

fun watch_loop :: "(Log \<Rightarrow> string + 'e) \<Rightarrow> (recv \<times> send) list \<Rightarrow> 'e list \<Rightarrow> 'e list \<times> string option option" where
  "watch_loop unpack [] sink = (sink, None)"
| "watch_loop unpack ((r, s) # rounds) sink = (case r of
     RecvLog log \<Rightarrow>
       (case unpack log of
          Inl err \<Rightarrow> (sink, Some (Some err))
        | Inr event \<Rightarrow>
            (case s of
               SendOk \<Rightarrow> watch_loop unpack rounds (sink @ [event])
             | SendErr err \<Rightarrow> (sink, Some err)
             | SendQuit \<Rightarrow> (sink, Some None)))
   | RecvErr err \<Rightarrow> (sink, Some err)
   | RecvQuit \<Rightarrow> (sink, Some None))"

definition watch_logs ::
  "bind_env \<Rightarrow> BoundContract \<Rightarrow> u64 option \<Rightarrow> string \<Rightarrow> abi_value list list \<Rightarrow> (Log \<Rightarrow> string + 'e) \<Rightarrow> (recv \<times> send) list \<Rightarrow> world \<Rightarrow>
   (string + 'e list \<times> string option option) \<times> world" where
  "watch_logs B c opts name query unpack rounds w = (case ask (\<lambda>t. be_WatchLogs B t c opts name query) w of
     (Inl err, w1) \<Rightarrow> (Inl err, w1)
   | (Inr s, w1) \<Rightarrow> (Inr (watch_loop unpack rounds []), w1))"

section \<open>Typed calls\<close>

text \<open>An environment in which only calls that fit the interface reach the node.\<close>

definition only_typed :: "abi \<Rightarrow> bind_env \<Rightarrow> bind_env" where
  "only_typed A B = B\<lparr>
     be_Call := (\<lambda>t c opts m args. if typed_args A m args then be_Call B t c opts m args else Inl ''''),
     be_Transact := (\<lambda>t c opts m args. if typed_args A m args then be_Transact B t c opts m args else None),
     be_FilterLogs := (\<lambda>t c opts e query. if typed_query A e query then be_FilterLogs B t c opts e query else Inl ''''),
     be_WatchLogs := (\<lambda>t c opts e query. if typed_query A e query then be_WatchLogs B t c opts e query else Inl ''''),
     be_UnpackLog := (\<lambda>c e log. if map_of (abi_events A) e = None then Inl '''' else be_UnpackLog B c e log)\<rparr>"

text \<open>The documented behaviour of \<^verbatim>\<open>BoundContract.Call\<close>: what it unpacks has the types of the interface.\<close>

definition typed_answers :: "abi \<Rightarrow> bind_env \<Rightarrow> bool" where
  "typed_answers A B \<longleftrightarrow> (\<forall>t c opts m args out. bc_abi c = A \<longrightarrow> typed_args A m args \<longrightarrow>
     be_Call B t c opts m args = Inr out \<longrightarrow> typed_outputs A m out)"

lemma call_with_typed: "typed_args A m args \<Longrightarrow> call_with (only_typed A B) c opts m args conv = call_with B c opts m args conv"
  by (simp add: call_with_def only_typed_def fun_eq_iff)

lemma transact_with_typed: "typed_args A m args \<Longrightarrow> transact_with (only_typed A B) c opts m args = transact_with B c opts m args"
  by (simp add: transact_with_def only_typed_def fun_eq_iff)

lemma filter_logs_typed: "typed_query A e q \<Longrightarrow> filter_logs (only_typed A B) c opts e q = filter_logs B c opts e q"
  by (simp add: filter_logs_def only_typed_def fun_eq_iff)

lemma watch_logs_typed: "typed_query A e q \<Longrightarrow> watch_logs (only_typed A B) c opts e q = watch_logs B c opts e q"
  by (simp add: watch_logs_def only_typed_def fun_eq_iff)

lemma unpack_log_typed: "map_of (abi_events A) e \<noteq> None \<Longrightarrow> unpack_log (only_typed A B) c e conv = unpack_log B c e conv"
  by (auto simp: unpack_log_def only_typed_def fun_eq_iff split: sum.split option.split)

lemmas with_typed = call_with_typed transact_with_typed filter_logs_typed watch_logs_typed unpack_log_typed

lemma call_with_returns:
  assumes "typed_answers A B" "bc_abi c = A" "typed_args A m args" "\<And>out. typed_outputs A m out \<Longrightarrow> conv out \<noteq> None"
  shows "call_with B c opts m args conv w \<noteq> None"
proof (cases "be_Call B (clock w) c opts m args")
  case (Inr out)
  with assms have "conv out \<noteq> None" unfolding typed_answers_def by blast
  with Inr show ?thesis by (auto simp: call_with_def ask_def)
qed (simp add: call_with_def ask_def)

lemma type_of_eq:
  "type_of v = TyString \<longleftrightarrow> (\<exists>x. v = AString x)" "type_of v = TyAddress \<longleftrightarrow> (\<exists>x. v = AAddress x)"
  "type_of v = TyUint256 \<longleftrightarrow> (\<exists>x. v = ABig x)" "type_of v = TyUint8 \<longleftrightarrow> (\<exists>x. v = AUint8 x)"
  "type_of v = TyBool \<longleftrightarrow> (\<exists>x. v = ABool x)" "type_of v = TyBytes \<longleftrightarrow> (\<exists>x. v = ABytes x)"
  "type_of v = TyBytes32 \<longleftrightarrow> (\<exists>x. v = ABytes32 x)" "type_of v = TyAddressArray \<longleftrightarrow> (\<exists>x. v = AAddressArray x)"
  by (cases v; simp)+

section \<open>What an iterator yields\<close>

text \<open>The reference: the logs are unpacked in their order, up to the first that does not unpack.\<close>

fun decode_logs :: "(Log \<Rightarrow> string + 'e) \<Rightarrow> Log list \<Rightarrow> 'e list \<times> string option" where
  "decode_logs unpack [] = ([], None)"
| "decode_logs unpack (log # logs) = (case unpack log of
     Inl err \<Rightarrow> ([], Some err)
   | Inr e \<Rightarrow> (let (es, err) = decode_logs unpack logs in (e # es, err)))"

text \<open>The loop \<^verbatim>\<open>for it.Next() { ... }\<close> of a client, with the choices of the successive calls.\<close>

fun drain :: "(bool \<Rightarrow> 'e iterator \<Rightarrow> bool \<times> 'e iterator) \<Rightarrow> bool list \<Rightarrow> 'e iterator \<Rightarrow> ('e list \<times> 'e iterator) option" where
  "drain it_Next [] it = None"
| "drain it_Next (c # cs) it = (case it_Next c it of
     (False, it1) \<Rightarrow> Some ([], it1)
   | (True, it1) \<Rightarrow> do { e \<leftarrow> it_Event it1; (es, it2) \<leftarrow> drain it_Next cs it1; Some (e # es, it2) })"

text \<open>The end of the subscription is a step that loses no log: the call goes on as one on a finished iterator.\<close>

lemma Next_flags:
  assumes "it_fail it = None" "sub_Err (it_sub it) = None"
  shows "iterator_Next unpack c it = (case sub_logs (it_sub it) of
      [] \<Rightarrow> (False, it\<lparr>it_done := True\<rparr>)
    | log # rest \<Rightarrow> take_log unpack log rest (it\<lparr>it_done := it_done it \<or> c\<rparr>))"
  using assms by (cases it; cases "sub_logs (it_sub it)"; cases "it_done it"; cases c)
    (simp_all add: iterator_Next.simps [of unpack])

lemma iterator_Next_same:
  "iterator_Next unpack c it = (b, it1) \<Longrightarrow> it_contract it1 = it_contract it \<and> it_event it1 = it_event it"
  by (induction unpack c it rule: iterator_Next.induct)
    (subst (asm) iterator_Next.simps, auto simp: take_log_def Let_def split: if_splits list.splits sum.splits)

lemma drain_decodes:
  assumes "it_fail it = None" "sub_Err (it_sub it) = None" "length (sub_logs (it_sub it)) < length cs"
  shows "\<exists>it'. drain (iterator_Next unpack) cs it = Some (fst (decode_logs unpack (sub_logs (it_sub it))), it') \<and>
    iterator_Error it' = snd (decode_logs unpack (sub_logs (it_sub it)))"
  using assms
proof (induction cs arbitrary: it)
  case (Cons c cs)
  show ?case
  proof (cases "sub_logs (it_sub it)")
    case Nil
    with Cons.prems show ?thesis by (simp add: Next_flags iterator_Error_def)
  next
    case l: (Cons log rest)
    show ?thesis
    proof (cases "unpack log")
      case (Inl err)
      with l Cons.prems show ?thesis by (simp add: Next_flags take_log_def Let_def iterator_Error_def)
    next
      case (Inr e)
      let ?it = "it\<lparr>it_done := it_done it \<or> c, it_sub := (it_sub it)\<lparr>sub_logs := rest\<rparr>, it_Event := Some e\<rparr>"
      from l Cons.prems Cons.IH [of ?it] obtain it' where
        "drain (iterator_Next unpack) cs ?it = Some (fst (decode_logs unpack rest), it')"
        "iterator_Error it' = snd (decode_logs unpack rest)" by auto
      with l Inr Cons.prems show ?thesis by (simp add: Next_flags take_log_def Let_def split: prod.split)
    qed
  qed
qed simp

section \<open>What a subscription forwards\<close>

definition received :: "(recv \<times> send) list \<Rightarrow> Log list" where
  "received rounds = concat (map (\<lambda>(r, s). case r of RecvLog log \<Rightarrow> [log] | _ \<Rightarrow> []) rounds)"

lemma watch_loop_sends:
  assumes "watch_loop unpack rounds sink = (sink', ret)"
  shows "\<exists>es. sink' = sink @ es \<and> map Inr es = map unpack (take (length es) (received rounds)) \<and>
    (ret = None \<longrightarrow> length es = length rounds)"
  using assms
proof (induction rounds arbitrary: sink)
  case (Cons x rounds)
  obtain r s where x: "x = (r, s)" by (cases x)
  show ?case
  proof (cases "\<exists>log e. r = RecvLog log \<and> unpack log = Inr e \<and> s = SendOk")
    case True
    then obtain log e where r: "r = RecvLog log" "unpack log = Inr e" "s = SendOk" by blast
    with Cons.prems x have "watch_loop unpack rounds (sink @ [e]) = (sink', ret)" by simp
    from Cons.IH [OF this] obtain es where
      "sink' = (sink @ [e]) @ es" "map Inr es = map unpack (take (length es) (received rounds))"
      "ret = None \<longrightarrow> length es = length rounds" by blast
    with r x show ?thesis by (intro exI [of _ "e # es"]) (simp add: received_def)
  next
    case False
    with Cons.prems x have "sink' = sink" "ret \<noteq> None" by (auto split: recv.splits sum.splits send.splits)
    then show ?thesis by simp
  qed
qed (auto simp: received_def)

end
