(* ===== verification/GnosisSafe.thy ===== *)
theory GnosisSafe
  imports Bind
begin

text \<open>
  \<^verbatim>\<open>multisend/gen_gnosissafe.go\<close>, first part: the interface of the Gnosis Safe contract, the constructors of its
  binding, one operation per view function (a call whose results are converted) and one per other function (a transaction).
\<close>

section \<open>The interface\<close>

text \<open>The functions and events of the text \<^verbatim>\<open>GnosisSafeABI\<close>, in its order.\<close>

definition GnosisSafeABI :: abi where
  "GnosisSafeABI = \<lparr>
     abi_methods = [
       (''VERSION'', [], [TyString]),
       (''addOwnerWithThreshold'', [TyAddress, TyUint256], []),
       (''approveHash'', [TyBytes32], []),
       (''approvedHashes'', [TyAddress, TyBytes32], [TyUint256]),
       (''changeThreshold'', [TyUint256], []),
       (''checkNSignatures'', [TyBytes32, TyBytes, TyBytes, TyUint256], []),
       (''checkSignatures'', [TyBytes32, TyBytes, TyBytes], []),
       (''disableModule'', [TyAddress, TyAddress], []),
       (''domainSeparator'', [], [TyBytes32]),
       (''enableModule'', [TyAddress], []),
       (''encodeTransactionData'', [TyAddress, TyUint256, TyBytes, TyUint8, TyUint256, TyUint256, TyUint256, TyAddress, TyAddress, TyUint256], [TyBytes]),
       (''execTransaction'', [TyAddress, TyUint256, TyBytes, TyUint8, TyUint256, TyUint256, TyUint256, TyAddress, TyAddress, TyBytes], [TyBool]),
       (''execTransactionFromModule'', [TyAddress, TyUint256, TyBytes, TyUint8], [TyBool]),
       (''execTransactionFromModuleReturnData'', [TyAddress, TyUint256, TyBytes, TyUint8], [TyBool, TyBytes]),
       (''getChainId'', [], [TyUint256]),
       (''getModulesPaginated'', [TyAddress, TyUint256], [TyAddressArray, TyAddress]),
       (''getOwners'', [], [TyAddressArray]),
       (''getStorageAt'', [TyUint256, TyUint256], [TyBytes]),
       (''getThreshold'', [], [TyUint256]),
       (''getTransactionHash'', [TyAddress, TyUint256, TyBytes, TyUint8, TyUint256, TyUint256, TyUint256, TyAddress, TyAddress, TyUint256], [TyBytes32]),
       (''isModuleEnabled'', [TyAddress], [TyBool]),
       (''isOwner'', [TyAddress], [TyBool]),
       (''nonce'', [], [TyUint256]),
       (''removeOwner'', [TyAddress, TyAddress, TyUint256], []),
       (''requiredTxGas'', [TyAddress, TyUint256, TyBytes, TyUint8], [TyUint256]),
       (''setFallbackHandler'', [TyAddress], []),
       (''setGuard'', [TyAddress], []),
       (''setup'', [TyAddressArray, TyUint256, TyAddress, TyBytes, TyAddress, TyAddress, TyUint256, TyAddress], []),
       (''signedMessages'', [TyBytes32], [TyUint256]),
       (''simulateAndRevert'', [TyAddress, TyBytes], []),
       (''swapOwner'', [TyAddress, TyAddress, TyAddress], [])],
     abi_events = [
       (''AddedOwner'', [(TyAddress, False)]),
       (''ApproveHash'', [(TyBytes32, True), (TyAddress, True)]),
       (''ChangedFallbackHandler'', [(TyAddress, False)]),
       (''ChangedGuard'', [(TyAddress, False)]),
       (''ChangedThreshold'', [(TyUint256, False)]),
       (''DisabledModule'', [(TyAddress, False)]),
       (''EnabledModule'', [(TyAddress, False)]),
       (''ExecutionFailure'', [(TyBytes32, False), (TyUint256, False)]),
       (''ExecutionFromModuleFailure'', [(TyAddress, True)]),
       (''ExecutionFromModuleSuccess'', [(TyAddress, True)]),
       (''ExecutionSuccess'', [(TyBytes32, False), (TyUint256, False)]),
       (''RemovedOwner'', [(TyAddress, False)]),
       (''SafeReceived'', [(TyAddress, True), (TyUint256, False)]),
       (''SafeSetup'', [(TyAddress, True), (TyAddressArray, False), (TyUint256, False), (TyAddress, False), (TyAddress, False)]),
       (''SignMsg'', [(TyBytes32, True)])]\<rparr>"

lemmas GnosisSafe_sel = arg_cong [OF GnosisSafeABI_def, of abi_methods, simplified] arg_cong [OF GnosisSafeABI_def, of abi_events, simplified]

section \<open>Constructors\<close>

record GnosisSafe =
  GnosisSafeCaller :: BoundContract
  GnosisSafeTransactor :: BoundContract
  GnosisSafeFilterer :: BoundContract

definition bindGnosisSafe :: "bind_env \<Rightarrow> address \<Rightarrow> bool \<Rightarrow> bool \<Rightarrow> bool \<Rightarrow> string + BoundContract" where
  "bindGnosisSafe B address caller transactor filterer = bind_contract B GnosisSafeABI address caller transactor filterer"

definition NewGnosisSafe :: "bind_env \<Rightarrow> address \<Rightarrow> string + GnosisSafe" where
  "NewGnosisSafe B address = (case bindGnosisSafe B address True True True of
     Inl err \<Rightarrow> Inl err
   | Inr contract \<Rightarrow> Inr \<lparr>GnosisSafeCaller = contract, GnosisSafeTransactor = contract, GnosisSafeFilterer = contract\<rparr>)"

definition NewGnosisSafeCaller :: "bind_env \<Rightarrow> address \<Rightarrow> string + BoundContract" where
  "NewGnosisSafeCaller B address = bindGnosisSafe B address True False False"

definition NewGnosisSafeTransactor :: "bind_env \<Rightarrow> address \<Rightarrow> string + BoundContract" where
  "NewGnosisSafeTransactor B address = bindGnosisSafe B address False True False"

definition NewGnosisSafeFilterer :: "bind_env \<Rightarrow> address \<Rightarrow> string + BoundContract" where
  "NewGnosisSafeFilterer B address = bindGnosisSafe B address False False True"

text \<open>The raw operations of the binding, which leave method and arguments to the caller.\<close>

definition GnosisSafeRaw_Call ::
  "bind_env \<Rightarrow> GnosisSafe \<Rightarrow> CallOpts option \<Rightarrow> string \<Rightarrow> abi_value list \<Rightarrow> world \<Rightarrow> ((string + abi_value list) \<times> world) option" where
  "GnosisSafeRaw_Call B safe opts method params = call_with B (GnosisSafeCaller safe) opts method params Some"

definition GnosisSafeRaw_Transfer ::
  "bind_env \<Rightarrow> GnosisSafe \<Rightarrow> TransactOpts option \<Rightarrow> world \<Rightarrow> ((string + Transaction) \<times> world) option" where
  "GnosisSafeRaw_Transfer B safe opts = transfer_with B (GnosisSafeTransactor safe) opts"

definition GnosisSafeRaw_Transact ::
  "bind_env \<Rightarrow> GnosisSafe \<Rightarrow> TransactOpts option \<Rightarrow> string \<Rightarrow> abi_value list \<Rightarrow> world \<Rightarrow> ((string + Transaction) \<times> world) option" where
  "GnosisSafeRaw_Transact B safe opts method params = transact_with B (GnosisSafeTransactor safe) opts method params"

section \<open>Calls of view functions\<close>

definition GnosisSafe_VERSION ::
  "bind_env \<Rightarrow> BoundContract \<Rightarrow> CallOpts option \<Rightarrow> world \<Rightarrow>
   ((string + string) \<times> world) option" where
  "GnosisSafe_VERSION B c opts =
     call_with B c opts ''VERSION'' [] (out0 to_string)"

definition GnosisSafe_ApprovedHashes ::
  "bind_env \<Rightarrow> BoundContract \<Rightarrow> CallOpts option \<Rightarrow> address \<Rightarrow> hash \<Rightarrow> world \<Rightarrow>
   ((string + int) \<times> world) option" where
  "GnosisSafe_ApprovedHashes B c opts arg0 arg1 =
     call_with B c opts ''approvedHashes'' [AAddress arg0, ABytes32 arg1] (out0 to_big)"

definition GnosisSafe_CheckNSignatures ::
  "bind_env \<Rightarrow> BoundContract \<Rightarrow> CallOpts option \<Rightarrow> hash \<Rightarrow> bytes \<Rightarrow> bytes \<Rightarrow> int \<Rightarrow> world \<Rightarrow>
   ((string + unit) \<times> world) option" where
  "GnosisSafe_CheckNSignatures B c opts dataHash data signatures requiredSignatures =
     call_with B c opts ''checkNSignatures'' [ABytes32 dataHash, ABytes data, ABytes signatures, ABig requiredSignatures] (\<lambda>out. Some ())"

definition GnosisSafe_CheckSignatures ::
  "bind_env \<Rightarrow> BoundContract \<Rightarrow> CallOpts option \<Rightarrow> hash \<Rightarrow> bytes \<Rightarrow> bytes \<Rightarrow> world \<Rightarrow>
   ((string + unit) \<times> world) option" where
  "GnosisSafe_CheckSignatures B c opts dataHash data signatures =
     call_with B c opts ''checkSignatures'' [ABytes32 dataHash, ABytes data, ABytes signatures] (\<lambda>out. Some ())"

definition GnosisSafe_DomainSeparator ::
  "bind_env \<Rightarrow> BoundContract \<Rightarrow> CallOpts option \<Rightarrow> world \<Rightarrow>
   ((string + hash) \<times> world) option" where
  "GnosisSafe_DomainSeparator B c opts =
     call_with B c opts ''domainSeparator'' [] (out0 to_bytes32)"

definition GnosisSafe_EncodeTransactionData ::
  "bind_env \<Rightarrow> BoundContract \<Rightarrow> CallOpts option \<Rightarrow> address \<Rightarrow> int \<Rightarrow> bytes \<Rightarrow> 8 word \<Rightarrow> int \<Rightarrow> int \<Rightarrow> int \<Rightarrow> address \<Rightarrow> address \<Rightarrow> int \<Rightarrow> world \<Rightarrow>
   ((string + bytes) \<times> world) option" where
  "GnosisSafe_EncodeTransactionData B c opts to val data operation safeTxGas baseGas gasPrice gasToken refundReceiver nonce =
     call_with B c opts ''encodeTransactionData'' [AAddress to, ABig val, ABytes data, AUint8 operation, ABig safeTxGas, ABig baseGas, ABig gasPrice, AAddress gasToken, AAddress refundReceiver, ABig nonce] (out0 to_bytes)"

definition GnosisSafe_GetChainId ::
  "bind_env \<Rightarrow> BoundContract \<Rightarrow> CallOpts option \<Rightarrow> world \<Rightarrow>
   ((string + int) \<times> world) option" where
  "GnosisSafe_GetChainId B c opts =
     call_with B c opts ''getChainId'' [] (out0 to_big)"

definition GnosisSafe_GetModulesPaginated ::
  "bind_env \<Rightarrow> BoundContract \<Rightarrow> CallOpts option \<Rightarrow> address \<Rightarrow> int \<Rightarrow> world \<Rightarrow>
   ((string + address list \<times> address) \<times> world) option" where
  "GnosisSafe_GetModulesPaginated B c opts start pageSize =
     call_with B c opts ''getModulesPaginated'' [AAddress start, ABig pageSize] (\<lambda>out. do { array \<leftarrow> out0 to_addresses out; nxt \<leftarrow> out1 to_address out; Some (array, nxt) })"

definition GnosisSafe_GetOwners ::
  "bind_env \<Rightarrow> BoundContract \<Rightarrow> CallOpts option \<Rightarrow> world \<Rightarrow>
   ((string + address list) \<times> world) option" where
  "GnosisSafe_GetOwners B c opts =
     call_with B c opts ''getOwners'' [] (out0 to_addresses)"

definition GnosisSafe_GetStorageAt ::
  "bind_env \<Rightarrow> BoundContract \<Rightarrow> CallOpts option \<Rightarrow> int \<Rightarrow> int \<Rightarrow> world \<Rightarrow>
   ((string + bytes) \<times> world) option" where
  "GnosisSafe_GetStorageAt B c opts offset len =
     call_with B c opts ''getStorageAt'' [ABig offset, ABig len] (out0 to_bytes)"

definition GnosisSafe_GetThreshold ::
  "bind_env \<Rightarrow> BoundContract \<Rightarrow> CallOpts option \<Rightarrow> world \<Rightarrow>
   ((string + int) \<times> world) option" where
  "GnosisSafe_GetThreshold B c opts =
     call_with B c opts ''getThreshold'' [] (out0 to_big)"

definition GnosisSafe_GetTransactionHash ::
  "bind_env \<Rightarrow> BoundContract \<Rightarrow> CallOpts option \<Rightarrow> address \<Rightarrow> int \<Rightarrow> bytes \<Rightarrow> 8 word \<Rightarrow> int \<Rightarrow> int \<Rightarrow> int \<Rightarrow> address \<Rightarrow> address \<Rightarrow> int \<Rightarrow> world \<Rightarrow>
   ((string + hash) \<times> world) option" where
  "GnosisSafe_GetTransactionHash B c opts to val data operation safeTxGas baseGas gasPrice gasToken refundReceiver nonce =
     call_with B c opts ''getTransactionHash'' [AAddress to, ABig val, ABytes data, AUint8 operation, ABig safeTxGas, ABig baseGas, ABig gasPrice, AAddress gasToken, AAddress refundReceiver, ABig nonce] (out0 to_bytes32)"

definition GnosisSafe_IsModuleEnabled ::
  "bind_env \<Rightarrow> BoundContract \<Rightarrow> CallOpts option \<Rightarrow> address \<Rightarrow> world \<Rightarrow>
   ((string + bool) \<times> world) option" where
  "GnosisSafe_IsModuleEnabled B c opts module =
     call_with B c opts ''isModuleEnabled'' [AAddress module] (out0 to_bool)"

definition GnosisSafe_IsOwner ::
  "bind_env \<Rightarrow> BoundContract \<Rightarrow> CallOpts option \<Rightarrow> address \<Rightarrow> world \<Rightarrow>
   ((string + bool) \<times> world) option" where
  "GnosisSafe_IsOwner B c opts owner =
     call_with B c opts ''isOwner'' [AAddress owner] (out0 to_bool)"

definition GnosisSafe_Nonce ::
  "bind_env \<Rightarrow> BoundContract \<Rightarrow> CallOpts option \<Rightarrow> world \<Rightarrow>
   ((string + int) \<times> world) option" where
  "GnosisSafe_Nonce B c opts =
     call_with B c opts ''nonce'' [] (out0 to_big)"

definition GnosisSafe_SignedMessages ::
  "bind_env \<Rightarrow> BoundContract \<Rightarrow> CallOpts option \<Rightarrow> hash \<Rightarrow> world \<Rightarrow>
   ((string + int) \<times> world) option" where
  "GnosisSafe_SignedMessages B c opts arg0 =
     call_with B c opts ''signedMessages'' [ABytes32 arg0] (out0 to_big)"

section \<open>Transactions\<close>

definition GnosisSafe_AddOwnerWithThreshold ::
  "bind_env \<Rightarrow> BoundContract \<Rightarrow> TransactOpts option \<Rightarrow> address \<Rightarrow> int \<Rightarrow> world \<Rightarrow>
   ((string + Transaction) \<times> world) option" where
  "GnosisSafe_AddOwnerWithThreshold B c opts owner threshold =
     transact_with B c opts ''addOwnerWithThreshold'' [AAddress owner, ABig threshold]"

definition GnosisSafe_ApproveHash ::
  "bind_env \<Rightarrow> BoundContract \<Rightarrow> TransactOpts option \<Rightarrow> hash \<Rightarrow> world \<Rightarrow>
   ((string + Transaction) \<times> world) option" where
  "GnosisSafe_ApproveHash B c opts hashToApprove =
     transact_with B c opts ''approveHash'' [ABytes32 hashToApprove]"

definition GnosisSafe_ChangeThreshold ::
  "bind_env \<Rightarrow> BoundContract \<Rightarrow> TransactOpts option \<Rightarrow> int \<Rightarrow> world \<Rightarrow>
   ((string + Transaction) \<times> world) option" where
  "GnosisSafe_ChangeThreshold B c opts threshold =
     transact_with B c opts ''changeThreshold'' [ABig threshold]"

definition GnosisSafe_DisableModule ::
  "bind_env \<Rightarrow> BoundContract \<Rightarrow> TransactOpts option \<Rightarrow> address \<Rightarrow> address \<Rightarrow> world \<Rightarrow>
   ((string + Transaction) \<times> world) option" where
  "GnosisSafe_DisableModule B c opts prevModule module =
     transact_with B c opts ''disableModule'' [AAddress prevModule, AAddress module]"

definition GnosisSafe_EnableModule ::
  "bind_env \<Rightarrow> BoundContract \<Rightarrow> TransactOpts option \<Rightarrow> address \<Rightarrow> world \<Rightarrow>
   ((string + Transaction) \<times> world) option" where
  "GnosisSafe_EnableModule B c opts module =
     transact_with B c opts ''enableModule'' [AAddress module]"

definition GnosisSafe_ExecTransaction ::
  "bind_env \<Rightarrow> BoundContract \<Rightarrow> TransactOpts option \<Rightarrow> address \<Rightarrow> int \<Rightarrow> bytes \<Rightarrow> 8 word \<Rightarrow> int \<Rightarrow> int \<Rightarrow> int \<Rightarrow> address \<Rightarrow> address \<Rightarrow> bytes \<Rightarrow> world \<Rightarrow>
   ((string + Transaction) \<times> world) option" where
  "GnosisSafe_ExecTransaction B c opts to val data operation safeTxGas baseGas gasPrice gasToken refundReceiver signatures =
     transact_with B c opts ''execTransaction'' [AAddress to, ABig val, ABytes data, AUint8 operation, ABig safeTxGas, ABig baseGas, ABig gasPrice, AAddress gasToken, AAddress refundReceiver, ABytes signatures]"

definition GnosisSafe_ExecTransactionFromModule ::
  "bind_env \<Rightarrow> BoundContract \<Rightarrow> TransactOpts option \<Rightarrow> address \<Rightarrow> int \<Rightarrow> bytes \<Rightarrow> 8 word \<Rightarrow> world \<Rightarrow>
   ((string + Transaction) \<times> world) option" where
  "GnosisSafe_ExecTransactionFromModule B c opts to val data operation =
     transact_with B c opts ''execTransactionFromModule'' [AAddress to, ABig val, ABytes data, AUint8 operation]"

definition GnosisSafe_ExecTransactionFromModuleReturnData ::
  "bind_env \<Rightarrow> BoundContract \<Rightarrow> TransactOpts option \<Rightarrow> address \<Rightarrow> int \<Rightarrow> bytes \<Rightarrow> 8 word \<Rightarrow> world \<Rightarrow>
   ((string + Transaction) \<times> world) option" where
  "GnosisSafe_ExecTransactionFromModuleReturnData B c opts to val data operation =
     transact_with B c opts ''execTransactionFromModuleReturnData'' [AAddress to, ABig val, ABytes data, AUint8 operation]"

definition GnosisSafe_RemoveOwner ::
  "bind_env \<Rightarrow> BoundContract \<Rightarrow> TransactOpts option \<Rightarrow> address \<Rightarrow> address \<Rightarrow> int \<Rightarrow> world \<Rightarrow>
   ((string + Transaction) \<times> world) option" where
  "GnosisSafe_RemoveOwner B c opts prevOwner owner threshold =
     transact_with B c opts ''removeOwner'' [AAddress prevOwner, AAddress owner, ABig threshold]"

definition GnosisSafe_RequiredTxGas ::
  "bind_env \<Rightarrow> BoundContract \<Rightarrow> TransactOpts option \<Rightarrow> address \<Rightarrow> int \<Rightarrow> bytes \<Rightarrow> 8 word \<Rightarrow> world \<Rightarrow>
   ((string + Transaction) \<times> world) option" where
  "GnosisSafe_RequiredTxGas B c opts to val data operation =
     transact_with B c opts ''requiredTxGas'' [AAddress to, ABig val, ABytes data, AUint8 operation]"

definition GnosisSafe_SetFallbackHandler ::
  "bind_env \<Rightarrow> BoundContract \<Rightarrow> TransactOpts option \<Rightarrow> address \<Rightarrow> world \<Rightarrow>
   ((string + Transaction) \<times> world) option" where
  "GnosisSafe_SetFallbackHandler B c opts handler =
     transact_with B c opts ''setFallbackHandler'' [AAddress handler]"

definition GnosisSafe_SetGuard ::
  "bind_env \<Rightarrow> BoundContract \<Rightarrow> TransactOpts option \<Rightarrow> address \<Rightarrow> world \<Rightarrow>
   ((string + Transaction) \<times> world) option" where
  "GnosisSafe_SetGuard B c opts guard =
     transact_with B c opts ''setGuard'' [AAddress guard]"

definition GnosisSafe_Setup ::
  "bind_env \<Rightarrow> BoundContract \<Rightarrow> TransactOpts option \<Rightarrow> address list \<Rightarrow> int \<Rightarrow> address \<Rightarrow> bytes \<Rightarrow> address \<Rightarrow> address \<Rightarrow> int \<Rightarrow> address \<Rightarrow> world \<Rightarrow>
   ((string + Transaction) \<times> world) option" where
  "GnosisSafe_Setup B c opts owners threshold to data fallbackHandler paymentToken payment paymentReceiver =
     transact_with B c opts ''setup'' [AAddressArray owners, ABig threshold, AAddress to, ABytes data, AAddress fallbackHandler, AAddress paymentToken, ABig payment, AAddress paymentReceiver]"

definition GnosisSafe_SimulateAndRevert ::
  "bind_env \<Rightarrow> BoundContract \<Rightarrow> TransactOpts option \<Rightarrow> address \<Rightarrow> bytes \<Rightarrow> world \<Rightarrow>
   ((string + Transaction) \<times> world) option" where
  "GnosisSafe_SimulateAndRevert B c opts targetContract calldataPayload =
     transact_with B c opts ''simulateAndRevert'' [AAddress targetContract, ABytes calldataPayload]"

definition GnosisSafe_SwapOwner ::
  "bind_env \<Rightarrow> BoundContract \<Rightarrow> TransactOpts option \<Rightarrow> address \<Rightarrow> address \<Rightarrow> address \<Rightarrow> world \<Rightarrow>
   ((string + Transaction) \<times> world) option" where
  "GnosisSafe_SwapOwner B c opts prevOwner oldOwner newOwner =
     transact_with B c opts ''swapOwner'' [AAddress prevOwner, AAddress oldOwner, AAddress newOwner]"

definition GnosisSafe_Fallback ::
  "bind_env \<Rightarrow> BoundContract \<Rightarrow> TransactOpts option \<Rightarrow> bytes \<Rightarrow> world \<Rightarrow>
   ((string + Transaction) \<times> world) option" where
  "GnosisSafe_Fallback B c opts calldata =
     raw_transact_with B c opts calldata"

definition GnosisSafe_Receive ::
  "bind_env \<Rightarrow> BoundContract \<Rightarrow> TransactOpts option \<Rightarrow> world \<Rightarrow>
   ((string + Transaction) \<times> world) option" where
  "GnosisSafe_Receive B c opts =
     raw_transact_with B c opts []"

section \<open>The operations together\<close>

lemmas GnosisSafe_call_defs =
  GnosisSafe_VERSION_def
  GnosisSafe_ApprovedHashes_def
  GnosisSafe_CheckNSignatures_def
  GnosisSafe_CheckSignatures_def
  GnosisSafe_DomainSeparator_def
  GnosisSafe_EncodeTransactionData_def
  GnosisSafe_GetChainId_def
  GnosisSafe_GetModulesPaginated_def
  GnosisSafe_GetOwners_def
  GnosisSafe_GetStorageAt_def
  GnosisSafe_GetThreshold_def
  GnosisSafe_GetTransactionHash_def
  GnosisSafe_IsModuleEnabled_def
  GnosisSafe_IsOwner_def
  GnosisSafe_Nonce_def
  GnosisSafe_SignedMessages_def

lemmas GnosisSafe_transact_defs =
  GnosisSafe_AddOwnerWithThreshold_def
  GnosisSafe_ApproveHash_def
  GnosisSafe_ChangeThreshold_def
  GnosisSafe_DisableModule_def
  GnosisSafe_EnableModule_def
  GnosisSafe_ExecTransaction_def
  GnosisSafe_ExecTransactionFromModule_def
  GnosisSafe_ExecTransactionFromModuleReturnData_def
  GnosisSafe_RemoveOwner_def
  GnosisSafe_RequiredTxGas_def
  GnosisSafe_SetFallbackHandler_def
  GnosisSafe_SetGuard_def
  GnosisSafe_Setup_def
  GnosisSafe_SimulateAndRevert_def
  GnosisSafe_SwapOwner_def

lemma NewGnosisSafe_contract:
  "NewGnosisSafe B address = Inr safe \<Longrightarrow> be_JSON B GnosisSafeABI = None \<and>
     bc_abi (GnosisSafeCaller safe) = GnosisSafeABI \<and> bc_address (GnosisSafeCaller safe) = address"
  by (auto simp: NewGnosisSafe_def bindGnosisSafe_def bind_contract_def split: option.splits)

text \<open>When the client unpacks results of the types the interface gives, the conversions to Go types that follow all succeed.\<close>

lemma GnosisSafe_calls_return:
  assumes "typed_answers GnosisSafeABI B" "bc_abi c = GnosisSafeABI"
  shows "GnosisSafe_VERSION B c opts w \<noteq> None \<and>
   GnosisSafe_ApprovedHashes B c opts a1 h1 w \<noteq> None \<and>
   GnosisSafe_CheckNSignatures B c opts h1 d1 d2 n1 w \<noteq> None \<and>
   GnosisSafe_CheckSignatures B c opts h1 d1 d2 w \<noteq> None \<and>
   GnosisSafe_DomainSeparator B c opts w \<noteq> None \<and>
   GnosisSafe_EncodeTransactionData B c opts a1 n1 d1 op n2 n3 n4 a2 a3 n5 w \<noteq> None \<and>
   GnosisSafe_GetChainId B c opts w \<noteq> None \<and>
   GnosisSafe_GetModulesPaginated B c opts a1 n1 w \<noteq> None \<and>
   GnosisSafe_GetOwners B c opts w \<noteq> None \<and>
   GnosisSafe_GetStorageAt B c opts n1 n2 w \<noteq> None \<and>
   GnosisSafe_GetThreshold B c opts w \<noteq> None \<and>
   GnosisSafe_GetTransactionHash B c opts a1 n1 d1 op n2 n3 n4 a2 a3 n5 w \<noteq> None \<and>
   GnosisSafe_IsModuleEnabled B c opts a1 w \<noteq> None \<and>
   GnosisSafe_IsOwner B c opts a1 w \<noteq> None \<and>
   GnosisSafe_Nonce B c opts w \<noteq> None \<and>
   GnosisSafe_SignedMessages B c opts h1 w \<noteq> None"
  unfolding GnosisSafe_call_defs
  by (intro conjI; rule call_with_returns [OF assms])
    (auto simp: typed_args_def typed_outputs_def GnosisSafe_sel out0_def out1_def go_index_def map_eq_Cons_conv type_of_eq to_defs)

section \<open>A concrete client\<close>

text \<open>For the witnesses: a client of a Safe with the owners 9 and 3, the threshold 1 and the nonce 4, which answers anything else with zeros.\<close>

fun zero_value :: "abi_type \<Rightarrow> abi_value" where
  "zero_value TyString = AString []"
| "zero_value TyAddress = AAddress 0"
| "zero_value TyUint256 = ABig 0"
| "zero_value TyUint8 = AUint8 0"
| "zero_value TyBool = ABool False"
| "zero_value TyBytes = ABytes []"
| "zero_value TyBytes32 = ABytes32 0"
| "zero_value TyAddressArray = AAddressArray []"

lemma type_of_zero_value [simp]: "type_of (zero_value t) = t"
  by (cases t) simp_all

definition demo_answer :: "string \<Rightarrow> string + abi_value list" where
  "demo_answer m =
     (if m = ''nonce'' then Inr [ABig 4]
      else if m = ''getThreshold'' then Inr [ABig 1]
      else if m = ''getOwners'' then Inr [AAddressArray [9, 3]]
      else (case map_of (abi_methods GnosisSafeABI) m of
              Some (ins, outs) \<Rightarrow> Inr (map zero_value outs)
            | None \<Rightarrow> Inl ''no such method''))"

definition demo_log :: "hash \<Rightarrow> Log" where
  "demo_log h = \<lparr>log_Address = 1, log_Topics = [h, 5], log_Data = []\<rparr>"

definition demo_bind :: bind_env where
  "demo_bind = \<lparr>be_JSON = (\<lambda>A. None), be_Pack = (\<lambda>A m args. Inr (case last args of ABytes bs \<Rightarrow> bs | _ \<Rightarrow> [])),
     be_Call = (\<lambda>t c opts m args. demo_answer m),
     be_Transact = (\<lambda>t c opts m args. map_option (\<lambda>_. Inl ''insufficient funds'') opts),
     be_RawTransact = (\<lambda>t c opts data. map_option (\<lambda>_. Inl ''insufficient funds'') opts),
     be_Transfer = (\<lambda>t c opts. map_option (\<lambda>_. Inl ''insufficient funds'') opts),
     be_FilterLogs = (\<lambda>t c opts e q. Inr \<lparr>sub_logs = [demo_log 7, demo_log 8], sub_Err = None\<rparr>),
     be_WatchLogs = (\<lambda>t c opts e q. Inr ()),
     be_UnpackLog = (\<lambda>c e log. Inr [ABytes32 (hd (log_Topics log)), AAddress 5]), be_Mismatch = (\<lambda>e vs. ''mismatch''),
     be_Unsubscribe = (\<lambda>s. s\<lparr>sub_logs := []\<rparr>)\<rparr>"

definition demo_contract :: BoundContract where
  "demo_contract = \<lparr>bc_address = 1, bc_abi = GnosisSafeABI, bc_caller = True, bc_transactor = True, bc_filterer = True\<rparr>"

lemma demo_bind_typed: "typed_answers GnosisSafeABI demo_bind"
proof -
  have "typed_outputs GnosisSafeABI m out" if "demo_answer m = Inr out" for m out
    using that by (auto simp: demo_answer_def typed_outputs_def comp_def GnosisSafe_sel split: if_splits option.splits)
  then show ?thesis by (simp add: typed_answers_def demo_bind_def)
qed

end
