(* ===== verification/MultiSendCallOnly.thy ===== *)
theory MultiSendCallOnly
  imports Bind
begin

text \<open>
  \<^verbatim>\<open>multisend/gen_multisend.go\<close>: the binding of the MultiSend contract, which has one function.
\<close>

definition MultiSendCallOnlyABI :: abi where
  "MultiSendCallOnlyABI = \<lparr>abi_methods = [(''multiSend'', [TyBytes], [])], abi_events = []\<rparr>"

record MultiSendCallOnly =
  MultiSendCallOnlyCaller :: BoundContract
  MultiSendCallOnlyTransactor :: BoundContract
  MultiSendCallOnlyFilterer :: BoundContract

definition bindMultiSendCallOnly :: "bind_env \<Rightarrow> address \<Rightarrow> bool \<Rightarrow> bool \<Rightarrow> bool \<Rightarrow> string + BoundContract" where
  "bindMultiSendCallOnly B address caller transactor filterer =
     bind_contract B MultiSendCallOnlyABI address caller transactor filterer"

definition NewMultiSendCallOnly :: "bind_env \<Rightarrow> address \<Rightarrow> string + MultiSendCallOnly" where
  "NewMultiSendCallOnly B address = (case bindMultiSendCallOnly B address True True True of
     Inl err \<Rightarrow> Inl err
   | Inr contract \<Rightarrow> Inr \<lparr>MultiSendCallOnlyCaller = contract, MultiSendCallOnlyTransactor = contract,
       MultiSendCallOnlyFilterer = contract\<rparr>)"

definition NewMultiSendCallOnlyCaller :: "bind_env \<Rightarrow> address \<Rightarrow> string + BoundContract" where
  "NewMultiSendCallOnlyCaller B address = bindMultiSendCallOnly B address True False False"

definition NewMultiSendCallOnlyTransactor :: "bind_env \<Rightarrow> address \<Rightarrow> string + BoundContract" where
  "NewMultiSendCallOnlyTransactor B address = bindMultiSendCallOnly B address False True False"

definition NewMultiSendCallOnlyFilterer :: "bind_env \<Rightarrow> address \<Rightarrow> string + BoundContract" where
  "NewMultiSendCallOnlyFilterer B address = bindMultiSendCallOnly B address False False True"

definition MultiSendCallOnlyRaw_Call ::
  "bind_env \<Rightarrow> MultiSendCallOnly \<Rightarrow> CallOpts option \<Rightarrow> string \<Rightarrow> abi_value list \<Rightarrow> world \<Rightarrow>
   ((string + abi_value list) \<times> world) option" where
  "MultiSendCallOnlyRaw_Call B ms opts method params = call_with B (MultiSendCallOnlyCaller ms) opts method params Some"

definition MultiSendCallOnlyRaw_Transfer ::
  "bind_env \<Rightarrow> MultiSendCallOnly \<Rightarrow> TransactOpts option \<Rightarrow> world \<Rightarrow> ((string + Transaction) \<times> world) option" where
  "MultiSendCallOnlyRaw_Transfer B ms opts = transfer_with B (MultiSendCallOnlyTransactor ms) opts"

definition MultiSendCallOnlyRaw_Transact ::
  "bind_env \<Rightarrow> MultiSendCallOnly \<Rightarrow> TransactOpts option \<Rightarrow> string \<Rightarrow> abi_value list \<Rightarrow> world \<Rightarrow>
   ((string + Transaction) \<times> world) option" where
  "MultiSendCallOnlyRaw_Transact B ms opts method params =
     transact_with B (MultiSendCallOnlyTransactor ms) opts method params"

definition MultiSendCallOnly_MultiSend ::
  "bind_env \<Rightarrow> BoundContract \<Rightarrow> TransactOpts option \<Rightarrow> bytes \<Rightarrow> world \<Rightarrow> ((string + Transaction) \<times> world) option" where
  "MultiSendCallOnly_MultiSend B c opts transactions = transact_with B c opts ''multiSend'' [ABytes transactions]"

text \<open>Sessions and the raw operations of the parts.\<close>

record MultiSendCallOnlySession =
  mses_Contract :: MultiSendCallOnly
  mses_CallOpts :: CallOpts
  mses_TransactOpts :: TransactOpts

record MultiSendCallOnlyTransactorSession =
  mts_Contract :: BoundContract
  mts_TransactOpts :: TransactOpts

definition MultiSendCallOnlySession_MultiSend ::
  "bind_env \<Rightarrow> MultiSendCallOnlySession \<Rightarrow> bytes \<Rightarrow> world \<Rightarrow> ((string + Transaction) \<times> world) option" where
  "MultiSendCallOnlySession_MultiSend B s =
     MultiSendCallOnly_MultiSend B (MultiSendCallOnlyTransactor (mses_Contract s)) (Some (mses_TransactOpts s))"

definition MultiSendCallOnlyTransactorSession_MultiSend ::
  "bind_env \<Rightarrow> MultiSendCallOnlyTransactorSession \<Rightarrow> bytes \<Rightarrow> world \<Rightarrow> ((string + Transaction) \<times> world) option" where
  "MultiSendCallOnlyTransactorSession_MultiSend B s = MultiSendCallOnly_MultiSend B (mts_Contract s) (Some (mts_TransactOpts s))"

definition MultiSendCallOnlyCallerRaw_Call ::
  "bind_env \<Rightarrow> BoundContract \<Rightarrow> CallOpts option \<Rightarrow> string \<Rightarrow> abi_value list \<Rightarrow> world \<Rightarrow>
   ((string + abi_value list) \<times> world) option" where
  "MultiSendCallOnlyCallerRaw_Call B c opts method params = call_with B c opts method params Some"

definition MultiSendCallOnlyTransactorRaw_Transfer ::
  "bind_env \<Rightarrow> BoundContract \<Rightarrow> TransactOpts option \<Rightarrow> world \<Rightarrow> ((string + Transaction) \<times> world) option" where
  "MultiSendCallOnlyTransactorRaw_Transfer B c opts = transfer_with B c opts"

definition MultiSendCallOnlyTransactorRaw_Transact ::
  "bind_env \<Rightarrow> BoundContract \<Rightarrow> TransactOpts option \<Rightarrow> string \<Rightarrow> abi_value list \<Rightarrow> world \<Rightarrow>
   ((string + Transaction) \<times> world) option" where
  "MultiSendCallOnlyTransactorRaw_Transact B c opts method params = transact_with B c opts method params"

lemma MultiSend_typed:
  "MultiSendCallOnly_MultiSend (only_typed MultiSendCallOnlyABI B) c opts transactions = MultiSendCallOnly_MultiSend B c opts transactions"
  by (simp add: MultiSendCallOnly_MultiSend_def with_typed typed_args_def MultiSendCallOnlyABI_def)

end
