(* ===== verification/Multisend.thy ===== *)
theory Multisend
  imports GnosisSafe MultiSendCallOnly "HOL-Library.Multiset"
begin

text \<open>
  \<^verbatim>\<open>multisend/multisend.go\<close> and \<^verbatim>\<open>multisend/safe.go\<close>: packing the pool's transactions into one call
  of the MultiSend contract, and the call data with which the owners of a Gnosis Safe execute it.
  The Safe is called through its generated binding; the ABI encoder and the client behind the binding are
  the parameter \<open>bind_env\<close>.
\<close>

section \<open>Multisend\<close>

definition MultiSendCallOnlyContractAddress :: address where
  "MultiSendCallOnlyContractAddress = 0x40A2aCCbd92BCA938b02010E17A5b8929b49130D"

definition MultiSendContractAddress :: address where
  "MultiSendContractAddress = 0xA238CBeb142c10Ef7Ad8442C6D1f9E89e07e7761"

definition BuildTransaction :: "Transaction \<Rightarrow> bytes option" where
  "BuildTransaction tx = do {
     to \<leftarrow> tx_To tx;
     valueB \<leftarrow> big_FillBytes 32 (tx_Value tx);
     let data = tx_Data tx;
     dataLenB \<leftarrow> big_FillBytes 32 (int (length data));
     Some ([0x00] @ Address_Bytes to @ valueB @ dataLenB @ data)
   }"

fun build_args :: "Transaction list \<Rightarrow> bytes option" where
  "build_args [] = Some []"
| "build_args (tx # txs) = do { b \<leftarrow> BuildTransaction tx; rest \<leftarrow> build_args txs; Some (b @ rest) }"

definition BuildTransactions :: "bind_env \<Rightarrow> Transaction list \<Rightarrow> bytes option" where
  "BuildTransactions B txs = do {
     multisendArgs \<leftarrow> build_args txs;
     (case be_JSON B MultiSendCallOnlyABI of
        Some err \<Rightarrow> None
      | None \<Rightarrow>
          (case be_Pack B MultiSendCallOnlyABI ''multiSend'' [ABytes multisendArgs] of
             Inl err \<Rightarrow> None
           | Inr ret \<Rightarrow> Some (Hex2Bytes ''8d80ff0a'' @ ret)))
   }"

section \<open>The Safe\<close>

datatype Operation = OpCall | DelegateCall

definition op_uint8 :: "Operation \<Rightarrow> 8 word" where
  "op_uint8 x = (case x of OpCall \<Rightarrow> 0 | DelegateCall \<Rightarrow> 1)"

text \<open>The arguments of \<^verbatim>\<open>execTransaction\<close>, in the order of the interface.\<close>

definition exec_args ::
  "address \<Rightarrow> int \<Rightarrow> bytes \<Rightarrow> 8 word \<Rightarrow> int \<Rightarrow> int \<Rightarrow> int \<Rightarrow> address \<Rightarrow> address \<Rightarrow> bytes \<Rightarrow> abi_value list" where
  "exec_args to val data operation txGas base price token refund signatures =
     [AAddress to, ABig val, ABytes data, AUint8 operation, ABig txGas, ABig base, ABig price, AAddress token,
      AAddress refund, ABytes signatures]"

definition GenerateSafeExecTx ::
  "bind_env \<Rightarrow> address \<Rightarrow> address \<Rightarrow> int \<Rightarrow> bytes \<Rightarrow> 8 word \<Rightarrow> bytes \<Rightarrow> unit option" where
  "GenerateSafeExecTx B safeAddr to val data operation signatures = (case be_JSON B GnosisSafeABI of
     Some err \<Rightarrow> None
   | None \<Rightarrow>
       (case be_Pack B GnosisSafeABI ''execTransaction'' (exec_args to val data operation 0 0 0 0 0 signatures) of
          Inl err \<Rightarrow> None
        | Inr encoded \<Rightarrow> Some ()))"

record MultisendSafe =
  ms_safe :: GnosisSafe
  ms_value :: int
  ms_calldata :: bytes
  ms_to :: address
  ms_safeABI :: abi

definition NewMultisendSafe ::
  "bind_env \<Rightarrow> address \<Rightarrow> address \<Rightarrow> bytes \<Rightarrow> int \<Rightarrow> (string + MultisendSafe) option" where
  "NewMultisendSafe B safeAddr multisendAddr calldata val = (case NewGnosisSafe B safeAddr of
     Inl err \<Rightarrow> Some (Inl err)
   | Inr safe \<Rightarrow> (case be_JSON B GnosisSafeABI of
       Some err \<Rightarrow> None
     | None \<Rightarrow> Some (Inr \<lparr>ms_safe = safe, ms_value = val, ms_calldata = calldata, ms_to = multisendAddr,
         ms_safeABI = GnosisSafeABI\<rparr>)))"

definition safeTxGas :: int where "safeTxGas = 0"
definition baseGas :: int where "baseGas = 0"
definition safeGasPrice :: int where "safeGasPrice = 0"
definition gasToken :: address where "gasToken = 0"
definition refundReceiver :: address where "refundReceiver = 0"

definition MS_GetNonce :: "bind_env \<Rightarrow> MultisendSafe \<Rightarrow> world \<Rightarrow> ((string + int) \<times> world) option" where
  "MS_GetNonce B s w = GnosisSafe_Nonce B (GnosisSafeCaller (ms_safe s)) None w"

definition GetSafe :: "MultisendSafe \<Rightarrow> GnosisSafe" where
  "GetSafe s = ms_safe s"

definition GetSafeTxHash ::
  "bind_env \<Rightarrow> MultisendSafe \<Rightarrow> 64 word \<Rightarrow> world \<Rightarrow> ((string + bytes) \<times> world) option" where
  "GetSafeTxHash B s nonce w =
     GnosisSafe_EncodeTransactionData B (GnosisSafeCaller (ms_safe s)) None (ms_to s) (ms_value s) (ms_calldata s)
       (op_uint8 DelegateCall) safeTxGas baseGas safeGasPrice gasToken refundReceiver (sint nonce) w"

definition GetTxDataHash ::
  "env \<Rightarrow> bind_env \<Rightarrow> MultisendSafe \<Rightarrow> 64 word \<Rightarrow> world \<Rightarrow> ((string + hash) \<times> world) option" where
  "GetTxDataHash E B s nonce w = do {
     (txData, w1) \<leftarrow> GetSafeTxHash B s nonce w;
     Some (case txData of Inl err \<Rightarrow> Inl err | Inr bs \<Rightarrow> Inr (keccak256 E bs), w1)
   }"

text \<open>\<^verbatim>\<open>Inputs.Pack\<close> for \<^verbatim>\<open>execTransaction\<close> with the transaction of a \<^verbatim>\<open>MultisendSafe\<close>.\<close>

definition pack_exec :: "bind_env \<Rightarrow> MultisendSafe \<Rightarrow> bytes \<Rightarrow> string + bytes" where
  "pack_exec B s signatures = be_Pack B (ms_safeABI s) ''execTransaction''
     (exec_args (ms_to s) (ms_value s) (ms_calldata s) (op_uint8 DelegateCall) safeTxGas baseGas safeGasPrice gasToken
        refundReceiver signatures)"

definition GenSafeCalldataWithoutSignature ::
  "bind_env \<Rightarrow> MultisendSafe \<Rightarrow> 64 word \<Rightarrow> 64 word \<Rightarrow> (string + bytes) option" where
  "GenSafeCalldataWithoutSignature B s nonce nOfSig =
     (let len = sint (65 * nOfSig) in
      if len < 0 then None else Some (pack_exec B s (replicate (nat len) 0)))"

fun sig_loop :: "address list \<Rightarrow> nat \<Rightarrow> bytes \<Rightarrow> bytes" where
  "sig_loop [] i approveHashSig = approveHashSig"
| "sig_loop (addr # addrs) i approveHashSig =
     sig_loop addrs (Suc i)
       ((copy_at (i * 65) (length approveHashSig) (Hash_Bytes (BytesToHash (Address_Bytes addr)))
          approveHashSig)[i * 65 + 64 := 0x01])"

definition genApproveHashSigs :: "address list \<Rightarrow> bytes" where
  "genApproveHashSigs addrs = sig_loop addrs 0 (replicate (65 * length addrs) 0)"

definition sort_participants :: "address list \<Rightarrow> address list" where
  "sort_participants participants = sort_key unat participants"

text \<open>\<^verbatim>\<open>sort.Slice\<close> sorts the caller's slice in place, so the sorted owners are returned too.\<close>

definition GenSafeCalldataWithApproveHash ::
  "bind_env \<Rightarrow> MultisendSafe \<Rightarrow> address list \<Rightarrow> (string + bytes) \<times> address list" where
  "GenSafeCalldataWithApproveHash B s participants =
     (let sorted_owners = sort_participants participants;
          signatures = genApproveHashSigs sorted_owners
      in (case pack_exec B s signatures of
            Inl err \<Rightarrow> Inl err
          | Inr encoded \<Rightarrow> Inr (Hex2Bytes ''6a761202'' @ encoded),
          sorted_owners))"

text \<open>The result of the transaction is not looked at.\<close>

definition CommitApproveHash :: "bind_env \<Rightarrow> MultisendSafe \<Rightarrow> hash \<Rightarrow> world \<Rightarrow> world option" where
  "CommitApproveHash B s approveHash w =
     map_option snd (GnosisSafe_ApproveHash B (GnosisSafeTransactor (ms_safe s)) None approveHash w)"

section \<open>Reading the packed transactions back\<close>

text \<open>
  A decoder of one item that undoes an encoder, whatever follows, decodes a whole sequence.
\<close>

locale framed_codec =
  fixes enc :: "'a \<Rightarrow> 'b list option" and dec :: "'b list \<Rightarrow> ('a \<times> 'b list) option"
  assumes dec_enc: "enc x = Some bs \<Longrightarrow> dec (bs @ rest) = Some (x, rest)"
    and enc_nonempty: "enc x \<noteq> Some []"
begin

fun enc_all :: "'a list \<Rightarrow> 'b list option" where
  "enc_all [] = Some []"
| "enc_all (x # xs) = do { b \<leftarrow> enc x; rest \<leftarrow> enc_all xs; Some (b @ rest) }"

fun dec_all :: "nat \<Rightarrow> 'b list \<Rightarrow> 'a list option" where
  "dec_all n [] = Some []"
| "dec_all 0 (b # bs) = None"
| "dec_all (Suc n) (b # bs) = do { (x, rest) \<leftarrow> dec (b # bs); xs \<leftarrow> dec_all n rest; Some (x # xs) }"

lemma dec_all_enc_all:
  assumes "enc_all xs = Some bs" "length xs \<le> n"
  shows "dec_all n bs = Some xs"
  using assms
proof (induction xs arbitrary: bs n)
  case (Cons x xs)
  then obtain b r m where b: "enc x = Some b" "enc_all xs = Some r" "bs = b @ r" "n = Suc m"
    by (cases n) (auto simp: bind_eq_Some_conv)
  moreover obtain c cs where c: "b = c # cs" using enc_nonempty b(1) by (cases b) auto
  ultimately have "dec ((c # cs) @ r) = Some (x, r)" using dec_enc [OF b(1), of r] by simp
  with b c Cons.IH [OF b(2), of m] Cons.prems(2) show ?case by simp
qed simp

lemma enc_all_inject: "enc_all xs = Some bs \<Longrightarrow> enc_all ys = Some bs \<Longrightarrow> xs = ys"
  using dec_all_enc_all [of xs bs "max (length xs) (length ys)"]
    dec_all_enc_all [of ys bs "max (length xs) (length ys)"] by simp

end

text \<open>
  The format of the MultiSend contract, as the comment of \<^verbatim>\<open>BuildTransaction\<close> gives it: one byte
  operation, 20 bytes address, 32 bytes value, 32 bytes length, then the data.
\<close>

record msend_item =
  mi_to :: address
  mi_value :: nat
  mi_data :: bytes

definition item_of :: "Transaction \<Rightarrow> msend_item option" where
  "item_of tx = do {
     to \<leftarrow> tx_To tx;
     Some \<lparr>mi_to = to, mi_value = nat \<bar>tx_Value tx\<bar>, mi_data = tx_Data tx\<rparr>
   }"

definition item_bytes :: "msend_item \<Rightarrow> bytes option" where
  "item_bytes m = do {
     valueB \<leftarrow> big_FillBytes 32 (int (mi_value m));
     lenB \<leftarrow> big_FillBytes 32 (int (length (mi_data m)));
     Some ([0] @ Address_Bytes (mi_to m) @ valueB @ lenB @ mi_data m)
   }"

definition read_item :: "bytes \<Rightarrow> (msend_item \<times> bytes) option" where
  "read_item bs =
     (if length bs < 85 \<or> bs ! 0 \<noteq> 0 then None
      else let len = be_val (take 32 (drop 53 bs)) in
        if length bs < 85 + len then None
        else Some (\<lparr>mi_to = BytesToAddress (take 20 (drop 1 bs)), mi_value = be_val (take 32 (drop 21 bs)),
                    mi_data = take len (drop 85 bs)\<rparr>, drop (85 + len) bs))"

lemma big_FillBytes_eq: "big_FillBytes n x = Some bs \<Longrightarrow> length bs = n \<and> be_val bs = nat \<bar>x\<bar>"
  by (simp add: big_FillBytes_length big_FillBytes_val)

lemma item_frame:
  assumes "length a = 20" "length v = 32" "length l = 32" "be_val l = length d"
  shows "read_item ([0] @ a @ v @ l @ d @ rest) =
    Some (\<lparr>mi_to = BytesToAddress a, mi_value = be_val v, mi_data = d\<rparr>, rest)"
  using assms by (simp add: read_item_def Let_def numeral_eq_Suc)

interpretation msend: framed_codec item_bytes read_item
proof
  fix m bs rest
  assume "item_bytes m = Some bs"
  then obtain v l where v: "big_FillBytes 32 (int (mi_value m)) = Some v"
    and l: "big_FillBytes 32 (int (length (mi_data m))) = Some l"
    and bs: "bs = [0] @ Address_Bytes (mi_to m) @ v @ l @ mi_data m"
    by (auto simp: item_bytes_def bind_eq_Some_conv)
  from item_frame [of "Address_Bytes (mi_to m)" v l "mi_data m" rest] big_FillBytes_eq [OF v] big_FillBytes_eq [OF l]
  show "read_item (bs @ rest) = Some (m, rest)" by (simp add: bs)
next
  fix m
  show "item_bytes m \<noteq> Some []" by (simp add: item_bytes_def bind_eq_Some_conv)
qed

lemma BuildTransaction_item:
  "BuildTransaction tx = do { m \<leftarrow> item_of tx; item_bytes m }"
  by (cases "tx_To tx") (simp_all add: BuildTransaction_def item_of_def item_bytes_def big_FillBytes_def Let_def)

lemma build_args_items:
  assumes "build_args txs = Some bs"
  shows "\<exists>ms. map item_of txs = map Some ms \<and> msend.enc_all ms = Some bs"
  using assms
proof (induction txs arbitrary: bs)
  case (Cons tx txs)
  then obtain m b r where "item_of tx = Some m" "item_bytes m = Some b" "build_args txs = Some r" "bs = b @ r"
    by (auto simp: BuildTransaction_item bind_eq_Some_conv)
  moreover from Cons.IH [OF this(3)] obtain ms where "map item_of txs = map Some ms" "msend.enc_all ms = Some r"
    by blast
  ultimately show ?case by (intro exI [of _ "m # ms"]) simp
qed simp

lemma BuildTransactions_parts:
  assumes "BuildTransactions B txs = Some calldata"
  shows "\<exists>args ret. build_args txs = Some args \<and> be_Pack B MultiSendCallOnlyABI ''multiSend'' [ABytes args] = Inr ret \<and>
    calldata = Hex2Bytes ''8d80ff0a'' @ ret"
proof -
  obtain args where "build_args txs = Some args" "be_JSON B MultiSendCallOnlyABI = None"
    using assms by (auto simp: BuildTransactions_def bind_eq_Some_conv simp del: Hex2Bytes.simps split: option.splits)
  with assms show ?thesis
    by (cases "be_Pack B MultiSendCallOnlyABI ''multiSend'' [ABytes args]") (simp_all add: BuildTransactions_def del: Hex2Bytes.simps)
qed

section \<open>Calls of the Safe\<close>

text \<open>The interface parses a second time, so the constructor does not panic.\<close>

lemma NewMultisendSafe_ok:
  "\<exists>r. NewMultisendSafe B safeAddr multisendAddr calldata val = Some r \<and>
     (\<forall>s. r = Inr s \<longrightarrow> ms_to s = multisendAddr \<and> ms_value s = val \<and> ms_calldata s = calldata \<and> ms_safeABI s = GnosisSafeABI \<and>
        bc_abi (GnosisSafeCaller (ms_safe s)) = GnosisSafeABI \<and> bc_address (GnosisSafeCaller (ms_safe s)) = safeAddr)"
  using NewGnosisSafe_contract [of B safeAddr]
  by (cases "NewGnosisSafe B safeAddr") (auto simp: NewMultisendSafe_def)

lemma call_with_asks: "call_with B c opts m args conv w = Some (r, w') \<Longrightarrow> w' = w\<lparr>clock := Suc (clock w)\<rparr>"
  by (auto simp: call_with_def ask_def split: sum.splits)

lemma Safe_calls_ok:
  assumes "typed_answers GnosisSafeABI B" "bc_abi (GnosisSafeCaller (ms_safe s)) = GnosisSafeABI"
  shows "\<exists>r. MS_GetNonce B s w = Some (r, w\<lparr>clock := Suc (clock w)\<rparr>)"
    and "\<exists>r. GetTxDataHash E B s nonce w = Some (r, w\<lparr>clock := Suc (clock w)\<rparr>)"
proof -
  note t = GnosisSafe_calls_return [OF assms]
  obtain r w' where "MS_GetNonce B s w = Some (r, w')" using t by (fastforce simp: MS_GetNonce_def)
  then show "\<exists>r. MS_GetNonce B s w = Some (r, w\<lparr>clock := Suc (clock w)\<rparr>)"
    using call_with_asks by (fastforce simp: MS_GetNonce_def GnosisSafe_Nonce_def)
  obtain r w' where "GetSafeTxHash B s nonce w = Some (r, w')" using t by (fastforce simp: GetSafeTxHash_def)
  then have "GetSafeTxHash B s nonce w = Some (r, w\<lparr>clock := Suc (clock w)\<rparr>)"
    using call_with_asks by (fastforce simp: GetSafeTxHash_def GnosisSafe_EncodeTransactionData_def)
  then show "\<exists>r. GetTxDataHash E B s nonce w = Some (r, w\<lparr>clock := Suc (clock w)\<rparr>)" by (simp add: GetTxDataHash_def)
qed

section \<open>Signatures of the owners\<close>

definition sig_block :: "address \<Rightarrow> bytes" where
  "sig_block a = replicate 12 0 @ Address_Bytes a @ replicate 32 0 @ [1]"

lemma address_hash_bytes: "Hash_Bytes (BytesToHash (Address_Bytes a)) = replicate 12 0 @ Address_Bytes a"
proof -
  have "be_val (replicate n 0 @ bs) = be_val bs" for n bs by (induction n) simp_all
  then have "BytesToHash (Address_Bytes a) = BytesToHash (replicate 12 0 @ Address_Bytes a)"
    by (simp add: BytesToHash_def)
  then show ?thesis by (simp add: Hash_Bytes_BytesToHash)
qed

lemma sig_step:
  assumes "length pre = 65 * i"
  shows "(copy_at (i * 65) (length (pre @ replicate (65 + n) 0)) (Hash_Bytes (BytesToHash (Address_Bytes a)))
     (pre @ replicate (65 + n) 0))[i * 65 + 64 := 1] = (pre @ sig_block a) @ replicate n 0"
proof -
  have p: "length pre = i * 65" using assms by simp
  have "copy_at (i * 65) (length (pre @ replicate (65 + n) 0)) (replicate 12 0 @ Address_Bytes a)
     (pre @ replicate (65 + n) 0) = pre @ (replicate 12 0 @ Address_Bytes a @ replicate 32 0) @ 0 # replicate n 0"
    using p by (simp add: copy_at_def Let_def replicate_add [symmetric] flip: replicate_Suc)
  moreover have "length (replicate 12 0 @ Address_Bytes a @ replicate 32 (0 :: byte)) = 64" by simp
  ultimately show ?thesis using p
    by (simp add: address_hash_bytes list_update_append sig_block_def)
qed

lemma sig_loop_eq:
  "length pre = 65 * i \<Longrightarrow>
   sig_loop addrs i (pre @ replicate (65 * length addrs) 0) = pre @ concat (map sig_block addrs)"
proof (induction addrs arbitrary: i pre)
  case (Cons a addrs)
  have l: "length (pre @ sig_block a) = 65 * Suc i" using Cons.prems by (simp add: sig_block_def)
  have "65 * length (a # addrs) = 65 + 65 * length addrs" by simp
  with Cons.IH [OF l] sig_step [OF Cons.prems, of "65 * length addrs" a] show ?case
    by (simp only: sig_loop.simps list.map concat.simps append_assoc)
qed simp

section \<open>Properties\<close>

definition packed_tx :: Transaction where
  "packed_tx = \<lparr>tx_Type = 0, tx_ChainID = 0, tx_Nonce = 0, tx_GasPrice = 0, tx_GasTipCap = 0,
     tx_GasFeeCap = 0, tx_Gas = 21000, tx_To = Some 7, tx_Value = 1000, tx_Data = [1, 2, 3],
     tx_AccessList = [], tx_V = 0, tx_R = 0, tx_S = 0\<rparr>"

definition demo_ms :: MultisendSafe where
  "demo_ms = \<lparr>ms_safe = \<lparr>GnosisSafeCaller = demo_contract, GnosisSafeTransactor = demo_contract, GnosisSafeFilterer = demo_contract\<rparr>,
     ms_value = 0, ms_calldata = [], ms_to = 2, ms_safeABI = GnosisSafeABI\<rparr>"

text \<open>C31.
  What the node packs for the MultiSend contract can be read back: whenever \<^verbatim>\<open>BuildTransactions\<close>
  succeeds, its result is the method selector followed by the encoding of a byte string from which
  a reader of the documented layout recovers the target, the value and the data of every
  transaction of the pool, in order.
\<close>

theorem multisend_roundtrip:
  assumes "BuildTransactions B txs = Some calldata"
  shows "\<exists>args ret ms. be_Pack B MultiSendCallOnlyABI ''multiSend'' [ABytes args] = Inr ret \<and> calldata = [0x8d, 0x80, 0xff, 0x0a] @ ret \<and>
    map item_of txs = map Some ms \<and> msend.dec_all (length txs) args = Some ms"
proof -
  obtain args ret where a: "build_args txs = Some args" "be_Pack B MultiSendCallOnlyABI ''multiSend'' [ABytes args] = Inr ret"
    "calldata = Hex2Bytes ''8d80ff0a'' @ ret"
    using BuildTransactions_parts [OF assms] by blast
  from build_args_items [OF a(1)] obtain ms where ms: "map item_of txs = map Some ms" "msend.enc_all ms = Some args"
    by blast
  moreover have "length ms = length txs" using ms(1) by (metis length_map)
  moreover have "Hex2Bytes ''8d80ff0a'' = [0x8d, 0x80, 0xff, 0x0a]"
    by (simp add: hex_value_def Let_def)
  ultimately show ?thesis using a(2,3) msend.dec_all_enc_all [OF ms(2)] by fastforce
qed

theorem multisend_roundtrip_witness:
  "\<exists>args. BuildTransactions demo_bind [packed_tx, packed_tx] = Some ([0x8d, 0x80, 0xff, 0x0a] @ args) \<and>
     msend.dec_all 2 args = Some (replicate 2 \<lparr>mi_to = 7, mi_value = 1000, mi_data = [1, 2, 3]\<rparr>)"
proof -
  obtain calldata where c: "BuildTransactions demo_bind [packed_tx, packed_tx] = Some calldata"
    by (simp add: BuildTransactions_def BuildTransaction_def packed_tx_def big_FillBytes_def demo_bind_def
        del: Hex2Bytes.simps)
  obtain args ret ms where "be_Pack demo_bind MultiSendCallOnlyABI ''multiSend'' [ABytes args] = Inr ret" "calldata = [0x8d, 0x80, 0xff, 0x0a] @ ret"
    "map item_of [packed_tx, packed_tx] = map Some ms" "msend.dec_all (length [packed_tx, packed_tx]) args = Some ms"
    using multisend_roundtrip [OF c] by blast
  with c show ?thesis
    by (intro exI [of _ args])
      (auto simp: demo_bind_def item_of_def packed_tx_def numeral_2_eq_2 simp del: Hex2Bytes.simps)
qed

text \<open>
  Packing a transaction panics exactly for contract creations and for values that do not fit into
  32 bytes (the data is always shorter than \<open>2 ^ 256\<close> bytes).
\<close>

theorem BuildTransaction_panics:
  assumes "length (tx_Data tx) < 2 ^ 256"
  shows "BuildTransaction tx = None \<longleftrightarrow> tx_To tx = None \<or> 2 ^ 256 \<le> \<bar>tx_Value tx\<bar>"
  using assms
  by (cases "tx_To tx") (auto simp: BuildTransaction_def big_FillBytes_def Let_def nat_less_iff)

theorem BuildTransaction_panics_witness:
  "BuildTransaction (packed_tx\<lparr>tx_To := None\<rparr>) = None \<and> BuildTransaction packed_tx \<noteq> None"
  using BuildTransaction_panics [of packed_tx] BuildTransaction_panics [of "packed_tx\<lparr>tx_To := None\<rparr>"]
  by (simp add: packed_tx_def)



end
