(* ===== verification/Chain.thy ===== *)
theory Chain
  imports Frames Tracers Signer TxArgs Multisend
begin

text \<open>
  The rest of what the program takes from outside: go-ethereum's execution, tracers, signing and
  ABI functions, and the requests to the upstream node other than the batch requests of the state
  database. All of it is the record \<open>geth\<close>, a parameter of the definitions that use it. A request
  may be answered differently at different times, so it takes the time of the request (the number
  of requests sent before). Tracers that are not the program's own (the native and JavaScript
  tracers and the struct logger) have a state of the type parameter.
\<close>

section \<open>Data\<close>

text \<open>
  \<^verbatim>\<open>vm.BlockContext\<close>. Its \<^verbatim>\<open>big.Int\<close> fields are pointers, which copies of the context share: they are
  indices of cells of the world.
\<close>

record BlockContext =
  bc_Coinbase :: address
  bc_GasLimit :: u64
  bc_BaseFee :: nat
  bc_BlockNumber :: nat
  bc_Time :: nat
  bc_Difficulty :: nat

text \<open>What the virtual machine sees of it when it starts.\<close>

record BlockEnv =
  be_Coinbase :: address
  be_GasLimit :: u64
  be_BaseFee :: int
  be_BlockNumber :: int
  be_Time :: int
  be_Difficulty :: int

record ChainConfig =
  cc_ChainID :: int
  cc_ByzantiumBlock :: int
  cc_ConstantinopleBlock :: int

record TraceContext =
  tx_BlockHash :: hash
  tx_TxHash :: hash
  tx_TxIndex :: int

record LogConfig =
  lc_EnableMemory :: bool
  lc_DisableStack :: bool
  lc_DisableStorage :: bool
  lc_EnableReturnData :: bool

text \<open>\<^verbatim>\<open>tracers.TraceConfig\<close>; the embedded \<^verbatim>\<open>logger.Config\<close> is a pointer.\<close>

record TraceConfig =
  tc_Config :: "LogConfig option"
  tc_Tracer :: "string option"
  tc_Timeout :: "string option"
  tc_TracerConfig :: "string option"

record StructLog =
  sl_Pc :: u64
  sl_Op :: string
  sl_Gas :: u64
  sl_GasCost :: u64
  sl_Depth :: int
  sl_Error :: string
  sl_Stack :: "hash list option"
  sl_Memory :: "bytes option"
  sl_Storage :: "(hash, hash) gomap option"

text \<open>\<^verbatim>\<open>filters.FilterCriteria\<close>.\<close>

record FilterCriteria =
  fc_BlockHash :: "hash option"
  fc_FromBlock :: "int option"
  fc_ToBlock :: "int option"
  fc_Addresses :: "address list"
  fc_Topics :: "hash list list"

section \<open>Parameters\<close>

record 't geth =
  g_tx :: tx_env
  g_hdr :: hdr_env
  g_setSignature :: "int \<Rightarrow> int \<Rightarrow> int \<Rightarrow> int \<Rightarrow> Transaction \<Rightarrow> Transaction"
  g_AsMessage :: "tx_signer \<Rightarrow> Transaction \<Rightarrow> Message"
  g_UnmarshalBinary :: "bytes \<Rightarrow> string + Transaction"
  g_ApplyMessage :: "BlockEnv \<Rightarrow> ChainConfig \<Rightarrow> Message \<Rightarrow> u64 \<Rightarrow> ((string + ExecutionResult) \<times> u64) evm_prog"
  g_UnpackRevert :: "bytes \<Rightarrow> string + string"
  g_CreateAddress :: "address \<Rightarrow> u64 \<Rightarrow> address"
  g_NewTracer :: "string \<Rightarrow> TraceContext \<Rightarrow> string option \<Rightarrow> string + 't"
  g_NewStructLogger :: "LogConfig option \<Rightarrow> 't"
  g_StructLogs :: "'t \<Rightarrow> StructLog list option"
  g_capture :: "evm_event \<Rightarrow> 't \<Rightarrow> 't evm_prog"
  g_GetResult :: "'t \<Rightarrow> bytes \<times> string option"
  g_ParseDuration :: "string \<Rightarrow> string option"
  g_GetPtr :: "bytes \<Rightarrow> int \<Rightarrow> int \<Rightarrow> bytes option"
  g_Bind :: bind_env
  g_SelfBind :: bind_env
  g_schedule :: "nat \<Rightarrow> nat \<Rightarrow> nat"
  n_Dial :: "nat \<Rightarrow> string \<Rightarrow> string option"
  n_ChainID :: "nat \<Rightarrow> string + int"
  n_getBlockByNumber :: "nat \<Rightarrow> string \<Rightarrow> string + Header option option"
  n_BlockByNumber :: "nat \<Rightarrow> int option \<Rightarrow> string + Block"
  n_BlockByHash :: "nat \<Rightarrow> hash \<Rightarrow> string + Block"
  n_BlockNumber :: "nat \<Rightarrow> string + u64"
  n_NonceAt :: "nat \<Rightarrow> address \<Rightarrow> string + u64"
  n_BalanceAt :: "nat \<Rightarrow> address \<Rightarrow> int \<Rightarrow> string + int"
  n_FilterLogs :: "nat \<Rightarrow> FilterCriteria \<Rightarrow> string + Log list"
  n_eth_call :: "nat \<Rightarrow> (string, json) gomap \<Rightarrow> string \<Rightarrow> StateOverride \<Rightarrow> string + bytes"

section \<open>Numbers as text\<close>

fun digits_of :: "nat \<Rightarrow> nat \<Rightarrow> string" where
  "digits_of b n = (if b < 2 \<or> n < b then [hex_digit n] else digits_of b (n div b) @ [hex_digit (n mod b)])"

declare digits_of.simps [simp del]

definition fmt_d :: "nat \<Rightarrow> string" where
  "fmt_d n = digits_of 10 n"

definition fmt_x :: "int \<Rightarrow> string" where
  "fmt_x n = (if n < 0 then ''-'' else []) @ digits_of 16 (nat \<bar>n\<bar>)"

text \<open>Reading a number back from its digits.\<close>

definition digits_val :: "nat \<Rightarrow> string \<Rightarrow> nat" where
  "digits_val b s = foldl (\<lambda>n c. n * b + (case hex_value c of Some d \<Rightarrow> d | None \<Rightarrow> 0)) 0 s"

lemma digits_val_digits_of: "2 \<le> b \<Longrightarrow> b \<le> 16 \<Longrightarrow> digits_val b (digits_of b n) = n"
proof (induction b n rule: digits_of.induct)
  case (1 b n)
  have "hex_value (hex_digit k) = Some k" if "k < b" for k using that 1(3) by (simp add: hex_value_hex_digit)
  with 1 show ?case by (subst digits_of.simps) (auto simp: digits_val_def)
qed

lemma digits_of_digits: "2 \<le> b \<Longrightarrow> set (digits_of b n) \<subseteq> hex_digit ` {..<b}"
proof (induction b n rule: digits_of.induct)
  case (1 b n)
  then show ?case by (subst digits_of.simps) auto
qed

lemma digits_of_not_empty: "digits_of b n \<noteq> []"
  by (subst digits_of.simps) simp

section \<open>Tracers in use\<close>

text \<open>The values an \<^verbatim>\<open>EVMLogger\<close> of this program can have.\<close>

datatype 't tracer =
    NoTracer
  | External 't
  | Keccak KeccakTracer
  | StateT StateTracer

fun capture_any :: "env \<Rightarrow> 't geth \<Rightarrow> evm_event \<Rightarrow> 't tracer \<Rightarrow> 't tracer evm_prog" where
  "capture_any E X e NoTracer = Panic"
| "capture_any E X e (External t) = map_evm_prog External (g_capture X e t)"
| "capture_any E X e (Keccak t) = map_evm_prog Keccak (Keccak_capture (keccak256 E) (g_GetPtr X) e t)"
| "capture_any E X e (StateT t) = map_evm_prog StateT (State_capture e t)"

section \<open>What the program relies on\<close>

text \<open>
  Two facts about go-ethereum: its virtual machine only returns to snapshots that it took in the
  same run and has not gone back past (it is answered by a journal that starts without saved
  copies), and tracers only read the state database and do not fail.
\<close>

definition machine_ok :: "'t geth \<Rightarrow> bool" where
  "machine_ok X \<longleftrightarrow>
     (\<forall>b c m g j. j_saved j = [] \<longrightarrow> run_quiet jstep (g_ApplyMessage X b c m g) j \<noteq> None) \<and>
     (\<forall>b c m g j t. j_saved j = [] \<longrightarrow> run_traced jstep (g_capture X) (g_ApplyMessage X b c m g) t j \<noteq> None)"

lemma machine_quiet:
  assumes "machine_ok X" "db_ok E db w"
  shows "\<exists>r db' w'. run_quiet (db_step E) (g_ApplyMessage X b c m g) (db, w) = Some (r, db', w') \<and>
    on_base E (state db) w db (db', w')"
proof -
  have "j_saved (abs_journal E (state db) db w) = []" by (simp add: abs_journal_def saved.simps)
  with assms(1) obtain r j' where
    "run_quiet jstep (g_ApplyMessage X b c m g) (abs_journal E (state db) db w) = Some (r, j')"
    unfolding machine_ok_def by (metis not_None_eq old.prod.exhaust)
  from run_quiet_on [OF assms(2) this] show ?thesis by blast
qed

end
