(* ===== verification/MferEVM.thy ===== *)
theory MferEVM
  imports Chain
begin

text \<open>
  \<^verbatim>\<open>mferevm/evm.go\<close>: the object that owns the state database, the block context and the gas pool,
  and that executes messages and transactions on a state database. Its block number is a pointer
  that it shares with the state database and the root layer: the cell \<open>blockNumber\<close> of the world.
  Locks, contexts and connections are left out; goroutines appear as the sequence of their effects.
\<close>

section \<open>The object\<close>

record 't MferEVM =
  StateDB :: "OverlayStateDB option"
  keyCacheFilePath :: string
  evm_maxKeyCache :: u64
  evm_batchSize :: int
  vmContext :: BlockContext
  gasPool :: u64
  chainConfig :: ChainConfig
  evm_impersonatedAccount :: address
  timeDelta :: u64
  blockNumberDelta :: u64
  tracer :: "'t tracer"
  pinBlock :: bool

section \<open>The upstream URL\<close>

definition go_Atoi :: "string \<Rightarrow> int option" where
  "go_Atoi s =
     (let (neg, ds) = (case s of c # cs \<Rightarrow> if c = CHR ''-'' then (True, cs)
                                  else if c = CHR ''+'' then (False, cs) else (False, s)
                              | [] \<Rightarrow> (False, s));
          digit = (\<lambda>c. case hex_value c of Some d \<Rightarrow> if d < 10 then Some d else None | None \<Rightarrow> None);
          n = foldl (\<lambda>acc c. do { a \<leftarrow> acc; d \<leftarrow> digit c; Some (a * 10 + int d) }) (Some 0) ds
      in if ds = [] then None
         else case n of None \<Rightarrow> None
              | Some v \<Rightarrow> (let r = (if neg then - v else v) in
                           if - (2 ^ 63) \<le> r \<and> r < 2 ^ 63 then Some r else None))"

fun split_on :: "char \<Rightarrow> string \<Rightarrow> string list" where
  "split_on c [] = [[]]"
| "split_on c (x # xs) =
     (if x = c then [] # split_on c xs
      else (case split_on c xs of p # ps \<Rightarrow> (x # p) # ps | [] \<Rightarrow> [[x]]))"

definition LastIndex :: "string \<Rightarrow> string \<Rightarrow> int" where
  "LastIndex s sub =
     (case filter (\<lambda>i. take (length sub) (drop i s) = sub) [0..<Suc (length s)] of
        [] \<Rightarrow> -1
      | is \<Rightarrow> int (last is))"

definition parse_upstream :: "string \<Rightarrow> (string \<times> u64 option) option" where
  "parse_upstream rawurl =
     (let splitted = split_on (CHR ''@'') rawurl in
      if length splitted > 1 then do {
        let bnStr = last splitted;
        n \<leftarrow> go_Atoi bnStr;
        url \<leftarrow> go_slice rawurl 0 (LastIndex rawurl (''@'' @ bnStr));
        Some (url, Some (word_of_int n))
      } else Some (rawurl, None))"

section \<open>The block context\<close>

definition set_big :: "nat \<Rightarrow> int \<Rightarrow> world \<Rightarrow> world" where
  "set_big i v w = w\<lparr>bigs := (bigs w)[i := v]\<rparr>"

definition block_env :: "BlockContext \<Rightarrow> world \<Rightarrow> BlockEnv" where
  "block_env c w = \<lparr>be_Coinbase = bc_Coinbase c, be_GasLimit = bc_GasLimit c,
     be_BaseFee = bigs w ! bc_BaseFee c, be_BlockNumber = bigs w ! bc_BlockNumber c,
     be_Time = bigs w ! bc_Time c, be_Difficulty = bigs w ! bc_Difficulty c\<rparr>"

definition GetBlockHeader :: "'t geth \<Rightarrow> string \<Rightarrow> world \<Rightarrow> Header option \<times> world" where
  "GetBlockHeader X tag w = (case ask (\<lambda>t. n_getBlockByNumber X t tag) w of
     (Inl err, w1) \<Rightarrow> (None, w1)
   | (Inr None, w1) \<Rightarrow> (None, w1)
   | (Inr (Some None), w1) \<Rightarrow> (None, w1)
   | (Inr (Some (Some head)), w1) \<Rightarrow> (Some head, w1))"

definition EVM_ChainID :: "'t MferEVM \<Rightarrow> int" where
  "EVM_ChainID a = cc_ChainID (chainConfig a)"

definition SetBlockNumber :: "u64 \<Rightarrow> world \<Rightarrow> world" where
  "SetBlockNumber n w = w\<lparr>blockNumber := n\<rparr>"

definition AddGasPool :: "'t MferEVM \<Rightarrow> 't MferEVM" where
  "AddGasPool a = a\<lparr>gasPool := bc_GasLimit (vmContext a)\<rparr>"

definition ResetToRoot :: "env \<Rightarrow> 't MferEVM \<Rightarrow> world \<Rightarrow> ('t MferEVM \<times> world) option" where
  "ResetToRoot E a w = do {
     db \<leftarrow> StateDB a;
     (db1, w1) \<leftarrow> InitState E db False False w;
     w2 \<leftarrow> InitFakeAccounts E db1 w1;
     Some (AddGasPool (a\<lparr>StateDB := Some db1\<rparr>), w2)
   }"

definition setVMContext :: "'t geth \<Rightarrow> 't MferEVM \<Rightarrow> world \<Rightarrow> Header option \<times> 't MferEVM \<times> world" where
  "setVMContext X a w =
     (case GetBlockHeader X (if pinBlock a then ''0x'' @ fmt_x (uint (blockNumber w)) else ''latest'') w of
        (None, w1) \<Rightarrow> (None, a, w1)
      | (Some header, w1) \<Rightarrow>
          (let c = vmContext a;
               w2 = set_big (bc_BlockNumber c) (sint (big_Uint64 (hd_Number header) + 1 + blockNumberDelta a)) w1;
               w3 = set_big (bc_Time c) (sint (hd_Time header + timeDelta a)) w2;
               w4 = set_big (bc_Difficulty c) (hd_Difficulty header) w3
           in (Some header,
               a\<lparr>vmContext := c\<lparr>bc_Coinbase := hd_Coinbase header, bc_GasLimit := hd_GasLimit header\<rparr>\<rparr>,
               w4)))"

definition SetVMContextByBlockHeader ::
  "Header option \<Rightarrow> 't MferEVM \<Rightarrow> world \<Rightarrow> ('t MferEVM \<times> world) option" where
  "SetVMContextByBlockHeader h a w = do {
     header \<leftarrow> h;
     let c = vmContext a;
     let w1 = set_big (bc_BlockNumber c) (sint (big_Uint64 (hd_Number header))) w;
     let w2 = set_big (bc_Time c) (sint (hd_Time header + timeDelta a)) w1;
     let w3 = set_big (bc_Difficulty c) (hd_Difficulty header) w2;
     Some (a\<lparr>vmContext := c\<lparr>bc_GasLimit := hd_GasLimit header\<rparr>\<rparr>, w3)
   }"

definition GetVMContext :: "'t MferEVM \<Rightarrow> BlockContext" where
  "GetVMContext a = vmContext a"

definition GetChainConfig :: "'t MferEVM \<Rightarrow> ChainConfig" where
  "GetChainConfig a = chainConfig a"

definition SetTimeDelta :: "u64 \<Rightarrow> 't MferEVM \<Rightarrow> 't MferEVM" where
  "SetTimeDelta delta a = a\<lparr>timeDelta := delta\<rparr>"

definition GetTimeDelta :: "'t MferEVM \<Rightarrow> u64" where
  "GetTimeDelta a = timeDelta a"

definition SetBlockNumberDelta :: "u64 \<Rightarrow> 't MferEVM \<Rightarrow> 't MferEVM" where
  "SetBlockNumberDelta delta a = a\<lparr>blockNumberDelta := delta\<rparr>"

definition GetBlockNumberDelta :: "'t MferEVM \<Rightarrow> u64" where
  "GetBlockNumberDelta a = blockNumberDelta a"

definition SetTracer :: "'t tracer \<Rightarrow> 't MferEVM \<Rightarrow> 't MferEVM" where
  "SetTracer t a = a\<lparr>tracer := t\<rparr>"

section \<open>Start-up and reset\<close>

text \<open>
  \<^verbatim>\<open>Prepare\<close>: an error of the chain id request is returned (\<^const>\<open>Some\<close>); a nil header is dereferenced.
  \<^verbatim>\<open>core.DefaultGenesisBlock().Config\<close> is the address of one global configuration, so assigning it anew
  before the request changes nothing once \<^verbatim>\<open>Prepare\<close> has run.
\<close>

definition Prepare :: "env \<Rightarrow> 't geth \<Rightarrow> 't MferEVM \<Rightarrow> world \<Rightarrow> (string option \<times> 't MferEVM \<times> world) option" where
  "Prepare E X a w = (case ask (n_ChainID X) w of
     (Inl err, w1) \<Rightarrow> Some (Some err, a, w1)
   | (Inr chain, w1) \<Rightarrow> do {
       let a1 = a\<lparr>chainConfig := \<lparr>cc_ChainID = chain, cc_ByzantiumBlock = 0, cc_ConstantinopleBlock = 0\<rparr>\<rparr>;
       let n = length (bigs w1);
       let w2 = w1\<lparr>bigs := bigs w1 @ [0, 0, 0, 0]\<rparr>;
       let a2 = a1\<lparr>vmContext := \<lparr>bc_Coinbase = 0xaabbccddaabbccddaabbccddaabbccddaabbccdd, bc_GasLimit = 0,
                   bc_BaseFee = n, bc_BlockNumber = n + 1, bc_Time = n + 2, bc_Difficulty = n + 3\<rparr>\<rparr>;
       let (h, a3, w3) = setVMContext X a2 w2;
       header \<leftarrow> h;
       let w4 = SetBlockNumber (big_Uint64 (hd_Number header)) w3;
       let (db, w5) = (case StateDB a3 of
                         Some db \<Rightarrow> (db, w4)
                       | None \<Rightarrow> NewOverlayStateDB E (keyCacheFilePath a3) (evm_maxKeyCache a3) (evm_batchSize a3) w4);
       (db1, w6) \<leftarrow> InitState E db True False w5;
       w7 \<leftarrow> InitFakeAccounts E db1 w6;
       Some (None, AddGasPool (a3\<lparr>StateDB := Some db1\<rparr>), w7)
     })"

partial_function (option) dial_loop :: "'t geth \<Rightarrow> string \<Rightarrow> world \<Rightarrow> world option" where
  "dial_loop X url w = (case ask (\<lambda>t. n_Dial X t url) w of
     (None, w1) \<Rightarrow> Some w1
   | (Some err, w1) \<Rightarrow> dial_loop X url w1)"

partial_function (option) start_loop ::
  "env \<Rightarrow> 't geth \<Rightarrow> string \<Rightarrow> u64 option \<Rightarrow> 't MferEVM \<Rightarrow> world \<Rightarrow> ('t MferEVM \<times> world) option" where
  "start_loop E X url specificBlock a w = do {
     w1 \<leftarrow> dial_loop X url w;
     let w2 = SetBlockNumber (case specificBlock of Some n \<Rightarrow> n | None \<Rightarrow> 0) w1;
     (err, a1, w3) \<leftarrow> Prepare E X (a\<lparr>pinBlock := pinBlock a \<or> specificBlock \<noteq> None\<rparr>) w2;
     (case err of None \<Rightarrow> Some (a1, w3) | Some e \<Rightarrow> start_loop E X url specificBlock a1 w3)
   }"

definition NewMferEVM ::
  "env \<Rightarrow> 't geth \<Rightarrow> string \<Rightarrow> address \<Rightarrow> string \<Rightarrow> u64 \<Rightarrow> int \<Rightarrow> world \<Rightarrow> ('t MferEVM \<times> world) option" where
  "NewMferEVM E X rawurl account path maxKeys bsize w = do {
     (url, specificBlock) \<leftarrow> parse_upstream rawurl;
     start_loop E X url specificBlock
       \<lparr>StateDB = None, keyCacheFilePath = path, evm_maxKeyCache = maxKeys, evm_batchSize = bsize,
        vmContext = \<lparr>bc_Coinbase = 0, bc_GasLimit = 0, bc_BaseFee = 0, bc_BlockNumber = 0, bc_Time = 0,
                     bc_Difficulty = 0\<rparr>,
        gasPool = 0, chainConfig = \<lparr>cc_ChainID = 0, cc_ByzantiumBlock = 0, cc_ConstantinopleBlock = 0\<rparr>,
        evm_impersonatedAccount = account, timeDelta = 0, blockNumberDelta = 0, tracer = NoTracer,
        pinBlock = False\<rparr> w
   }"

text \<open>
  One turn of the loop of \<^verbatim>\<open>updatePendingBN\<close>, for the event it wakes up on. The first component tells
  whether \<^verbatim>\<open>mfer_reExecTxPool\<close> is called.
\<close>

datatype wakeup = CheckMissingTrieNode | Ticker5Sec | NewHead

definition go_Contains :: "string \<Rightarrow> string \<Rightarrow> bool" where
  "go_Contains s sub \<longleftrightarrow> (\<exists>i \<in> set [0..<Suc (length s)]. take (length sub) (drop i s) = sub)"

definition updatePendingBN ::
  "'t geth \<Rightarrow> wakeup \<Rightarrow> 't MferEVM \<Rightarrow> world \<Rightarrow> (bool \<times> 't MferEVM \<times> world) option" where
  "updatePendingBN X ev a w = do {
     (again, a1, w1) \<leftarrow> (case ev of
        CheckMissingTrieNode \<Rightarrow>
          (case StateDB a of
             None \<Rightarrow> Some (False, a, w)
           | Some db \<Rightarrow> do {
               stateHeight \<leftarrow> StateBlockNumber db w;
               (case ask (\<lambda>t. n_BalanceAt X t 0 (sint stateHeight)) w of
                  (Inl err, w1) \<Rightarrow> (if go_Contains err ''missing trie node'' then Some (True, a, w1) else None)
                | (Inr balance, w1) \<Rightarrow> Some (sgn balance = 0, a, w1))
             })
      | _ \<Rightarrow> (let (h, a1, w1) = setVMContext X a w in Some (False, a1, w1)));
     (case StateDB a1 of
        None \<Rightarrow> Some (again, a1, w1)
      | Some db \<Rightarrow> do {
          cacheSize \<leftarrow> CacheSize db w1;
          bn \<leftarrow> StateBlockNumber db w1;
          cnt \<leftarrow> RPCRequestCount db w1;
          Some (again, a1, w1)
        })
   }"

section \<open>Executing messages\<close>

definition rootHash :: "env \<Rightarrow> hash" where
  "rootHash E = keccak256 E (str_bytes ''fake state root'')"

definition blockHash :: "env \<Rightarrow> hash" where
  "blockHash E = keccak256 E (str_bytes ''fake block hash'')"

definition EVM_TxToMessage :: "'t geth \<Rightarrow> 't MferEVM \<Rightarrow> Transaction \<Rightarrow> Message" where
  "EVM_TxToMessage X a tx = TxToMessage (g_AsMessage X) (EVM_ChainID a) tx"

text \<open>
  The tracer that \<^verbatim>\<open>ExecuteMsg\<close> runs with: \<^const>\<open>None\<close> is a panic (the embedded logger configuration is
  dereferenced when no tracer is named), \<^const>\<open>Inl\<close> an error.
\<close>

definition log_config :: "TraceConfig \<Rightarrow> LogConfig option" where
  "log_config config = map_option (\<lambda>c. c\<lparr>lc_EnableMemory := True, lc_EnableReturnData := True,
     lc_DisableStorage := False\<rparr>) (tc_Config config)"

definition named_tracer :: "'t geth \<Rightarrow> TraceContext \<Rightarrow> TraceConfig \<Rightarrow> string \<Rightarrow> string + 't" where
  "named_tracer X txctx config name = (case Option.bind (tc_Timeout config) (g_ParseDuration X) of
     Some err \<Rightarrow> Inl err
   | None \<Rightarrow> g_NewTracer X name txctx (tc_TracerConfig config))"

definition exec_tracer :: "'t geth \<Rightarrow> TraceContext \<Rightarrow> TraceConfig option \<Rightarrow> (string + 't) option" where
  "exec_tracer X txctx config = (case config of
     None \<Rightarrow> (case g_NewTracer X ''callTracer'' txctx None of Inl err \<Rightarrow> None | Inr t \<Rightarrow> Some (Inr t))
   | Some cfg \<Rightarrow> (case tc_Tracer cfg of
       Some name \<Rightarrow> Some (named_tracer X txctx cfg name)
     | None \<Rightarrow> (case log_config cfg of
         None \<Rightarrow> None
       | Some c \<Rightarrow> Some (Inr (g_NewStructLogger X (Some c))))))"

definition trace_log :: "env \<Rightarrow> bytes \<Rightarrow> Log" where
  "trace_log E traceResult = \<lparr>log_Address = 0x3fe75afe000000003fe75afe000000003fe75afe,
     log_Topics = [keccak256 E (str_bytes ''TRACE'')], log_Data = traceResult\<rparr>"

definition exec_receipt ::
  "env \<Rightarrow> 't geth \<Rightarrow> 't MferEVM \<Rightarrow> Message \<Rightarrow> hash \<Rightarrow> nat \<Rightarrow> ExecutionResult \<Rightarrow> Log list \<Rightarrow> Receipt" where
  "exec_receipt E X a msg txHash txIndex r logs =
     \<lparr>rcpt_Type = 0, rcpt_PostState = Hash_Bytes (rootHash E),
      rcpt_Status = (if er_Failed r then 0 else 1), rcpt_CumulativeGasUsed = er_UsedGas r,
      rcpt_Logs = logs, rcpt_TxHash = txHash,
      rcpt_ContractAddress = (if msg_To msg = None then g_CreateAddress X (msg_From msg) (msg_Nonce msg) else 0),
      rcpt_GasUsed = er_UsedGas r, rcpt_BlockHash = blockHash E,
      rcpt_BlockNumber = bc_BlockNumber (vmContext a), rcpt_TransactionIndex = txIndex\<rparr>"

definition exec_error :: "'t geth \<Rightarrow> ExecutionResult \<Rightarrow> string option" where
  "exec_error X r =
     (if er_Revert r \<noteq> [] \<or> er_Err r \<noteq> None then Some (revert_text (g_UnpackRevert X) (er_Revert r)) else None)"

definition ExecuteMsg ::
  "env \<Rightarrow> 't geth \<Rightarrow> 't MferEVM \<Rightarrow> OverlayStateDB \<Rightarrow> Message \<Rightarrow> hash \<Rightarrow> nat \<Rightarrow> TraceConfig option \<Rightarrow> world \<Rightarrow>
   ((u64 \<times> string option) \<times> 't MferEVM \<times> OverlayStateDB \<times> world) option" where
  "ExecuteMsg E X a db msg txHash txIndex config w = do {
     let w1 = SetCodeHash E db (msg_From msg) 0 w;
     let (snapshot, db1, w2) = Snapshot E db w1;
     t \<leftarrow> exec_tracer X \<lparr>tx_BlockHash = blockHash E, tx_TxHash = txHash, tx_TxIndex = int txIndex\<rparr> config;
     (case t of
        Inl err \<Rightarrow> Some ((0, Some err), a, db1, w2)
      | Inr trc \<Rightarrow> do {
          let w3 = StartLogCollection db1 txHash (blockHash E) w2;
          ((res, gp), trc', db2, w4) \<leftarrow>
            run_traced (db_step E) (g_capture X)
              (g_ApplyMessage X (block_env (vmContext a) w3) (chainConfig a) msg (gasPool a)) trc (db1, w3);
          let a1 = a\<lparr>gasPool := gp\<rparr>;
          (case res of
             Inl err \<Rightarrow> do {
               db3 \<leftarrow> RevertToSnapshot db2 snapshot w4;
               Some ((0, Some err), a1, db3, w4)
             }
           | Inr msgResult \<Rightarrow> do {
               let (traceResult, traceErr) = g_GetResult X trc';
               txExecutionLogs \<leftarrow> GetLogs db2 txHash w4;
               let traceLogs = trace_log E traceResult;
               let receipt = exec_receipt E X a1 msg txHash txIndex msgResult (txExecutionLogs @ [traceLogs]);
               let w5 = AddLog db2 traceLogs w4;
               let w6 = AddReceipt db2 txHash receipt w5;
               Some ((er_UsedGas msgResult, exec_error X msgResult), a1, db2, w6)
             })
        })
   }"

definition supplied_gas :: "string \<Rightarrow> Message \<Rightarrow> string" where
  "supplied_gas err msg = ''err: '' @ err @ '' (supplied gas '' @ fmt_d (unat (msg_Gas msg)) @ '')''"

definition DoCall ::
  "env \<Rightarrow> 't geth \<Rightarrow> 't MferEVM \<Rightarrow> Message \<Rightarrow> bool \<Rightarrow> OverlayStateDB \<Rightarrow> world \<Rightarrow>
   ((string + ExecutionResult) \<times> 't MferEVM \<times> OverlayStateDB \<times> world) option" where
  "DoCall E X a msg debug db w = do {
     let w1 = SetCodeHash E db (msg_From msg) 0 w;
     let prog = g_ApplyMessage X (block_env (vmContext a) w1) (chainConfig a) msg (- 1);
     ((res, gp), t', db1, w2) \<leftarrow>
       (if debug then run_traced (db_step E) (capture_any E X) prog (tracer a) (db, w1)
        else do { (r, db1, w2) \<leftarrow> run_quiet (db_step E) prog (db, w1); Some (r, tracer a, db1, w2) });
     Some (case res of Inl err \<Rightarrow> Inl (supplied_gas err msg) | Inr r \<Rightarrow> Inr r,
           a\<lparr>tracer := t'\<rparr>, db1, w2)
   }"

section \<open>Warming up the cache\<close>

text \<open>
  \<^verbatim>\<open>WarmUpCache\<close>: twenty workers, each on its own clone, take the transactions from a channel. Which
  worker takes a transaction is up to the scheduler, the parameter \<open>g_schedule\<close>.
\<close>

fun make_clones :: "env \<Rightarrow> nat \<Rightarrow> OverlayStateDB \<Rightarrow> world \<Rightarrow> OverlayStateDB list \<times> world" where
  "make_clones E 0 db w = ([], w)"
| "make_clones E (Suc n) db w =
     (let (c, w1) = Clone E db w; (cs, w2) = make_clones E n db w1 in (c # cs, w2))"

definition warm_tx ::
  "env \<Rightarrow> 't geth \<Rightarrow> 't MferEVM \<Rightarrow> Transaction \<Rightarrow> OverlayStateDB \<Rightarrow> world \<Rightarrow> (OverlayStateDB \<times> world) option" where
  "warm_tx E X a tx db w = do {
     let msg = EVM_TxToMessage X a tx;
     let w1 = StartLogCollection db (te_hash (g_tx X) tx) (blockHash E) w;
     (r, db1, w2) \<leftarrow> run_quiet (db_step E)
       (g_ApplyMessage X (block_env (vmContext a) w1) (chainConfig a) msg (- 1)) (db, w1);
     Some (db1, w2)
   }"

fun warm_loop ::
  "env \<Rightarrow> 't geth \<Rightarrow> 't MferEVM \<Rightarrow> Transaction list \<Rightarrow> OverlayStateDB list \<Rightarrow> world \<Rightarrow> world option" where
  "warm_loop E X a [] workers w = Some w"
| "warm_loop E X a (tx # txs) workers w = do {
     let i = g_schedule X (clock w) (length txs) mod length workers;
     (db1, w1) \<leftarrow> warm_tx E X a tx (workers ! i) w;
     warm_loop E X a txs (workers[i := db1]) w1
   }"

definition WarmUpCache ::
  "env \<Rightarrow> 't geth \<Rightarrow> 't MferEVM \<Rightarrow> Transaction list \<Rightarrow> OverlayStateDB \<Rightarrow> world \<Rightarrow> world option" where
  "WarmUpCache E X a txs db w = do {
     let (workers, w1) = make_clones E 20 db w;
     w2 \<leftarrow> warm_loop E X a txs workers w1;
     (cl, w3) \<leftarrow> CloneFromRoot E db w2;
     cacheSize \<leftarrow> CacheSize cl w3;
     Some w3
   }"

fun exec_loop ::
  "env \<Rightarrow> 't geth \<Rightarrow> 't MferEVM \<Rightarrow> nat \<Rightarrow> Transaction list \<Rightarrow> OverlayStateDB \<Rightarrow> TraceConfig option \<Rightarrow> world \<Rightarrow>
   (string option list \<times> 't MferEVM \<times> OverlayStateDB \<times> world) option" where
  "exec_loop E X a i [] db config w = Some ([], a, db, w)"
| "exec_loop E X a i (tx # txs) db config w = do {
     w1 \<leftarrow> (if i < 100 then (let (cl, w1) = Clone E db w in WarmUpCache E X a (tx # txs) cl w1) else Some w);
     ((gas, result), a1, db1, w2) \<leftarrow>
       ExecuteMsg E X a db (EVM_TxToMessage X a tx) (te_hash (g_tx X) tx) i config w1;
     (results, a2, db2, w3) \<leftarrow> exec_loop E X a1 (Suc i) txs db1 config w2;
     Some (result # results, a2, db2, w3)
   }"

definition ExecuteTxs ::
  "env \<Rightarrow> 't geth \<Rightarrow> 't MferEVM \<Rightarrow> Transaction list \<Rightarrow> OverlayStateDB \<Rightarrow> TraceConfig option \<Rightarrow> world \<Rightarrow>
   (string option list \<times> 't MferEVM \<times> OverlayStateDB \<times> world) option" where
  "ExecuteTxs E X a txs db config w = exec_loop E X a 0 txs db config w"

section \<open>Warming up leaves the state alone\<close>

lemma make_clones_ok:
  assumes "db_ok E db w" "make_clones E n db w = (cs, w')"
  shows "grown E w w' \<and> length cs = n \<and> (\<forall>c\<in>set cs. db_ok E c w' \<and> length (heap w) \<le> state c)"
  using assms
proof (induction n arbitrary: w cs w')
  case 0
  then show ?case by (simp add: grown_refl db_ok_parts)
next
  case (Suc n)
  obtain c w1 cs1 where c: "Clone E db w = (c, w1)" "make_clones E n db w1 = (cs1, w')" "cs = c # cs1"
    using Suc.prems(2) by (auto split: prod.splits)
  note g = Clone_grown [OF Suc.prems(1) c(1)]
  note IH = Suc.IH [OF grown_db_ok [OF g(1) Suc.prems(1)] c(2)]
  have "db_ok E c w'" using IH g(2) grown_db_ok by blast
  moreover have "length (heap w) \<le> length (heap w1)" using g(1) by (simp add: grown_def below_def)
  ultimately show ?case using IH g c(3) by (auto intro: grown_trans)
qed

lemma warm_tx_ok:
  assumes "machine_ok X" "db_ok E db w"
  shows "\<exists>db' w'. warm_tx E X a tx db w = Some (db', w') \<and> moved E (db, w) (db', w')"
proof -
  let ?w1 = "StartLogCollection db (te_hash (g_tx X) tx) (blockHash E) w"
  note m = moved_StartLog [OF assms(2), of "te_hash (g_tx X) tx" "blockHash E"]
  from machine_quiet [OF assms(1) moved_parts(1) [OF m]] obtain r db' w' where
    r: "run_quiet (db_step E) (g_ApplyMessage X (block_env (vmContext a) ?w1) (chainConfig a)
        (EVM_TxToMessage X a tx) (- 1)) (db, ?w1) = Some (r, db', w')" "on_base E (state db) ?w1 db (db', w')" by blast
  from moved_trans [OF m on_base_moved [OF r(2)]] r(1) show ?thesis
    by (simp add: warm_tx_def Let_def)
qed

lemma warm_loop_ok:
  assumes "machine_ok X" "\<forall>c\<in>set workers. db_ok E c w1 \<and> n \<le> state c" "workers \<noteq> []"
    and "below n w w1" "wf_world E w1"
  shows "\<exists>w2. warm_loop E X a txs workers w1 = Some w2 \<and> below n w w2 \<and> wf_world E w2"
  using assms(2-)
proof (induction txs arbitrary: workers w1)
  case (Cons tx txs)
  let ?i = "g_schedule X (clock w1) (length txs) mod length workers"
  have i: "?i < length workers" using Cons.prems(2) by simp
  then have c: "db_ok E (workers ! ?i) w1" "n \<le> state (workers ! ?i)" using Cons.prems(1) by auto
  from warm_tx_ok [OF assms(1) c(1), of a tx] obtain db' w2 where
    s: "warm_tx E X a tx (workers ! ?i) w1 = Some (db', w2)" "moved E (workers ! ?i, w1) (db', w2)" by blast
  note g = moved_above_grown [OF s(2) Cons.prems(3) c(2)]
  have "\<forall>c\<in>set (workers[?i := db']). db_ok E c w2 \<and> n \<le> state c"
    using set_update_subset_insert [of workers ?i db'] moved_other_ok [OF s(2) c(1)] moved_parts(1) [OF s(2)]
      g(2) Cons.prems(1) by blast
  moreover have "wf_world E w2" using moved_parts(1) [OF s(2)] by (rule db_ok_parts)
  ultimately show ?case using Cons.IH [of "workers[?i := db']" w2] g(1) Cons.prems(2) s(1)
    by (auto simp: Let_def)
qed auto

lemma WarmUpCache_ok:
  assumes "machine_ok X" "db_ok E db w"
  shows "\<exists>w'. WarmUpCache E X a txs db w = Some w' \<and> grown E w w'"
proof -
  obtain cs w1 where c: "make_clones E 20 db w = (cs, w1)" by fastforce
  note m = make_clones_ok [OF assms(2) c]
  then have "cs \<noteq> []" by auto
  with m warm_loop_ok [OF assms(1), of cs E w1 "length (heap w)" w a txs] obtain w2 where
    w2: "warm_loop E X a txs cs w1 = Some w2" "below (length (heap w)) w w2" "wf_world E w2"
    by (auto simp: grown_def)
  then have g2: "grown E w w2" by (simp add: grown_def)
  from CloneFromRoot_ok [OF grown_db_ok [OF g2 assms(2)]] obtain cl w3 where
    w3: "CloneFromRoot E db w2 = Some (cl, w3)" by blast
  note g3 = CloneFromRoot_grown [OF grown_db_ok [OF g2 assms(2)] w3]
  obtain n where "CacheSize cl w3 = Some n" using CacheSize_ok [OF g3(2)] by blast
  with c w2(1) w3 grown_trans [OF g2 g3(1)] show ?thesis by (simp add: WarmUpCache_def)
qed

section \<open>Parsing the upstream URL\<close>

lemma split_on_not_empty [simp]: "split_on c s \<noteq> []"
  by (induction s) (auto split: list.splits)

lemma split_on_none: "c \<notin> set s \<Longrightarrow> split_on c s = [s]"
  by (induction s) auto

lemma split_on_last: "c \<notin> set s \<Longrightarrow> last (split_on c (u @ c # s)) = s \<and> 1 < length (split_on c (u @ c # s))"
  by (induction u) (auto simp: split_on_none neq_Nil_conv split: list.splits)

lemma LastIndex_suffix:
  assumes "s \<noteq> []"
  shows "LastIndex (u @ s) s = int (length u)"
proof -
  let ?P = "\<lambda>i. take (length s) (drop i (u @ s)) = s"
  have up: "[0..<Suc (length (u @ s))] = [0..<length u] @ [length u] @ [Suc (length u)..<Suc (length (u @ s))]"
    using upt_add_eq_append [of 0 "length u" "Suc (length s)"] by (simp add: upt_conv_Cons [of "length u"] del: upt_Suc)
  have "\<not> ?P i" if "length u < i" for i
  proof
    assume "?P i"
    then have "length (take (length s) (drop i (u @ s))) = length s" by (rule arg_cong)
    then have "length s \<le> length u + length s - i" by (simp add: min_def split: if_splits)
    moreover have "0 < length s" using assms by simp
    ultimately show False using that by linarith
  qed
  then have "filter ?P [Suc (length u)..<Suc (length (u @ s))] = []" by (auto simp: filter_empty_conv simp del: drop_append)
  then have e: "filter ?P [0..<Suc (length (u @ s))] = filter ?P [0..<length u] @ [length u]"
    unfolding up filter_append by simp
  show ?thesis unfolding LastIndex_def e by (cases "filter ?P [0..<length u]") simp_all
qed

lemma parse_upstream_last:
  assumes "CHR ''@'' \<notin> set s"
  shows "parse_upstream (url @ ''@'' @ s) = map_option (\<lambda>n. (url, Some (word_of_int n))) (go_Atoi s)"
proof -
  have "LastIndex (url @ ''@'' @ s) (''@'' @ s) = int (length url)" by (rule LastIndex_suffix) simp
  with split_on_last [OF assms, of url] show ?thesis
    by (cases "go_Atoi s") (simp_all add: parse_upstream_def go_slice_def Let_def)
qed

lemma decimal_digit: "d < 10 \<Longrightarrow> hex_digit d \<notin> {CHR ''-'', CHR ''+'', CHR ''@''}"
  using hex_value_hex_digit [of d] by (auto simp: hex_value_def)

lemma Atoi_digits:
  assumes "set s \<subseteq> hex_digit ` {..<10}"
  shows "foldl (\<lambda>acc c. do { a \<leftarrow> acc; d \<leftarrow> (case hex_value c of Some d \<Rightarrow> if d < 10 then Some d else None | None \<Rightarrow> None);
      Some (a * 10 + int d) }) (Some (int n)) s =
    Some (int (foldl (\<lambda>n c. n * 10 + (case hex_value c of Some d \<Rightarrow> d | None \<Rightarrow> 0)) n s))"
  using assms
proof (induction s arbitrary: n)
  case (Cons c s)
  then obtain d where "c = hex_digit d" "d < 10" by auto
  with Cons.IH [of "n * 10 + d"] Cons.prems show ?case by (simp add: hex_value_hex_digit)
qed simp

lemma Atoi_fmt_d:
  assumes "n < 2 ^ 63"
  shows "go_Atoi (fmt_d n) = Some (int n)"
proof -
  have s: "set (fmt_d n) \<subseteq> hex_digit ` {..<10}" unfolding fmt_d_def by (rule digits_of_digits) simp
  obtain c cs where c: "fmt_d n = c # cs" using digits_of_not_empty [of 10 n] by (cases "fmt_d n") (auto simp: fmt_d_def)
  then have "c \<noteq> CHR ''-''" "c \<noteq> CHR ''+''" using s decimal_digit by auto
  moreover have "int n < 2 ^ 63" using assms by (metis of_nat_less_iff of_nat_numeral of_nat_power)
  ultimately show ?thesis using Atoi_digits [OF s, of 0] digits_val_digits_of [of 10 n]
    by (simp add: go_Atoi_def c [symmetric] digits_val_def fmt_d_def) (simp add: c [unfolded fmt_d_def])
qed

text \<open>C37.
  The URL of the upstream node: a height after an at-sign is taken off and parsed, whatever is
  before it; a URL without an at-sign is taken as it is; and when what follows the last at-sign is
  no number, as in a URL that has credentials and no height, start-up panics.
\<close>

theorem upstream_url_parsed:
  "(n < 2 ^ 63 \<longrightarrow> parse_upstream (url @ ''@'' @ fmt_d n) = Some (url, Some (word_of_nat n))) \<and>
   (CHR ''@'' \<notin> set host \<longrightarrow> parse_upstream host = Some (host, None) \<and>
      (parse_upstream (url @ ''@'' @ host) = None \<longleftrightarrow> go_Atoi host = None))"
proof -
  have "CHR ''@'' \<notin> hex_digit ` {..<10}" using decimal_digit by force
  then have "CHR ''@'' \<notin> set (fmt_d n)" using digits_of_digits [of 10 n] by (auto simp: fmt_d_def)
  then show ?thesis
    by (auto simp: parse_upstream_last [simplified] Atoi_fmt_d) (simp add: parse_upstream_def split_on_none)
qed

theorem upstream_url_parsed_witness:
  "parse_upstream (''http://me:pw@node'' @ ''@'' @ fmt_d 7) = Some (''http://me:pw@node'', Some 7) \<and>
   parse_upstream (''http://me:pw'' @ ''@'' @ ''node'') = None"
proof -
  have "go_Atoi ''node'' = None" by code_simp
  with upstream_url_parsed [of 7 "''http://me:pw@node''"] upstream_url_parsed [of 7 "''http://me:pw''" "''node''"]
  show ?thesis by simp
qed

end
