(* ===== verification/Ledger.thy ===== *)
theory Ledger
  imports MferEVM
begin

text \<open>
  What executing messages and transactions means without layers, snapshots and caches: a ledger is an
  abstract journal with no saved copies, a message changes it as a whole or not at all, and the gas
  of a block is handed on from one transaction to the next. \<^verbatim>\<open>Execution\<close> shows that \<^verbatim>\<open>ExecuteMsg\<close> and
  \<^verbatim>\<open>ExecuteTxs\<close> of \<^verbatim>\<open>mferevm/evm.go\<close> implement it.
\<close>

section \<open>The ledger\<close>

text \<open>What a state database holds, and what a new snapshot, the start of a transaction and an event do to it.\<close>

definition contents :: "env \<Rightarrow> OverlayStateDB \<Rightarrow> world \<Rightarrow> journal" where
  "contents E db w = abs_journal E (state db) db w"

definition opened :: "journal \<Rightarrow> journal" where
  "opened j = j\<lparr>j_now := (j_now j)\<lparr>sh_dead := \<lambda>a. False\<rparr>, j_depth := j_depth j + 1, j_saved := []\<rparr>"

definition tagged :: "hash \<Rightarrow> journal \<Rightarrow> journal" where
  "tagged h j = j\<lparr>j_now := (j_now j)\<lparr>sh_tx := h\<rparr>\<rparr>"

definition logged :: "hash \<Rightarrow> Log \<Rightarrow> journal \<Rightarrow> journal" where
  "logged h l j = j\<lparr>j_now := (j_now j)\<lparr>sh_logs := (sh_logs (j_now j))(h := sh_logs (j_now j) h @ [l])\<rparr>\<rparr>"

definition credit :: "address \<times> int \<Rightarrow> journal \<Rightarrow> journal" where
  "credit = (\<lambda>(a, d) j. write_view GET_BALANCE a 0 (big_Bytes (big_SetBytes (read_view j GET_BALANCE a 0) + d)) j)"

text \<open>
  A message: the sender's code hash is set to zero, for good; then the virtual machine runs. When it rejects the
  message, only the refund counter keeps what the run did to it; else the trace is added to the logs.
\<close>

definition ledger_message ::
  "env \<Rightarrow> 't geth \<Rightarrow> BlockEnv \<Rightarrow> 't MferEVM \<Rightarrow> Message \<Rightarrow> hash \<Rightarrow> nat \<Rightarrow> TraceConfig option \<Rightarrow> journal \<Rightarrow>
   ((u64 \<times> string option) \<times> u64 \<times> journal) option" where
  "ledger_message E X be a msg h i config j = do {
     let j1 = write_view GET_CODEHASH (msg_From msg) 0 (Hash_Bytes 0) j;
     t \<leftarrow> exec_tracer X \<lparr>tx_BlockHash = blockHash E, tx_TxHash = h, tx_TxIndex = int i\<rparr> config;
     (case t of
        Inl err \<Rightarrow> Some ((0, Some err), gasPool a, opened j1)
      | Inr trc \<Rightarrow> do {
          ((res, gp), trc', j2) \<leftarrow>
            run_traced jstep (g_capture X) (g_ApplyMessage X be (chainConfig a) msg (gasPool a)) trc (tagged h (opened j1));
          Some (case res of
            Inl err \<Rightarrow> ((0, Some err), gp, j1\<lparr>j_refund := j_refund j2\<rparr>)
          | Inr r \<Rightarrow> ((er_UsedGas r, exec_error X r), gp,
              logged h (trace_log E (fst (g_GetResult X trc'))) (j2\<lparr>j_saved := []\<rparr>)))
        })
   }"

text \<open>A list of transactions, each with the gas that the ones before it have left.\<close>

fun ledger_txs ::
  "env \<Rightarrow> 't geth \<Rightarrow> BlockEnv \<Rightarrow> 't MferEVM \<Rightarrow> nat \<Rightarrow> Transaction list \<Rightarrow> TraceConfig option \<Rightarrow> journal \<Rightarrow>
   (string option list \<times> u64 \<times> journal) option" where
  "ledger_txs E X be a i [] config j = Some ([], gasPool a, j)"
| "ledger_txs E X be a i (tx # txs) config j = do {
     ((gas, result), g, j1) \<leftarrow> ledger_message E X be a (EVM_TxToMessage X a tx) (te_hash (g_tx X) tx) i config j;
     (results, g2, j2) \<leftarrow> ledger_txs E X be (a\<lparr>gasPool := g\<rparr>) (Suc i) txs config j1;
     Some (result # results, g2, j2)
   }"

section \<open>What a database holds\<close>

lemma contents_saved [simp]: "j_saved (contents E db w) = []"
  by (simp add: contents_def abs_journal_def saved.simps)

lemma contents_shown: "j_now (contents E db w) = shown_at E w (state db)" "j_depth (contents E db w) = deriveCnt (heap w ! state db)"
  "j_refund (contents E db w) = refundGas db"
  by (simp_all add: contents_def abs_journal_def)

lemma base_irrelevant: "abs_journal E base db w = j \<Longrightarrow> contents E db w = j\<lparr>j_saved := []\<rparr>"
  by (auto simp: contents_def abs_journal_def saved.simps)

lemma logs_SetCodeHash:
  assumes "db_ok E db w"
  shows "logs_at (heap (SetCodeHash E db a h w)) (state db) = logs_at (heap w) (state db)"
  using arg_cong [OF implements_put(2) [of E "state db" w db db w GET_CODEHASH a 0 "Hash_Bytes h"],
      of "\<lambda>j. sh_logs (j_now j)"] implements_start [OF assms]
  by (simp add: implements_def abs_journal_def shown_at_def write_view_def setter_keys)

lemma logs_AddLog:
  assumes "db_ok E db w"
  shows "logs_at (heap (AddLog db l w)) (state db) =
    (logs_at (heap w) (state db))(currentTxHash (heap w ! state db) :=
      logs_at (heap w) (state db) (currentTxHash (heap w ! state db)) @ [l])"
proof -
  have "on_base E (state db) w db (db, w)" using implements_start [OF assms] by (simp add: implements_def)
  from arg_cong [OF implements_log(2) [OF this, of l], of "\<lambda>j. sh_logs (j_now j)"] show ?thesis
    by (simp add: abs_journal_def shown_at_def Let_def)
qed

lemma logs_AddReceipt:
  assumes "db_ok E db w"
  shows "logs_at (heap (AddReceipt db h r w)) (state db) = logs_at (heap w) (state db)"
proof -
  have "below (state db) w (AddReceipt db h r w)"
    unfolding AddReceipt_def by (rule upd_st_below) (use db_ok_parts(5) [OF assms] in auto)
  note b = below_logs [OF this db_ok_parts(4) [OF assms]]
  show ?thesis using b db_ok_parts(5) [OF assms]
    by (auto simp: fun_eq_iff logs_at.simps [of _ "state db"] AddReceipt_def heap_upd_st split: option.splits)
qed

lemma contents_SetCodeHash:
  assumes "db_ok E db w"
  shows "contents E db (SetCodeHash E db a h w) = write_view GET_CODEHASH a 0 (Hash_Bytes h) (contents E db w)"
  using implements_put(2) [of E "state db" w db db w GET_CODEHASH a 0 "Hash_Bytes h"] implements_start [OF assms]
  by (simp add: contents_def implements_def setter_keys)

lemma contents_Snapshot:
  assumes "db_ok E db w" "Snapshot E db w = (n, db1, w1)"
  shows "contents E db1 w1 = opened (contents E db w)"
proof -
  have "on_base E (state db) w db (db, w)" using implements_start [OF assms(1)] by (simp add: implements_def)
  from base_irrelevant [OF implements_snapshot(2) [OF this]] assms(2) show ?thesis
    by (auto simp: Snapshot_eq opened_def contents_def Let_def)
qed

lemma contents_grown:
  assumes "db_ok E db w" "grown E w w'"
  shows "contents E db w' = contents E db w"
proof -
  note p = db_ok_parts [OF assms(1)]
  have b: "below (length (heap w)) w w'" using assms(2) by (simp add: grown_def)
  show ?thesis using below_shown [OF b p(4,5)] below_fields(4) [OF b p(5)]
    by (simp add: contents_def abs_journal_def saved.simps)
qed

lemma contents_AddReceipt:
  assumes "db_ok E db w"
  shows "contents E db (AddReceipt db h r w) = contents E db w"
proof -
  note p = db_ok_parts [OF assms]
  let ?w = "AddReceipt db h r w"
  have "overlay (heap ?w) (state db) key = overlay (heap w) (state db) key" for key
    by (rule overlay_cong) (use p in \<open>auto simp: AddReceipt_def heap_upd_st\<close>)
  then have "view E ?w (state db) = view E w (state db)"
    by (auto simp: fun_eq_iff view_def AddReceipt_def split: option.split)
  moreover have "dead_at E (heap ?w) (state db) = dead_at E (heap w) (state db)"
    using p(5) by (simp add: fun_eq_iff dead_at_def AddReceipt_def heap_upd_st)
  ultimately show ?thesis using logs_AddReceipt [OF assms, of h r] p(5)
    by (simp add: contents_def abs_journal_def saved.simps shown_at_def) (simp add: AddReceipt_def heap_upd_st)
qed

lemma contents_AddLog:
  assumes "db_ok E db w" "sh_tx (j_now (contents E db w)) = h"
  shows "contents E db (AddLog db l w) = logged h l (contents E db w)"
proof -
  have "on_base E (state db) w db (db, w)" using implements_start [OF assms(1)] by (simp add: implements_def)
  from implements_log(2) [OF this, of l] assms(2) show ?thesis by (simp add: contents_def logged_def Let_def)
qed


lemma contents_AddBalance:
  assumes "db_ok E db w" "AddBalance E db a d w = Some w'"
  shows "contents E db w' = credit (a, d) (contents E db w)"
proof -
  have "run_quiet jstep (Call (CAddBalance a d) (\<lambda>_. Done ())) (abs_journal E (state db) db w) =
      Some ((), credit (a, d) (abs_journal E (state db) db w))" by (simp add: credit_def)
  from run_quiet_on [OF assms(1) this] assms(2) show ?thesis by (auto simp: unit_ret_def contents_def)
qed

lemma credit_refund: "credit x (j\<lparr>j_refund := g\<rparr>) = (credit x j)\<lparr>j_refund := g\<rparr>"
  by (cases x) (simp add: credit_def write_view_def read_view_def cong: if_cong)

text \<open>A layer of its own on another one, however it came about and whatever else the database carries.\<close>

lemma contents_derived:
  assumes "wf_world E w" "r < length (heap w)"
  shows "contents E (db\<lparr>state := length (heap w)\<rparr>) (w\<lparr>heap := heap w @ [fresh_layer E why r w]\<rparr>) =
    \<lparr>j_now = (shown_at E w r)\<lparr>sh_dead := \<lambda>a. False\<rparr>, j_saved = [], j_depth = deriveCnt (heap w ! r) + 1, j_refund = refundGas db\<rparr>"
  using shown_at_fresh [OF assms, of why] by (simp add: contents_def abs_journal_def saved.simps) (simp add: fresh_layer_def st_def)

section \<open>Logs of a run\<close>

text \<open>
  In a run every layer carries the hash of the transaction it started with, and logs are added for
  that transaction only; \<open>logs\<close> are the logs of the others.
\<close>

definition one_tx_shown :: "hash \<Rightarrow> (hash \<Rightarrow> Log list) \<Rightarrow> shown \<Rightarrow> bool" where
  "one_tx_shown h logs s \<longleftrightarrow> sh_tx s = h \<and> (\<forall>g. g \<noteq> h \<longrightarrow> sh_logs s g = logs g)"

definition one_tx :: "hash \<Rightarrow> (hash \<Rightarrow> Log list) \<Rightarrow> journal \<Rightarrow> journal \<Rightarrow> bool" where
  "one_tx h logs j a \<longleftrightarrow> j = a \<and> one_tx_shown h logs (j_now a) \<and> (\<forall>p\<in>set (j_saved a). one_tx_shown h logs (snd p))"

lemma one_tx_shown_upd [simp]:
  "one_tx_shown h logs (s\<lparr>sh_view := v\<rparr>) = one_tx_shown h logs s"
  "one_tx_shown h logs (s\<lparr>sh_dead := d\<rparr>) = one_tx_shown h logs s"
  "one_tx_shown h logs (s\<lparr>sh_logs := (sh_logs s)(sh_tx s := l)\<rparr>) = one_tx_shown h logs s"
  by (auto simp: one_tx_shown_def)

interpretation one_tx: answers_like jstep jstep "one_tx h logs" for h logs
proof
  fix j a c x a'
  assume d: "one_tx h logs j a" and s: "jstep c a = Some (x, a')"
  have "one_tx h logs a' a'"
  proof (cases c)
    case (CRevertToSnapshot n)
    with s obtain i sh rest where dw: "dropWhile (\<lambda>(i, s). i \<noteq> n) (j_saved a) = (i, sh) # rest"
      and a': "a' = a\<lparr>j_now := sh, j_saved := rest, j_depth := n - 1\<rparr>"
      by (auto split: list.splits)
    from dropWhile_Cons_split [OF dw] d show ?thesis by (force simp: one_tx_def a')
  qed (use d s in \<open>auto simp: one_tx_def write_view_def\<close>)
  with d s show "\<exists>j'. jstep c j = Some (x, j') \<and> one_tx h logs j' a'" by (auto simp: one_tx_def)
qed

text \<open>Running on top of a snapshot whose layer was tagged with a transaction hash, then going back.\<close>

lemma implements_StartLog:
  assumes "on_base E base w0 db0 (db, w)"
  shows "on_base E base w0 db0 (db, StartLogCollection db h b w)"
    and "abs_journal E base db (StartLogCollection db h b w) =
      (let j = abs_journal E base db w in j\<lparr>j_now := (j_now j)\<lparr>sh_tx := h\<rparr>\<rparr>)"
proof -
  let ?f = "\<lambda>x. x\<lparr>currentTxHash := h, currentBlockHash := b\<rparr>"
  let ?w = "upd_st (state db) ?f w"
  note p = on_base_parts [OF assms]
  have wf: "wf_world E ?w" using StartLog_wf [OF p(1)] by (simp add: StartLogCollection_def)
  note upd = on_base_upd [OF assms wf, simplified]
  show "on_base E base w0 db0 (db, StartLogCollection db h b w)"
    unfolding StartLogCollection_def by (rule upd(1))
  have "overlay (heap ?w) (state db) key = overlay (heap w) (state db) key" for key
    by (rule overlay_cong) (use p(6,7) in \<open>auto simp: heap_upd_st\<close>)
  then have "view E ?w (state db) = view E w (state db)"
    by (auto simp: fun_eq_iff view_def split: option.split)
  moreover have "logs_at (heap ?w) (state db) = logs_at (heap w) (state db)"
    using upd(3) p(6) by (auto simp: fun_eq_iff logs_at.simps [of _ "state db"] heap_upd_st split: option.splits)
  moreover have "dead_at E (heap ?w) (state db) = dead_at E (heap w) (state db)"
    using p(6) by (simp add: fun_eq_iff dead_at_def heap_upd_st)
  ultimately show "abs_journal E base db (StartLogCollection db h b w) =
      (let j = abs_journal E base db w in j\<lparr>j_now := (j_now j)\<lparr>sh_tx := h\<rparr>\<rparr>)"
    using upd(2) p(6) by (simp add: StartLogCollection_def abs_journal_def shown_at_def heap_upd_st)
qed

lemma run_on_snapshot:
  fixes h b :: hash
  assumes mo: "machine_ok X" and ok: "db_ok E db w" and sn: "Snapshot E db w = (n, db1, w1)"
  defines "w2 \<equiv> StartLogCollection db1 h b w1"
  shows "\<exists>r t' db3 w3. run_traced (db_step E) (g_capture X) (g_ApplyMessage X be c m g) t (db1, w2) = Some (r, t', db3, w3) \<and>
    moved E (db, w) (db3, w3) \<and> one_tx_shown h (logs_at (heap w) (state db)) (shown_at E w3 (state db3)) \<and>
    RevertToSnapshot db3 n w3 = Some (db3\<lparr>state := state db\<rparr>) \<and> db_ok E (db3\<lparr>state := state db\<rparr>) w3 \<and>
    shown_at E w3 (state db) = shown_at E w (state db) \<and>
    contents E (db3\<lparr>state := state db\<rparr>) w3 = (contents E db w)\<lparr>j_refund := refundGas db3\<rparr> \<and>
    (\<exists>j'. run_traced jstep (g_capture X) (g_ApplyMessage X be c m g) t (tagged h (opened (contents E db w))) = Some (r, t', j') \<and>
       contents E db3 w3 = j'\<lparr>j_saved := []\<rparr>)"
proof -
  let ?p = "g_ApplyMessage X be c m g"
  from sn have n: "n = deriveCnt (heap w ! state db) + 1"
    and w1: "db1 = db\<lparr>state := length (heap w)\<rparr>" "w1 = w\<lparr>heap := heap w @ [fresh_layer E ''snapshot'' (state db) w]\<rparr>"
    by (auto simp: Snapshot_eq)
  have s0: "on_base E (state db) w db (db, w)" using implements_start [OF ok] by (simp add: implements_def)
  note sn1 = implements_snapshot [OF s0, folded w1]
  note st = implements_StartLog [OF sn1(1), of h b, folded w2_def]
  let ?j1 = "abs_journal E (state db) db1 w2" and ?j = "tagged h (opened (contents E db w))"
  have j1: "j_saved ?j1 = [(n, shown_at E w (state db))]" "n \<le> j_depth ?j1"
    unfolding st(2) sn1(2) by (simp_all add: abs_journal_def n saved.simps shown_at_def)
  have j: "?j1\<lparr>j_saved := []\<rparr> = ?j" "j_saved ?j = []" "sh_tx (j_now ?j) = h" "sh_logs (j_now ?j) = logs_at (heap w) (state db)"
    unfolding st(2) sn1(2) by (simp_all add: tagged_def opened_def contents_def Let_def abs_journal_def saved.simps shown_at_def)
  from mo j(2) obtain r t' j' where run: "run_traced jstep (g_capture X) ?p t ?j = Some (r, t', j')"
    unfolding machine_ok_def by (metis not_None_eq prod_cases3)
  have "one_tx h (logs_at (heap w) (state db)) ?j ?j" using j(2-4) by (simp add: one_tx_def one_tx_shown_def)
  from one_tx.traced_like [OF this run] run have tx: "one_tx_shown h (logs_at (heap w) (state db)) (j_now j')"
    by (auto simp: one_tx_def)
  from run_over_snapshot [OF st(1) refl j1 run [folded j(1)]] obtain db3 w3 where
    r3: "run_traced (db_step E) (g_capture X) ?p t (db1, w2) = Some (r, t', db3, w3)" "on_base E (state db) w db (db3, w3)"
      "(abs_journal E (state db) db3 w3)\<lparr>j_saved := []\<rparr> = j'\<lparr>j_saved := []\<rparr>"
    and rv: "RevertToSnapshot db3 n w3 = Some (db3\<lparr>state := state db\<rparr>)" "db_ok E (db3\<lparr>state := state db\<rparr>) w3"
      "shown_at E w3 (state db) = shown_at E w (state db)" "deriveCnt (heap w3 ! state db) = n - 1" by blast
  have c3: "contents E db3 w3 = j'\<lparr>j_saved := []\<rparr>" using base_irrelevant [OF refl] r3(3) by metis
  have "shown_at E w3 (state db3) = j_now j'" using arg_cong [OF c3, of j_now] by (simp add: contents_shown)
  moreover have "contents E (db3\<lparr>state := state db\<rparr>) w3 = (contents E db w)\<lparr>j_refund := refundGas db3\<rparr>"
    using rv by (simp add: contents_def abs_journal_def saved.simps n)
  ultimately show ?thesis using r3(1) on_base_moved [OF r3(2)] tx rv(1-3) run c3 by auto
qed

end
