(* ===== verification/Execution.thy ===== *)
theory Execution
  imports Ledger
begin

text \<open>
  What executing messages and transactions does to a state database: the outcomes of
  \<^verbatim>\<open>ExecuteMsg\<close>, \<^verbatim>\<open>ExecuteTxs\<close>, \<^verbatim>\<open>WarmUpCache\<close> and \<^verbatim>\<open>DoCall\<close> of \<^verbatim>\<open>mferevm/evm.go\<close>, for any virtual machine
  that keeps to its own snapshots.
\<close>

section \<open>Executing a message\<close>

definition same_but_gas :: "'t MferEVM \<Rightarrow> 't MferEVM \<Rightarrow> bool" where
  "same_but_gas a a' \<longleftrightarrow> a'\<lparr>gasPool := 0\<rparr> = a\<lparr>gasPool := 0\<rparr>"

lemma same_but_gas_simps [simp]: "same_but_gas a a" "same_but_gas a (a\<lparr>gasPool := g\<rparr>)"
  by (simp_all add: same_but_gas_def)

lemma same_but_gas_trans: "same_but_gas a b \<Longrightarrow> same_but_gas b c \<Longrightarrow> same_but_gas a c"
  by (simp add: same_but_gas_def)

text \<open>The two outcomes of a message that got as far as the virtual machine.\<close>

definition rejected ::
  "env \<Rightarrow> OverlayStateDB \<Rightarrow> Message \<Rightarrow> world \<Rightarrow> u64 \<times> string option \<Rightarrow> OverlayStateDB \<Rightarrow> world \<Rightarrow> bool" where
  "rejected E db msg w res db' w' \<longleftrightarrow> (\<exists>err. res = (0, Some err)) \<and> state db' = state db \<and>
     shown_at E w' (state db) = shown_at E (SetCodeHash E db (msg_From msg) 0 w) (state db)"

definition executed ::
  "env \<Rightarrow> 't geth \<Rightarrow> 't MferEVM \<Rightarrow> Message \<Rightarrow> hash \<Rightarrow> nat \<Rightarrow> u64 \<times> string option \<Rightarrow> OverlayStateDB \<Rightarrow> world \<Rightarrow> bool"
  where
  "executed E X a msg h i res db' w' \<longleftrightarrow> (\<exists>r logs tr.
     res = (er_UsedGas r, exec_error X r) \<and> logs_at (heap w') (state db') h = logs @ [trace_log E tr] \<and>
     map_of (receipts (heap w' ! state db')) h = Some (exec_receipt E X a msg h i r (logs @ [trace_log E tr])))"

lemma log_and_receipt:
  assumes ok: "db_ok E db w" and cur: "currentTxHash (heap w ! state db) = h"
  defines "w' \<equiv> \<lambda>l rc. AddReceipt db h rc (AddLog db l w)"
  shows "moved E (db, w) (db, w' l rc)"
    and "logs_at (heap (w' l rc)) (state db) =
      (logs_at (heap w) (state db))(h := logs_at (heap w) (state db) h @ [l])"
    and "map_of (receipts (heap (w' l rc) ! state db)) h = Some rc"
proof -
  note m5 = moved_AddLog [OF ok, of l]
  note m6 = moved_AddReceipt [OF moved_parts(1) [OF m5], of h rc]
  show "moved E (db, w) (db, w' l rc)" unfolding w'_def by (rule moved_trans [OF m5 m6])
  show "logs_at (heap (w' l rc)) (state db) =
      (logs_at (heap w) (state db))(h := logs_at (heap w) (state db) h @ [l])"
    using logs_AddReceipt [OF moved_parts(1) [OF m5]] logs_AddLog [OF ok] by (simp add: cur w'_def)
  show "map_of (receipts (heap (w' l rc) ! state db)) h = Some rc"
    using db_ok_parts(5) [OF moved_parts(1) [OF m5]] by (simp add: w'_def AddReceipt_def heap_upd_st)
qed

text \<open>The run of a message on the layer of a new snapshot, what it does to the database, and the same run on the ledger.\<close>

lemma message_run:
  assumes mo: "machine_ok X" and ok: "db_ok E db w"
  obtains n db1 w2 r t' db3 w4 j' where "Snapshot E db (SetCodeHash E db (msg_From msg) 0 w) = (n, db1, w2)"
    and "run_traced (db_step E) (g_capture X) (g_ApplyMessage X (block_env c (StartLogCollection db1 h bh w2)) cc msg g) t
       (db1, StartLogCollection db1 h bh w2) = Some (r, t', db3, w4)"
    and "moved E (db, w) (db3, w4)" "currentTxHash (heap w4 ! state db3) = h"
    and "\<forall>g. g \<noteq> h \<longrightarrow> logs_at (heap w4) (state db3) g = logs_at (heap w) (state db) g"
    and "RevertToSnapshot db3 n w4 = Some (db3\<lparr>state := state db\<rparr>)" "db_ok E (db3\<lparr>state := state db\<rparr>) w4"
    and "shown_at E w4 (state db) = shown_at E (SetCodeHash E db (msg_From msg) 0 w) (state db)" "logs_at (heap w4) (state db) = logs_at (heap w) (state db)"
    and "run_traced jstep (g_capture X) (g_ApplyMessage X (block_env c w) cc msg g) t
       (tagged h (opened (write_view GET_CODEHASH (msg_From msg) 0 (Hash_Bytes 0) (contents E db w)))) = Some (r, t', j')"
    and "contents E (db3\<lparr>state := state db\<rparr>) w4 =
       (write_view GET_CODEHASH (msg_From msg) 0 (Hash_Bytes 0) (contents E db w))\<lparr>j_refund := j_refund j'\<rparr>"
    and "contents E db3 w4 = j'\<lparr>j_saved := []\<rparr>"
proof -
  let ?w1 = "SetCodeHash E db (msg_From msg) 0 w"
  note m1 = moved_SetCodeHash [OF ok, of "msg_From msg" 0]
  note l1 = logs_SetCodeHash [OF ok, of "msg_From msg" 0]
    and c1 = contents_SetCodeHash [OF ok, of "msg_From msg" 0]
  obtain n db1 w2 where sn: "Snapshot E db ?w1 = (n, db1, w2)" using prod_cases3 by blast
  let ?w3 = "StartLogCollection db1 h bh w2"
  have be: "block_env c ?w3 = block_env c w"
    using sn by (auto simp: block_env_def StartLogCollection_def Snapshot_eq SetCodeHash_def)
  let ?p = "g_ApplyMessage X (block_env c w) cc msg g"
  obtain r t' db3 w4 j' where
    r: "run_traced (db_step E) (g_capture X) ?p t (db1, ?w3) = Some (r, t', db3, w4)"
      "moved E (db, ?w1) (db3, w4)" "one_tx_shown h (logs_at (heap ?w1) (state db)) (shown_at E w4 (state db3))"
      "RevertToSnapshot db3 n w4 = Some (db3\<lparr>state := state db\<rparr>)" "db_ok E (db3\<lparr>state := state db\<rparr>) w4"
      "shown_at E w4 (state db) = shown_at E ?w1 (state db)"
      "contents E (db3\<lparr>state := state db\<rparr>) w4 = (contents E db ?w1)\<lparr>j_refund := refundGas db3\<rparr>"
      "run_traced jstep (g_capture X) ?p t (tagged h (opened (contents E db ?w1))) = Some (r, t', j')"
      "contents E db3 w4 = j'\<lparr>j_saved := []\<rparr>"
    using run_on_snapshot [OF mo moved_parts(1) [OF m1] sn] by blast
  have "refundGas db3 = j_refund j'" using arg_cong [OF r(9), of j_refund] by (simp add: contents_shown)
  moreover have "logs_at (heap w4) (state db) = logs_at (heap w) (state db)"
    using arg_cong [OF r(6), of sh_logs] l1 by (simp add: shown_at_def)
  moreover have "currentTxHash (heap w4 ! state db3) = h"
    "\<forall>g. g \<noteq> h \<longrightarrow> logs_at (heap w4) (state db3) g = logs_at (heap w) (state db) g"
    using r(3) l1 by (simp_all add: one_tx_shown_def shown_at_def)
  ultimately show thesis
    using that [of n db1 w2 r t' db3 w4 j'] sn moved_trans [OF m1 r(2)] r(1,4-9) unfolding c1 be by simp
qed

lemma ExecuteMsg_ok:
  assumes mo: "machine_ok X" and ok: "db_ok E db w"
    and tr: "exec_tracer X \<lparr>tx_BlockHash = blockHash E, tx_TxHash = h, tx_TxIndex = int i\<rparr> config = Some (Inr trc)"
  shows "\<exists>res g db' w'. ExecuteMsg E X a db msg h i config w = Some (res, a\<lparr>gasPool := g\<rparr>, db', w') \<and>
    moved E (db, w) (db', w') \<and>
    (\<forall>g. g \<noteq> h \<longrightarrow> logs_at (heap w') (state db') g = logs_at (heap w) (state db) g) \<and>
    (rejected E db msg w res db' w' \<or> executed E X a msg h i res db' w') \<and>
    ledger_message E X (block_env (vmContext a) w) a msg h i config (contents E db w) = Some (res, g, contents E db' w')"
proof -
  obtain n db1 w2 r t' db3 w4 j' where sn: "Snapshot E db (SetCodeHash E db (msg_From msg) 0 w) = (n, db1, w2)"
    and run: "run_traced (db_step E) (g_capture X)
        (g_ApplyMessage X (block_env (vmContext a) (StartLogCollection db1 h (blockHash E) w2)) (chainConfig a) msg (gasPool a)) trc
       (db1, StartLogCollection db1 h (blockHash E) w2) = Some (r, t', db3, w4)"
    and m: "moved E (db, w) (db3, w4)" and cur: "currentTxHash (heap w4 ! state db3) = h"
    and other: "\<forall>g. g \<noteq> h \<longrightarrow> logs_at (heap w4) (state db3) g = logs_at (heap w) (state db) g"
    and rv: "RevertToSnapshot db3 n w4 = Some (db3\<lparr>state := state db\<rparr>)" "db_ok E (db3\<lparr>state := state db\<rparr>) w4"
      "shown_at E w4 (state db) = shown_at E (SetCodeHash E db (msg_From msg) 0 w) (state db)"
      "logs_at (heap w4) (state db) = logs_at (heap w) (state db)"
    and j: "run_traced jstep (g_capture X) (g_ApplyMessage X (block_env (vmContext a) w) (chainConfig a) msg (gasPool a)) trc
       (tagged h (opened (write_view GET_CODEHASH (msg_From msg) 0 (Hash_Bytes 0) (contents E db w)))) = Some (r, t', j')"
      "contents E (db3\<lparr>state := state db\<rparr>) w4 =
       (write_view GET_CODEHASH (msg_From msg) 0 (Hash_Bytes 0) (contents E db w))\<lparr>j_refund := j_refund j'\<rparr>"
      "contents E db3 w4 = j'\<lparr>j_saved := []\<rparr>" by (rule message_run [OF mo ok])
  obtain res gp where rg: "r = (res, gp)" by fastforce
  note ok3 = moved_parts(1) [OF m]
  show ?thesis
  proof (cases res)
    case (Inl err)
    have "moved E (db, w) (db3\<lparr>state := state db\<rparr>, w4)" using m rv(2) by (simp add: moved_def same_config_def)
    moreover have "ExecuteMsg E X a db msg h i config w =
        Some ((0, Some err), a\<lparr>gasPool := gp\<rparr>, db3\<lparr>state := state db\<rparr>, w4)"
      using tr run rv(1) by (simp add: ExecuteMsg_def sn rg Inl)
    ultimately show ?thesis using rv(3,4) tr j(1,2) by (simp add: rejected_def ledger_message_def rg Inl)
  next
    case (Inr er)
    obtain tb te where g: "g_GetResult X t' = (tb, te)" by fastforce
    define logs where "logs = logs_at (heap w4) (state db3) h"
    define rc where "rc = exec_receipt E X a msg h i er (logs @ [trace_log E tb])"
    let ?w5 = "AddLog db3 (trace_log E tb) w4"
    let ?w6 = "AddReceipt db3 h rc ?w5"
    have gl: "GetLogs db3 h w4 = Some logs" using db_ok_parts [OF ok3] by (simp add: GetLogs_ok logs_def)
    note fin = log_and_receipt [OF ok3 cur, where l = "trace_log E tb" and rc = rc]
    have "exec_receipt E X (a\<lparr>gasPool := gp\<rparr>) msg h i er l = exec_receipt E X a msg h i er l" for l
      by (simp add: exec_receipt_def)
    then have ex: "ExecuteMsg E X a db msg h i config w =
        Some ((er_UsedGas er, exec_error X er), a\<lparr>gasPool := gp\<rparr>, db3, ?w6)"
      using tr run gl by (simp add: ExecuteMsg_def sn rg Inr g rc_def Let_def)
    have "executed E X a msg h i (er_UsedGas er, exec_error X er) db3 ?w6"
      unfolding executed_def rc_def by (intro exI [of _ er] exI [of _ logs] exI [of _ tb]) (use fin(2,3) in \<open>simp add: rc_def logs_def\<close>)
    moreover have "contents E db3 ?w6 = logged h (trace_log E tb) (j'\<lparr>j_saved := []\<rparr>)"
      using contents_AddReceipt [OF moved_parts(1) [OF moved_AddLog [OF ok3]]] contents_AddLog [OF ok3, of h] cur
      by (simp add: contents_shown shown_at_def j(3) [symmetric])
    ultimately show ?thesis using ex fin(2) other moved_trans [OF m fin(1)] tr j(1) by (simp add: ledger_message_def rg Inr g)
  qed
qed

section \<open>Executing transactions\<close>

text \<open>\<^verbatim>\<open>ExecuteMsg\<close> may also end before the virtual machine starts, when the tracer cannot be built.\<close>

lemma ExecuteMsg_total:
  assumes mo: "machine_ok X" and ok: "db_ok E db w"
    and tr: "exec_tracer X \<lparr>tx_BlockHash = blockHash E, tx_TxHash = h, tx_TxIndex = int i\<rparr> config \<noteq> None"
  shows "\<exists>res g db' w'. ExecuteMsg E X a db msg h i config w = Some (res, a\<lparr>gasPool := g\<rparr>, db', w') \<and>
    moved E (db, w) (db', w') \<and>
    ledger_message E X (block_env (vmContext a) w) a msg h i config (contents E db w) = Some (res, g, contents E db' w')"
proof -
  from tr obtain t where t: "exec_tracer X \<lparr>tx_BlockHash = blockHash E, tx_TxHash = h, tx_TxIndex = int i\<rparr> config = Some t"
    by blast
  show ?thesis
  proof (cases t)
    case (Inl err)
    let ?w1 = "SetCodeHash E db (msg_From msg) 0 w"
    obtain n db1 w2 where sn: "Snapshot E db ?w1 = (n, db1, w2)" using prod_cases3 by blast
    note m1 = moved_SetCodeHash [OF ok, of "msg_From msg" 0]
    note m2 = moved_trans [OF m1 moved_Snapshot [OF moved_parts(1) [OF m1] sn]]
    have "contents E db1 w2 = opened (write_view GET_CODEHASH (msg_From msg) 0 (Hash_Bytes 0) (contents E db w))"
      using contents_Snapshot [OF moved_parts(1) [OF m1] sn] contents_SetCodeHash [OF ok] by simp
    then show ?thesis using m2 t Inl
      by (intro exI [of _ "(0, Some err)"] exI [of _ "gasPool a"] exI [of _ db1] exI [of _ w2]) (simp add: ExecuteMsg_def sn ledger_message_def)
  next
    case (Inr trc)
    from ExecuteMsg_ok [OF mo ok t [unfolded Inr], of a msg] show ?thesis by blast
  qed
qed

lemma grown_moved:
  assumes "db_ok E db w" "grown E w w1" "moved E (db, w1) (db', w2)"
  shows "moved E (db, w) (db', w2)"
proof -
  note p = moved_parts [OF assms(3)] and l = db_ok_parts(5) [OF assms(1)]
  have "only (state db) w w2"
    using p(2) l assms(2) by (auto simp: only_def grown_def below_def intro: root_ext_trans)
  moreover have "length (heap w) \<le> length (heap w1)" using assms(2) by (simp add: grown_def below_def)
  ultimately show ?thesis using assms(3) by (auto simp: moved_def)
qed

definition tracers_build :: "env \<Rightarrow> 't geth \<Rightarrow> TraceConfig option \<Rightarrow> bool" where
  "tracers_build E X config \<longleftrightarrow> (\<forall>ctx. exec_tracer X ctx config \<noteq> None)"

lemma exec_loop_ok:
  assumes "machine_ok X" "tracers_build E X config" "db_ok E db w"
  shows "\<exists>results g db' w'. exec_loop E X a i txs db config w = Some (results, a\<lparr>gasPool := g\<rparr>, db', w') \<and>
    length results = length txs \<and> moved E (db, w) (db', w') \<and>
    ledger_txs E X (block_env (vmContext a) w) a i txs config (contents E db w) = Some (results, g, contents E db' w')"
  using assms(3)
proof (induction txs arbitrary: a i db w)
  case Nil
  then show ?case by (intro exI [of _ "[]"] exI [of _ "gasPool a"] exI [of _ db] exI [of _ w]) (simp add: moved_refl)
next
  case (Cons tx txs)
  obtain cl wc where c: "Clone E db w = (cl, wc)" by fastforce
  note gc = Clone_grown [OF Cons.prems c]
  obtain w1 where w1: "(if i < 100 then WarmUpCache E X a (tx # txs) cl wc else Some w) = Some w1" "grown E w w1"
  proof (cases "i < 100")
    case True
    with WarmUpCache_ok [OF assms(1) gc(2), of a "tx # txs"] show ?thesis
      using that grown_trans [OF gc(1)] by auto
  qed (use that grown_refl [OF db_ok_parts(3) [OF Cons.prems]] in auto)
  let ?be = "block_env (vmContext a)" and ?h = "te_hash (g_tx X) tx" and ?msg = "EVM_TxToMessage X a tx"
  obtain res g1 db1 w2 where
    e: "ExecuteMsg E X a db ?msg ?h i config w1 = Some (res, a\<lparr>gasPool := g1\<rparr>, db1, w2)" "moved E (db, w1) (db1, w2)"
      "ledger_message E X (?be w1) a ?msg ?h i config (contents E db w1) = Some (res, g1, contents E db1 w2)"
    using ExecuteMsg_total [OF assms(1) grown_db_ok [OF w1(2) Cons.prems], of ?h i config a ?msg]
      assms(2) unfolding tracers_build_def by blast
  obtain gas result where res: "res = (gas, result)" by fastforce
  note m = grown_moved [OF Cons.prems w1(2) e(2)]
  have be: "?be w1 = ?be w" "?be w2 = ?be w"
    using w1(2) moved_parts(2) [OF m] by (simp_all add: block_env_def grown_def below_def only_def)
  from Cons.IH [OF moved_parts(1) [OF m], of "a\<lparr>gasPool := g1\<rparr>" "Suc i"] obtain results g2 db2 w3 where
    r: "exec_loop E X (a\<lparr>gasPool := g1\<rparr>) (Suc i) txs db1 config w2 = Some (results, a\<lparr>gasPool := g2\<rparr>, db2, w3)"
      "length results = length txs" "moved E (db1, w2) (db2, w3)"
      "ledger_txs E X (?be w2) (a\<lparr>gasPool := g1\<rparr>) (Suc i) txs config (contents E db1 w2) = Some (results, g2, contents E db2 w3)"
    by auto
  have "exec_loop E X a i (tx # txs) db config w = Some (result # results, a\<lparr>gasPool := g2\<rparr>, db2, w3)"
    using w1(1) e(1) r(1) by (auto simp: c res split: if_splits)
  moreover have "ledger_txs E X (?be w) a i (tx # txs) config (contents E db w) = Some (result # results, g2, contents E db2 w3)"
    using e(3) r(4) contents_grown [OF Cons.prems w1(2)] by (simp add: be res)
  ultimately show ?case using r(2) moved_trans [OF m r(3)] by auto
qed

lemma ExecuteTxs_ledger:
  assumes "machine_ok X" "tracers_build E X config" "db_ok E db w"
  shows "\<exists>results g db' w'. ExecuteTxs E X a txs db config w = Some (results, a\<lparr>gasPool := g\<rparr>, db', w') \<and>
    length results = length txs \<and> moved E (db, w) (db', w') \<and>
    ledger_txs E X (block_env (vmContext a) w) a 0 txs config (contents E db w) = Some (results, g, contents E db' w')"
  unfolding ExecuteTxs_def by (rule exec_loop_ok [OF assms])

lemma ExecuteTxs_ok:
  assumes "machine_ok X" "tracers_build E X config" "db_ok E db w"
  shows "\<exists>results a' db' w'. ExecuteTxs E X a txs db config w = Some (results, a', db', w') \<and>
    length results = length txs \<and> same_but_gas a a' \<and> moved E (db, w) (db', w')"
proof -
  from ExecuteTxs_ledger [OF assms] obtain results g db' w' where
    "ExecuteTxs E X a txs db config w = Some (results, a\<lparr>gasPool := g\<rparr>, db', w')" "length results = length txs"
    "moved E (db, w) (db', w')" by blast
  then show ?thesis using same_but_gas_simps(2) by blast
qed

section \<open>Calls\<close>

definition call_ok :: "env \<Rightarrow> 't geth \<Rightarrow> 't MferEVM \<Rightarrow> Message \<Rightarrow> bool \<Rightarrow> OverlayStateDB \<Rightarrow> world \<Rightarrow> bool" where
  "call_ok E X a msg debug db w \<longleftrightarrow>
     (let w1 = SetCodeHash E db (msg_From msg) 0 w;
          prog = g_ApplyMessage X (block_env (vmContext a) w1) (chainConfig a) msg (- 1);
          j = abs_journal E (state db) db w1
      in if debug then run_traced jstep (capture_any E X) prog (tracer a) j \<noteq> None
         else run_quiet jstep prog j \<noteq> None)"

lemma call_ok_machine: "machine_ok X \<Longrightarrow> call_ok E X a msg False db w"
  by (simp add: call_ok_def Let_def machine_ok_def abs_journal_def saved.simps del: not_None_eq)

lemma DoCall_ok:
  assumes "db_ok E db w" "call_ok E X a msg debug db w"
  shows "\<exists>res t' db' w'. DoCall E X a msg debug db w = Some (res, a\<lparr>tracer := t'\<rparr>, db', w') \<and>
    moved E (db, w) (db', w')"
proof -
  let ?w1 = "SetCodeHash E db (msg_From msg) 0 w"
  let ?p = "g_ApplyMessage X (block_env (vmContext a) ?w1) (chainConfig a) msg (- 1)"
  let ?j = "abs_journal E (state db) db ?w1"
  note m = moved_SetCodeHash [OF assms(1), of "msg_From msg" 0]
  note ok = moved_parts(1) [OF m]
  show ?thesis
  proof (cases debug)
    case True
    with assms(2) obtain r t' j' where "run_traced jstep (capture_any E X) ?p (tracer a) ?j = Some (r, t', j')"
      by (auto simp: call_ok_def Let_def)
    from run_traced_on [OF ok this] obtain db' w' where
      r: "run_traced (db_step E) (capture_any E X) ?p (tracer a) (db, ?w1) = Some (r, t', db', w')"
        "on_base E (state db) ?w1 db (db', w')" by blast
    with True moved_trans [OF m on_base_moved [OF r(2)]] show ?thesis
      by (cases r) (auto simp: DoCall_def Let_def)
  next
    case False
    with assms(2) obtain r j' where "run_quiet jstep ?p ?j = Some (r, j')"
      by (auto simp: call_ok_def Let_def)
    from run_quiet_on [OF ok this] obtain db' w' where
      r: "run_quiet (db_step E) ?p (db, ?w1) = Some (r, db', w')" "on_base E (state db) ?w1 db (db', w')" by blast
    with False moved_trans [OF m on_base_moved [OF r(2)]] show ?thesis
      by (cases r) (auto simp: DoCall_def Let_def intro: exI [of _ "tracer a"])
  qed
qed

section \<open>A concrete virtual machine\<close>

text \<open>
  For the witnesses: a machine that rejects messages with less than 21000 gas, and otherwise takes a
  snapshot, bumps the sender's nonce, writes a slot, emits a log, and goes back to the snapshot when
  the message carries data.
\<close>

definition demo_apply :: "BlockEnv \<Rightarrow> ChainConfig \<Rightarrow> Message \<Rightarrow> u64 \<Rightarrow> ((string + ExecutionResult) \<times> u64) evm_prog" where
  "demo_apply b c m g =
     Emit (CaptureStart (msg_From m) 0 False [] (msg_Gas m) 0)
      (if msg_Gas m < 21000 then Done (Inl ''intrinsic gas too low'', g)
       else Call CSnapshot (\<lambda>n. Call (CSetNonce (msg_From m) (msg_Nonce m + 1)) (\<lambda>_.
         Call (CSetState 1 2 (ucast (msg_Gas m))) (\<lambda>_.
         Call (CAddLog \<lparr>log_Address = 1, log_Topics = [], log_Data = [7]\<rparr>) (\<lambda>_.
           if msg_Data m = [] then Done (Inr \<lparr>er_UsedGas = 21000, er_Err = None, er_ReturnData = [5]\<rparr>, g - 21000)
           else Call (CRevertToSnapshot (case n of RInt i \<Rightarrow> i | _ \<Rightarrow> 0)) (\<lambda>_.
             Done (Inr \<lparr>er_UsedGas = 21000, er_Err = Some ErrExecutionReverted, er_ReturnData = [9]\<rparr>,
                   g - 21000)))))))"

definition demo_header :: Header where
  "demo_header = \<lparr>hd_ParentHash = 0, hd_Coinbase = 3, hd_Difficulty = 2, hd_Number = 7, hd_GasLimit = 30000000,
     hd_GasUsed = 0, hd_Time = 1000, hd_BaseFee = None\<rparr>"

definition demo_geth :: "nat geth" where
  "demo_geth = \<lparr>
     g_tx = \<lparr>te_hash = (\<lambda>tx. ucast (tx_Nonce tx) + 1), te_chain = tx_ChainID, te_protected = (\<lambda>_. False),
             te_latest = (\<lambda>_ _. 0), te_homestead = (\<lambda>_. 0)\<rparr>,
     g_hdr = \<lparr>he_hash = (\<lambda>h. word_of_int (hd_Number h)), he_size = (\<lambda>_. 500), be_size = (\<lambda>_. 600)\<rparr>,
     g_setSignature = demo_store, g_AsMessage = demo_message, 
     g_UnmarshalBinary = (\<lambda>input. if input = [] then Inl ''rlp'' else Inr unsigned_tx),
     g_ApplyMessage = demo_apply, g_UnpackRevert = (\<lambda>_. Inl ''no reason''),
     g_CreateAddress = (\<lambda>a n. a + ucast n), g_NewTracer = (\<lambda>_ _ _. Inr 0), g_NewStructLogger = (\<lambda>_. 0),
     g_StructLogs = (\<lambda>_. None), g_capture = (\<lambda>e n. Done (n + 1)), g_GetResult = (\<lambda>n. ([word_of_nat n], None)),
     g_ParseDuration = (\<lambda>_. None), g_GetPtr = (\<lambda>m x y. Some []), g_Bind = demo_bind, g_SelfBind = demo_bind,
     g_schedule = (\<lambda>t n. t + n), n_Dial = (\<lambda>t _. if t < 3 then Some ''refused'' else None),
     n_ChainID = (\<lambda>t. Inr 1), n_getBlockByNumber = (\<lambda>t tag. Inr (Some (Some demo_header))),
     n_BlockByNumber = (\<lambda>t n. Inr \<lparr>blk_Header = demo_header, blk_Transactions = [], blk_Uncles = []\<rparr>),
     n_BlockByHash = (\<lambda>t h. Inl ''not found''), n_BlockNumber = (\<lambda>t. Inr 7), n_NonceAt = (\<lambda>t a. Inr 0),
     n_BalanceAt = (\<lambda>t a n. Inr 1), n_FilterLogs = (\<lambda>t c. Inr []), n_eth_call = (\<lambda>t a tag d. Inr [])\<rparr>"

lemma demo_machine: "machine_ok demo_geth"
  by (auto simp: machine_ok_def demo_geth_def demo_apply_def write_view_saved)

lemma demo_tracers: "tracers_build demo_env demo_geth None"
  by (simp add: tracers_build_def exec_tracer_def demo_geth_def)

definition demo_evm :: "nat MferEVM" where
  "demo_evm = \<lparr>StateDB = Some demo_db, keyCacheFilePath = [], evm_maxKeyCache = 100, evm_batchSize = 2,
     vmContext = \<lparr>bc_Coinbase = 3, bc_GasLimit = 30000000, bc_BaseFee = 0, bc_BlockNumber = 1, bc_Time = 2,
                  bc_Difficulty = 3\<rparr>,
     gasPool = 30000000, chainConfig = \<lparr>cc_ChainID = 1, cc_ByzantiumBlock = 0, cc_ConstantinopleBlock = 0\<rparr>,
     evm_impersonatedAccount = 5, timeDelta = 0, blockNumberDelta = 0, tracer = NoTracer, pinBlock = False\<rparr>"

definition demo_msg :: Message where
  "demo_msg = \<lparr>msg_From = 5, msg_To = Some 1, msg_Nonce = 3, msg_Value = 0, msg_Gas = 50000, msg_GasPrice = 0,
     msg_GasFeeCap = 0, msg_GasTipCap = 0, msg_Data = [], msg_AccessList = [], msg_IsFake = False\<rparr>"

section \<open>Properties\<close>

lemma GetReceipt_found:
  assumes "db_ok E db w" "map_of (receipts (heap w ! state db)) h = Some rc"
  shows "\<exists>w'. GetReceipt db h w = Some (Some (rc\<lparr>rcpt_Logs := logs_at (heap w) (state db) h\<rparr>), w')"
proof -
  note p = db_ok_parts [OF assms(1)]
  have "receipt_walk (state db) h w = Some (Some (state db, rc))"
    using p(6) assms(2) by (subst receipt_walk.simps) (auto simp: st_def)
  with p show ?thesis by (simp add: GetReceipt_def GetLogs_ok Let_def)
qed

text \<open>C16.
  Executing a message always ends in one of two ways. It is rejected: gas 0 and an error, and the
  database is back on its layer, which shows what it showed with the sender's code hash cleared. Or
  it is executed: the returned gas is the gas used, the error is set exactly when execution failed,
  and the receipt found under the hash has this gas, status 1 exactly on success, the right index
  and hash, and as its last log the trace. Logs of other transactions are what they were, and no
  other layer that existed has been written to.
\<close>

theorem ExecuteMsg_outcome:
  assumes "machine_ok X" "db_ok E db w"
    and "exec_tracer X \<lparr>tx_BlockHash = blockHash E, tx_TxHash = h, tx_TxIndex = int i\<rparr> config = Some (Inr trc)"
  shows "\<exists>gas err a' db' w'. ExecuteMsg E X a db msg h i config w = Some ((gas, err), a', db', w') \<and>
    db_ok E db' w' \<and> only (state db) w w' \<and>
    (\<forall>g. g \<noteq> h \<longrightarrow> GetLogs db' g w' = GetLogs db g w) \<and>
    (gas = 0 \<and> err \<noteq> None \<and> state db' = state db \<and>
       view E w' (state db) = view E (SetCodeHash E db (msg_From msg) 0 w) (state db) \<and>
       GetLogs db' h w' = GetLogs db h w
     \<or> (\<exists>rc w''. GetReceipt db' h w' = Some (Some rc, w'') \<and> rcpt_GasUsed rc = gas \<and>
         (rcpt_Status rc = 1 \<longleftrightarrow> err = None) \<and> rcpt_TransactionIndex rc = i \<and> rcpt_TxHash rc = h \<and>
         (\<exists>trace. last (rcpt_Logs rc) = trace_log E trace \<and> rcpt_Logs rc \<noteq> [])))"
proof -
  from ExecuteMsg_ok [OF assms, of a msg] obtain gas err a' db' w' where
    e: "ExecuteMsg E X a db msg h i config w = Some ((gas, err), a', db', w')" "moved E (db, w) (db', w')"
      "\<forall>g. g \<noteq> h \<longrightarrow> logs_at (heap w') (state db') g = logs_at (heap w) (state db) g"
      "rejected E db msg w (gas, err) db' w' \<or> executed E X a msg h i (gas, err) db' w'" by force
  note p = db_ok_parts [OF assms(2)] and p' = db_ok_parts [OF moved_parts(1) [OF e(2)]]
  have logs: "GetLogs db' g w' = Some (logs_at (heap w') (state db') g)" "GetLogs db g w = Some (logs_at (heap w) (state db) g)" for g
    using p p' by (simp_all add: GetLogs_ok)
  from e(4) show ?thesis
  proof
    assume r: "rejected E db msg w (gas, err) db' w'"
    have c: "logs_at (heap (SetCodeHash E db (msg_From msg) 0 w)) (state db) = logs_at (heap w) (state db)"
      by (rule logs_SetCodeHash [OF assms(2)])
    from r have "shown_at E w' (state db) = shown_at E (SetCodeHash E db (msg_From msg) 0 w) (state db)"
      by (simp add: rejected_def)
    then have "view E w' (state db) = view E (SetCodeHash E db (msg_From msg) 0 w) (state db)"
      "logs_at (heap w') (state db) = logs_at (heap w) (state db)"
      by (simp_all add: shown_at_def c)
    with r e(1,2,3) logs moved_parts(1,2) [OF e(2)] show ?thesis by (auto simp: rejected_def)
  next
    assume "executed E X a msg h i (gas, err) db' w'"
    then obtain r l tr where r: "gas = er_UsedGas r" "err = exec_error X r"
      "logs_at (heap w') (state db') h = l @ [trace_log E tr]"
      "map_of (receipts (heap w' ! state db')) h = Some (exec_receipt E X a msg h i r (l @ [trace_log E tr]))"
      by (auto simp: executed_def)
    from GetReceipt_found [OF moved_parts(1) [OF e(2)] r(4)] e(1,3) logs moved_parts(1,2) [OF e(2)] r(1,2,3)
    show ?thesis
      by (force simp: exec_receipt_def exec_error_def er_Failed_def er_Revert_def)
  qed
qed

theorem ExecuteMsg_outcome_witness:
  "machine_ok demo_geth \<and> db_ok demo_env demo_db demo_world \<and>
   (\<exists>gas err a' db' w'. ExecuteMsg demo_env demo_geth demo_evm demo_db demo_msg 9 0 None demo_world =
       Some ((gas, err), a', db', w') \<and> GetLogs db' 4 w' = GetLogs demo_db 4 demo_world)"
proof -
  have "exec_tracer demo_geth \<lparr>tx_BlockHash = blockHash demo_env, tx_TxHash = 9, tx_TxIndex = int 0\<rparr> None = Some (Inr 0)"
    by (simp add: exec_tracer_def demo_geth_def)
  from ExecuteMsg_outcome [OF demo_machine demo_db_ok this, of demo_evm demo_msg] show ?thesis
    using demo_machine demo_db_ok by fastforce
qed

text \<open>C4.
  Executing a list of transactions on a state database, with its layers and caches and whatever the workers that warm
  it up do, implements the ledger: it returns, with one result per transaction, and results, remaining gas and the contents of
  the database are those of running the transactions one after the other on the contents alone. Afterwards the database is usable,
  on its old layer or a new one, and of the layers that existed only its own has been written to.
\<close>

theorem ExecuteTxs_implements_ledger:
  assumes "machine_ok X" "tracers_build E X config" "db_ok E db w"
  shows "\<exists>results g db' w'. ExecuteTxs E X a txs db config w = Some (results, a\<lparr>gasPool := g\<rparr>, db', w') \<and>
    length results = length txs \<and>
    ledger_txs E X (block_env (vmContext a) w) a 0 txs config (contents E db w) = Some (results, g, contents E db' w') \<and>
    db_ok E db' w' \<and> only (state db) w w' \<and> (state db' = state db \<or> length (heap w) \<le> state db')"
  using ExecuteTxs_ledger [OF assms, of a txs] moved_parts(1,2,3) by blast

theorem ExecuteTxs_implements_ledger_witness:
  "tracers_build demo_env demo_geth None \<and>
   (\<exists>results g db' w'. ExecuteTxs demo_env demo_geth demo_evm [unsigned_tx, unsigned_tx] demo_db None demo_world =
      Some (results, demo_evm\<lparr>gasPool := g\<rparr>, db', w') \<and> length results = 2 \<and>
      ledger_txs demo_env demo_geth (block_env (vmContext demo_evm) demo_world) demo_evm 0 [unsigned_tx, unsigned_tx] None
        (contents demo_env demo_db demo_world) = Some (results, g, contents demo_env db' w'))"
  using ExecuteTxs_implements_ledger [OF demo_machine demo_tracers demo_db_ok, of demo_evm "[unsigned_tx, unsigned_tx]"]
    demo_tracers by auto

text \<open>
  Warming up the cache is invisible: it returns, and every layer that existed shows the same
  balances, nonces, codes, slots and logs and holds the same receipts as before.
\<close>

theorem WarmUpCache_invisible:
  assumes "machine_ok X" "db_ok E db w"
  shows "\<exists>w'. WarmUpCache E X a txs db w = Some w' \<and> db_ok E db w' \<and>
    (\<forall>l<length (heap w). view E w' l = view E w l \<and> logs_at (heap w') l = logs_at (heap w) l \<and>
       receipts (st w' l) = receipts (st w l))"
proof -
  from WarmUpCache_ok [OF assms] obtain w' where w': "WarmUpCache E X a txs db w = Some w'" "grown E w w'" by blast
  then have b: "below (length (heap w)) w w'" by (simp add: grown_def)
  note p = db_ok_parts(4) [OF assms(2)]
  from w' grown_db_ok [OF w'(2) assms(2)] below_view [OF b p] below_logs [OF b p] below_fields(2) [OF b] show ?thesis
    by (auto simp: st_def)
qed

theorem WarmUpCache_invisible_witness:
  "machine_ok demo_geth \<and> (\<exists>w'. WarmUpCache demo_env demo_geth demo_evm [unsigned_tx] demo_db demo_world = Some w' \<and>
     view demo_env w' 1 = view demo_env demo_world 1)"
  using WarmUpCache_invisible [OF demo_machine demo_db_ok, of demo_evm "[unsigned_tx]"] demo_machine
  by (auto simp: demo_heap)

end
