(* ===== verification/TxPool.thy ===== *)
theory TxPool
  imports Geth
begin

text \<open>
  \<^verbatim>\<open>mfertxpool/txpool.go\<close>: the transactions that were sent, in order, with the error each ended
  with (\<^const>\<open>None\<close> when there was none). The hash of a transaction is go-ethereum's and a parameter.
\<close>

section \<open>The pool\<close>

record MferTxPool =
  txs :: "Transaction list"
  execResults :: "string option list"

definition NewMferTxPool :: MferTxPool where
  "NewMferTxPool = \<lparr>txs = [], execResults = []\<rparr>"

definition AddTx :: "Transaction \<Rightarrow> string option \<Rightarrow> MferTxPool \<Rightarrow> MferTxPool" where
  "AddTx tx execResult pool =
     pool\<lparr>txs := txs pool @ [tx], execResults := execResults pool @ [execResult]\<rparr>"

definition SetResults :: "string option list \<Rightarrow> MferTxPool \<Rightarrow> MferTxPool" where
  "SetResults results pool = pool\<lparr>execResults := results\<rparr>"

definition Reset :: "MferTxPool \<Rightarrow> nat \<times> MferTxPool" where
  "Reset pool = (length (txs pool), \<lparr>txs = [], execResults = []\<rparr>)"

text \<open>The search loop: the index of the first transaction with the hash, counting from \<open>i\<close>.\<close>

fun first_tx :: "(Transaction \<Rightarrow> hash) \<Rightarrow> hash \<Rightarrow> nat \<Rightarrow> Transaction list \<Rightarrow> (nat \<times> Transaction) option" where
  "first_tx hash_of h i [] = None"
| "first_tx hash_of h i (tx # rest) =
     (if hash_of tx = h then Some (i, tx) else first_tx hash_of h (Suc i) rest)"

definition RemoveTxByHash :: "(Transaction \<Rightarrow> hash) \<Rightarrow> hash \<Rightarrow> MferTxPool \<Rightarrow> MferTxPool option" where
  "RemoveTxByHash hash_of txHash pool =
     (if length (txs pool) < 1 then Some pool
      else do {
        let txIndex = (case first_tx hash_of txHash 0 (txs pool) of Some (i, _) \<Rightarrow> int i | None \<Rightarrow> 0);
        head \<leftarrow> go_slice (txs pool) 0 txIndex;
        tail \<leftarrow> go_slice (txs pool) (txIndex + 1) (int (length (txs pool)));
        resHead \<leftarrow> go_slice (execResults pool) 0 txIndex;
        resTail \<leftarrow> go_slice (execResults pool) (txIndex + 1) (int (length (execResults pool)));
        Some (pool\<lparr>txs := head @ tail, execResults := resHead @ resTail\<rparr>)
      })"

definition GetPoolTxs :: "MferTxPool \<Rightarrow> Transaction list \<times> string option list" where
  "GetPoolTxs pool = (txs pool, execResults pool)"

definition GetTransactionByHash ::
  "(Transaction \<Rightarrow> hash) \<Rightarrow> hash \<Rightarrow> MferTxPool \<Rightarrow> int \<times> Transaction option" where
  "GetTransactionByHash hash_of txHash pool =
     (case first_tx hash_of txHash 0 (txs pool) of
        Some (i, tx) \<Rightarrow> (int i, Some tx)
      | None \<Rightarrow> (0, None))"

section \<open>The pool as a list of entries\<close>

definition pool_ok :: "MferTxPool \<Rightarrow> bool" where
  "pool_ok pool \<longleftrightarrow> length (execResults pool) = length (txs pool)"

definition entries :: "MferTxPool \<Rightarrow> (Transaction \<times> string option) list" where
  "entries pool = zip (txs pool) (execResults pool)"

lemma first_tx_Some:
  assumes "first_tx hash_of h i xs = Some (j, tx)"
  shows "i \<le> j \<and> j < i + length xs \<and> xs ! (j - i) = tx \<and> hash_of tx = h \<and>
    (\<forall>k<j - i. hash_of (xs ! k) \<noteq> h)"
  using assms
proof (induction xs arbitrary: i)
  case (Cons x xs)
  show ?case
  proof (cases "hash_of x = h")
    case False
    with Cons.prems have "first_tx hash_of h (Suc i) xs = Some (j, tx)" by simp
    note IH = Cons.IH [OF this]
    then obtain d where d: "j - i = Suc d" "j - Suc i = d" by (metis Suc_diff_Suc Suc_le_lessD)
    with IH False show ?thesis by (auto simp: less_Suc_eq_0_disj)
  qed (use Cons.prems in auto)
qed simp

lemma first_tx_None: "first_tx hash_of h i xs = None \<longleftrightarrow> (\<forall>tx\<in>set xs. hash_of tx \<noteq> h)"
  by (induction xs arbitrary: i) auto

lemma first_tx_bound: "first_tx hash_of h 0 xs = Some (j, tx) \<Longrightarrow> j < length xs"
  using first_tx_Some [of hash_of h 0 xs j tx] by simp

lemma entries_AddTx [simp]:
  "pool_ok pool \<Longrightarrow> entries (AddTx tx r pool) = entries pool @ [(tx, r)]"
  by (simp add: entries_def AddTx_def pool_ok_def)

definition removal_index :: "(Transaction \<Rightarrow> hash) \<Rightarrow> hash \<Rightarrow> Transaction list \<Rightarrow> nat" where
  "removal_index hash_of h xs = (case first_tx hash_of h 0 xs of Some (i, _) \<Rightarrow> i | None \<Rightarrow> 0)"

lemma RemoveTxByHash_eq:
  fixes hash_of h
  assumes "pool_ok pool" "txs pool \<noteq> []"
  defines "i \<equiv> removal_index hash_of h (txs pool)"
  shows "RemoveTxByHash hash_of h pool = Some (pool\<lparr>txs := take i (txs pool) @ drop (Suc i) (txs pool),
      execResults := take i (execResults pool) @ drop (Suc i) (execResults pool)\<rparr>)"
proof -
  have i: "i < length (txs pool)" using assms(2) first_tx_bound
    by (auto simp: i_def removal_index_def split: option.splits)
  have "(case first_tx hash_of h 0 (txs pool) of None \<Rightarrow> 0 | Some (i, x) \<Rightarrow> int i) = int i"
    by (auto simp: i_def removal_index_def split: option.splits)
  with i assms(1) show ?thesis
    by (auto simp: RemoveTxByHash_def go_slice_def pool_ok_def nat_add_distrib Suc_le_eq)
qed

text \<open>
  The operations as steps. \<^verbatim>\<open>SetResults\<close> is only called with one result per transaction of the pool.
\<close>

inductive pool_step :: "(Transaction \<Rightarrow> hash) \<Rightarrow> MferTxPool \<Rightarrow> MferTxPool option \<Rightarrow> bool" for hash_of where
  add: "pool_step hash_of pool (Some (AddTx tx r pool))"
| set: "length results = length (txs pool) \<Longrightarrow> pool_step hash_of pool (Some (SetResults results pool))"
| reset: "pool_step hash_of pool (Some (snd (Reset pool)))"
| remove: "pool_step hash_of pool (RemoveTxByHash hash_of h pool)"

lemma pool_step_ok:
  assumes "pool_step hash_of pool next" "pool_ok pool"
  shows "\<exists>pool'. next = Some pool' \<and> pool_ok pool'"
  using assms(1)
proof (cases rule: pool_step.cases)
  case (remove h)
  show ?thesis
  proof (cases "txs pool = []")
    case True
    with remove assms(2) show ?thesis by (simp add: RemoveTxByHash_def)
  next
    case False
    with remove RemoveTxByHash_eq [OF assms(2)] assms(2) show ?thesis by (simp add: pool_ok_def)
  qed
qed (use assms(2) in \<open>auto simp: pool_ok_def AddTx_def SetResults_def Reset_def\<close>)

interpretation pool_machine: safe_machine "pool_step hash_of" pool_ok for hash_of
  by unfold_locales (rule pool_step_ok)

section \<open>Properties\<close>

definition demo_tx :: Transaction where
  "demo_tx = \<lparr>tx_Type = 0, tx_ChainID = 0, tx_Nonce = 0, tx_GasPrice = 0, tx_GasTipCap = 0,
     tx_GasFeeCap = 0, tx_Gas = 21000, tx_To = Some 7, tx_Value = 1, tx_Data = [], tx_AccessList = [],
     tx_V = 1, tx_R = 0, tx_S = 0\<rparr>"

definition demo_hash :: "Transaction \<Rightarrow> hash" where
  "demo_hash tx = ucast (tx_Nonce tx)"



text \<open>
  A transaction that was added is found under its hash: at its own position when no earlier one
  has the same hash, and otherwise the earlier one is returned; an unknown hash returns no
  transaction and index 0.
\<close>

theorem added_tx_found:
  "GetTransactionByHash hash_of h (AddTx tx r pool) =
     (case first_tx hash_of h 0 (txs pool) of
        Some (i, earlier) \<Rightarrow> (int i, Some earlier)
      | None \<Rightarrow> if hash_of tx = h then (int (length (txs pool)), Some tx) else (0, None))"
proof -
  have "first_tx hash_of h i (xs @ [tx]) = (case first_tx hash_of h i xs of
      Some p \<Rightarrow> Some p | None \<Rightarrow> if hash_of tx = h then Some (i + length xs, tx) else None)" for i xs
    by (induction xs arbitrary: i) (auto split: option.splits)
  from this [of 0] show ?thesis
    by (auto simp: GetTransactionByHash_def AddTx_def split: option.splits)
qed

text \<open>
  Removing by hash takes out the first transaction with that hash together with its own result and
  keeps the others in order; but when no transaction of a non-empty pool has the hash, the first
  transaction of the pool is taken out instead.
\<close>

theorem remove_takes_out_one:
  assumes "pool_ok pool" "txs pool \<noteq> []"
  shows "\<exists>pool' i. RemoveTxByHash hash_of h pool = Some pool' \<and>
     entries pool' = take i (entries pool) @ drop (Suc i) (entries pool) \<and> i < length (txs pool) \<and>
     (if \<exists>tx\<in>set (txs pool). hash_of tx = h
      then hash_of (txs pool ! i) = h \<and> (\<forall>k<i. hash_of (txs pool ! k) \<noteq> h)
      else i = 0)"
proof -
  let ?i = "removal_index hash_of h (txs pool)"
  have "?i < length (txs pool)" using assms(2) first_tx_bound
    by (auto simp: removal_index_def split: option.splits)
  moreover have "if \<exists>tx\<in>set (txs pool). hash_of tx = h
      then hash_of (txs pool ! ?i) = h \<and> (\<forall>k<?i. hash_of (txs pool ! k) \<noteq> h) else ?i = 0"
    using first_tx_None [of hash_of h 0 "txs pool"]
    by (cases "first_tx hash_of h 0 (txs pool)") (auto simp: removal_index_def dest: first_tx_Some)
  ultimately show ?thesis using RemoveTxByHash_eq [OF assms, of hash_of h] assms(1)
    by (intro exI [of _ "pool\<lparr>txs := take ?i (txs pool) @ drop (Suc ?i) (txs pool),
          execResults := take ?i (execResults pool) @ drop (Suc ?i) (execResults pool)\<rparr>"] exI [of _ ?i])
      (simp add: entries_def pool_ok_def take_zip drop_zip zip_append)
qed

theorem remove_takes_out_one_witness:
  "pool_ok (AddTx demo_tx None NewMferTxPool) \<and>
   (\<exists>pool'. RemoveTxByHash demo_hash 5 (AddTx demo_tx None NewMferTxPool) = Some pool' \<and> entries pool' = [])"
  using remove_takes_out_one [of "AddTx demo_tx None NewMferTxPool" demo_hash 5]
  by (simp add: pool_ok_def AddTx_def NewMferTxPool_def entries_def demo_hash_def demo_tx_def)

end
