(* ===== verification/BlockMove.thy ===== *)
theory BlockMove
  imports Frames
begin

text \<open>
  Correctness of \<^verbatim>\<open>resetScratchPad\<close> and \<^verbatim>\<open>InitState\<close> (\<^verbatim>\<open>mferstate/overlaystatedb.go\<close>): after the
  block number has moved, the cached values of the root belong to the old block; the reset
  fetches every known slot and account again, and the root is coherent with the new block.
\<close>

section \<open>The new contents of the root\<close>

lemma calcKey_prefix: "Hash_Bytes h @ x = calcKey op a \<Longrightarrow> h = op"
  by (metis Hash_Bytes_inject append_eq_append_conv calcKey_def length_Hash_Bytes)

lemma load_key_cache_other:
  assumes "keys_distinct E" "action \<noteq> GET_STATE"
  shows "map_of (load_key_cache E n lines pad) (scratchpadKey E action a k) = map_of pad (scratchpadKey E action a k)"
proof -
  have neq: "Hash_Bytes (STATE_KEY E) @ x \<noteq> scratchpadKey E action a k" for x
    using assms calcKey_prefix [of "STATE_KEY E" x]
    by (cases action) (force simp: scratchpadKey_def keys_distinct_def)+
  have "map_of (fold (\<lambda>txt m. AList.update (Hash_Bytes (STATE_KEY E) @ Hex2Bytes txt) [] m) ls p) (scratchpadKey E action a k) =
      map_of p (scratchpadKey E action a k)" for ls p
    by (induction ls arbitrary: p) (simp_all add: neq [symmetric])
  then show ?thesis by (simp add: load_key_cache_def)
qed

lemma gomap_wf_fold_update: "gomap_wf pad \<Longrightarrow> gomap_wf (fold (\<lambda>x m. AList.update (f x) (g x) m) xs pad)"
  by (induction xs arbitrary: pad) simp_all

lemma gomap_wf_load: "gomap_wf pad \<Longrightarrow> gomap_wf (load_key_cache E n lines pad)"
  unfolding load_key_cache_def by (rule gomap_wf_fold_update)

lemma slot_req_key: "slot_req (calcStateKey E a k) = \<lparr>sr_Address = a, sr_Key = k, sr_Value = 0\<rparr>"
  "is_slot_key E (calcStateKey E a k)"
  by (simp_all add: slot_req_def is_slot_key_def calcStateKey_def calcKey_def)

lemma map_of_store_slots:
  "map_of (store_slots E (map (fetched_req E n) reqs) pad) key =
   (if \<exists>q\<in>set reqs. key = calcStateKey E (sr_Address q) (sr_Key q)
    then Some (Hash_Bytes (as_hash (answer E (eth_getStorageAt
      (sr_Address (slot_req key)) (sr_Key (slot_req key)) (sint n))))) else map_of pad key)"
  by (induction reqs rule: rev_induct) (auto simp: store_slots_def fetched_req_def slot_req_key)

lemma store_account_uval:
  "store_account E (a, fetched_account E n a) pad =
   AList.update (scratchpadKey E GET_CODEHASH a 0) (uval E n GET_CODEHASH a 0)
    (AList.update (scratchpadKey E GET_CODE a 0) (uval E n GET_CODE a 0)
     (AList.update (scratchpadKey E GET_NONCE a 0) (uval E n GET_NONCE a 0)
      (AList.update (scratchpadKey E GET_BALANCE a 0) (uval E n GET_BALANCE a 0) pad)))"
  by (simp add: store_account_def fetched_account_def scratchpadKey_def uval_def Let_def)

lemma map_of_store_account:
  assumes "keys_distinct E"
  shows "map_of (store_account E (b, fetched_account E n b) pad) (scratchpadKey E action a k) =
    (if action \<noteq> GET_STATE \<and> a = b then Some (uval E n action a k) else map_of pad (scratchpadKey E action a k))"
  by (cases action) (auto simp: store_account_uval scratchpadKey_eq [OF assms] uval_def)

definition accounts_stored :: "env \<Rightarrow> u64 \<Rightarrow> address list \<Rightarrow> (bytes, bytes) gomap \<Rightarrow> (bytes, bytes) gomap" where
  "accounts_stored E n accs pad = fold (store_account E) (zip accs (map (fetched_account E n) accs)) pad"

lemma map_of_accounts_stored:
  assumes "keys_distinct E"
  shows "map_of (accounts_stored E n accs pad) (scratchpadKey E action a k) =
    (if action \<noteq> GET_STATE \<and> a \<in> set accs then Some (uval E n action a k) else map_of pad (scratchpadKey E action a k))"
  by (induction accs arbitrary: pad) (auto simp: accounts_stored_def map_of_store_account [OF assms])

lemma gomap_wf_accounts_stored: "gomap_wf pad \<Longrightarrow> gomap_wf (accounts_stored E n accs pad)"
  by (induction accs arbitrary: pad) (simp_all add: accounts_stored_def store_account_def)

definition reloaded :: "env \<Rightarrow> nat \<Rightarrow> u64 \<Rightarrow> string list \<Rightarrow> (bytes, bytes) gomap \<Rightarrow> address list \<Rightarrow> (bytes, bytes) gomap" where
  "reloaded E m n lines pad accs =
     (let pad1 = load_key_cache E m lines pad; reqs = map slot_req (filter (is_slot_key E) (map fst pad1))
      in accounts_stored E n accs (store_slots E (map (fetched_req E n) reqs) pad1))"

lemma reloaded_ok:
  assumes kd: "keys_distinct E" and wf: "gomap_wf pad"
    and tracked: "\<And>action a k. action \<noteq> GET_STATE \<Longrightarrow> map_of pad (scratchpadKey E action a k) \<noteq> None \<Longrightarrow> a \<in> set accs"
  shows "gomap_wf (reloaded E m n lines pad accs)"
    and "coherent E n (reloaded E m n lines pad accs)"
    and "action \<noteq> GET_STATE \<Longrightarrow> map_of (reloaded E m n lines pad accs) (scratchpadKey E action a k) \<noteq> None \<Longrightarrow> a \<in> set accs"
proof -
  let ?p1 = "load_key_cache E m lines pad"
  let ?reqs = "map slot_req (filter (is_slot_key E) (map fst ?p1))"
  let ?p2 = "store_slots E (map (fetched_req E n) ?reqs) ?p1"
  have eq: "reloaded E m n lines pad accs = accounts_stored E n accs ?p2" by (simp add: reloaded_def Let_def)
  have "gomap_wf ?p2" unfolding store_slots_def by (rule gomap_wf_fold_update [OF gomap_wf_load [OF wf]])
  then show "gomap_wf (reloaded E m n lines pad accs)" unfolding eq by (rule gomap_wf_accounts_stored)
  have acc: "map_of ?p2 (scratchpadKey E action a k) = map_of pad (scratchpadKey E action a k)" if "action \<noteq> GET_STATE" for action a k
    using that load_key_cache_other [OF kd that]
    by (subst map_of_store_slots) (cases action; force simp: scratchpadKey_def)
  have slot: "v = uval E n GET_STATE a k" if "map_of ?p2 (calcStateKey E a k) = Some v" for a k v
  proof (cases "calcStateKey E a k \<in> set (map fst ?p1)")
    case True
    then have "slot_req (calcStateKey E a k) \<in> set ?reqs" by (force simp: slot_req_key)
    then have "\<exists>q\<in>set ?reqs. calcStateKey E a k = calcStateKey E (sr_Address q) (sr_Key q)"
      by (rule bexI [rotated]) (simp add: slot_req_key)
    with that show ?thesis by (subst (asm) map_of_store_slots) (auto simp: slot_req_key uval_def)
  next
    case False
    then have "map_of ?p1 (calcStateKey E a k) = None" by (simp add: map_of_eq_None_iff image_iff)
    with that show ?thesis by (subst (asm) map_of_store_slots) (auto simp: slot_req_key uval_def split: if_splits)
  qed
  show "coherent E n (reloaded E m n lines pad accs)" unfolding coherent_def
  proof (intro allI impI)
    fix action a k v
    assume v: "map_of (reloaded E m n lines pad accs) (scratchpadKey E action a k) = Some v"
    show "v = uval E n action a k"
    proof (cases "action = GET_STATE")
      case True
      with v slot show ?thesis unfolding eq by (simp add: map_of_accounts_stored [OF kd]) (simp add: scratchpadKey_def)
    next
      case False
      have "a \<in> set accs"
      proof (rule ccontr)
        assume "a \<notin> set accs"
        with v False acc [OF False, of a k] have "map_of pad (scratchpadKey E action a k) = Some v"
          unfolding eq by (simp add: map_of_accounts_stored [OF kd])
        with tracked [OF False, of a k] \<open>a \<notin> set accs\<close> show False by simp
      qed
      with v False show ?thesis unfolding eq by (simp add: map_of_accounts_stored [OF kd])
    qed
  qed
  show "a \<in> set accs" if "action \<noteq> GET_STATE" "map_of (reloaded E m n lines pad accs) (scratchpadKey E action a k) \<noteq> None"
    using that acc [OF that(1), of a k] tracked [OF that(1), of a k] unfolding eq
    by (auto simp: map_of_accounts_stored [OF kd] split: if_splits)
qed


section \<open>The reset\<close>

text \<open>
  What the reset relies on: the layer is the root, and every account with a cached value is in its
  set of accessed accounts; the other layers hold keys of the known kinds. The cached values themselves may belong to any block.
\<close>

definition stale_root :: "env \<Rightarrow> world \<Rightarrow> ref \<Rightarrow> bool" where
  "stale_root E w r \<longleftrightarrow> wf_heap (heap w) \<and> r < length (heap w) \<and>
     parent (heap w ! r) = None \<and>
     bn (heap w ! r) \<and> 0 < batchSize (heap w ! r) \<and>
     accounts_tracked E (scratchPad (heap w ! r)) (accessedAccounts (heap w ! r)) \<and>
     (\<forall>i<length (heap w). parent (heap w ! i) \<noteq> None \<longrightarrow> keyed E (heap w ! i))"

definition reset_to :: "ref \<Rightarrow> world \<Rightarrow> world \<Rightarrow> bool" where
  "reset_to r w w' \<longleftrightarrow> length (heap w') = length (heap w) \<and> blockNumber w' = blockNumber w \<and>
     bigs w' = bigs w \<and> clock w \<le> clock w' \<and>
     (\<exists>pad acc n. heap w' = (heap w)[r := (heap w ! r)\<lparr>rpcCnt := n, accessedAccounts := acc, scratchPad := pad\<rparr>])"

lemma fresh_root_wf:
  assumes "stale_root E w r" "heap w' = (heap w)[r := (heap w ! r)\<lparr>rpcCnt := m, accessedAccounts := acc, scratchPad := pad\<rparr>]"
    and "blockNumber w' = n" "gomap_wf pad" "coherent E n pad" "accounts_tracked E pad acc"
  shows "wf_world E w'"
proof -
  have "wf_heap (heap w')" using assms(1,2,4)
    by (auto simp: wf_heap_def stale_root_def nth_list_update split: option.splits)
  moreover have "i = r" if "i < length (heap w)" "parent (heap w ! i) = None" for i
    using assms(1) that wf_heap_root unfolding stale_root_def by metis
  then have "root_ok E n (heap w' ! i)" if "i < length (heap w)" "parent (heap w' ! i) = None" for i
    using that assms by (auto simp: root_ok_def stale_root_def nth_list_update split: if_splits)
  moreover have "keyed E (heap w' ! i)" if "i < length (heap w)" "parent (heap w' ! i) \<noteq> None" for i
    using that assms(1,2) by (auto simp: stale_root_def nth_list_update split: if_splits)
  ultimately show ?thesis using assms(2,3) by (simp add: wf_world_def)
qed

lemma mark_accessed_scratchPad: "mark_accessed as (x\<lparr>scratchPad := p\<rparr>) = (mark_accessed as x)\<lparr>scratchPad := p\<rparr>"
  by (simp add: mark_accessed_def)

lemma mark_accessed_acc: "mark_accessed as x = x\<lparr>accessedAccounts := accessedAccounts (mark_accessed as x)\<rparr>"
  by (simp add: mark_accessed_def)

lemma loadStateBatchRPC_up:
  assumes "stable_answers E" "r < length (heap w)" "bn (st w r)" "0 < batchSize (st w r)"
    and up: "\<forall>t\<ge>clock w. rpc_fail E t = None"
  shows "\<exists>c\<ge>clock w. loadStateBatchRPC E r reqs w = Some (Inr (map (fetched_req E (blockNumber w)) reqs),
      (upd_st r (\<lambda>x. x\<lparr>rpcCnt := rpcCnt x + 1\<rparr>) w)\<lparr>clock := c\<rparr>)"
proof -
  have "rpc_fail E (c - 1) = None" if "clock w < c" for c using up that by simp
  with loadStateBatchRPC_ok [OF assms(1-4), of reqs] show ?thesis by auto
qed

lemma loadAccountBatchRPC_up:
  assumes "stable_answers E" "r < length (heap w)" "bn (st w r)" "0 < batchSize (st w r)"
    and up: "\<forall>t\<ge>clock w. rpc_fail E t = None"
  shows "\<exists>c\<ge>clock w. loadAccountBatchRPC E r accounts w = Some (Inr (map (fetched_account E (blockNumber w)) accounts),
      (upd_st r (mark_accessed accounts) w)\<lparr>clock := c\<rparr>)"
proof -
  have "rpc_fail E (c - 1) = None" if "clock w < c" for c using up that by simp
  with loadAccountBatchRPC_ok [OF assms(1-4), of accounts] show ?thesis by auto
qed

lemma resetScratchPad_ok:
  assumes kd: "keys_distinct E" and sa: "stable_answers E"
    and up: "\<forall>t\<ge>clock w. rpc_fail E t = None"
    and st: "stale_root E w (state db)" and nofile: "\<not> openfile_err E (cacheFilePath db)"
  shows "\<exists>w'. resetScratchPad E db False w = Some w' \<and> wf_world E w' \<and> reset_to (state db) w w'"
proof -
  let ?r = "state db" and ?n = "blockNumber w" and ?s = "heap w ! state db"
  let ?m = "unat (maxKeyCache db)"
  let ?pad1 = "load_key_cache E ?m (keyCacheFile w) (scratchPad ?s)"
  let ?keys = "filter (is_slot_key E) (map fst ?pad1)"
  let ?reqs = "map slot_req ?keys"
  let ?as = "map sr_Address ?reqs"
  define A where "A = accessedAccounts (mark_accessed ?as ?s)"
  let ?w1 = "upd_st ?r (\<lambda>x. mark_accessed ?as (x\<lparr>scratchPad := ?pad1\<rparr>)) w"
  have r: "?r < length (heap w)" and root: "bn (st w ?r)" "0 < batchSize (st w ?r)"
    using st by (auto simp: stale_root_def st_def)
  have st1: "?r < length (heap ?w1)" "bn (st ?w1 ?r)" "0 < batchSize (st ?w1 ?r)" "\<forall>t\<ge>clock ?w1. rpc_fail E t = None"
    using r root up by (simp_all add: st_upd_st mark_accessed_def)
  from loadStateBatchRPC_up [OF sa st1, of ?reqs]
  obtain c where ls: "loadStateBatchRPC E ?r ?reqs ?w1 = Some (Inr (map (fetched_req E ?n) ?reqs),
        (upd_st ?r (\<lambda>x. x\<lparr>rpcCnt := rpcCnt x + 1\<rparr>) ?w1)\<lparr>clock := c\<rparr>)" and c: "clock w \<le> c" by auto
  let ?pad2 = "store_slots E (map (fetched_req E ?n) ?reqs) ?pad1"
  let ?w3 = "upd_st ?r (\<lambda>x. x\<lparr>scratchPad := store_slots E (map (fetched_req E ?n) ?reqs) (scratchPad x)\<rparr>)
       ((upd_st ?r (\<lambda>x. x\<lparr>rpcCnt := rpcCnt x + 1\<rparr>) ?w1)\<lparr>clock := c, keyCacheFile := map (\<lambda>k. Bytes2Hex (drop 32 k)) ?keys\<rparr>)"
  have w3: "st ?w3 ?r = ?s\<lparr>scratchPad := ?pad2, accessedAccounts := A, rpcCnt := rpcCnt ?s + 1\<rparr>"
    using r by (simp add: st_def upd_st_def mark_accessed_def A_def)
  let ?accs = "map fst A"
  have st3: "?r < length (heap ?w3)" "bn (st ?w3 ?r)" "0 < batchSize (st ?w3 ?r)" "\<forall>t\<ge>clock ?w3. rpc_fail E t = None"
    using r root up c unfolding w3 by (simp_all add: st_def)
  from loadAccountBatchRPC_up [OF sa st3, of ?accs]
  obtain d where la: "loadAccountBatchRPC E ?r ?accs ?w3 = Some (Inr (map (fetched_account E ?n) ?accs),
        (upd_st ?r (mark_accessed ?accs) ?w3)\<lparr>clock := d\<rparr>)" and d: "c \<le> d" by auto
  let ?B = "accessedAccounts (mark_accessed ?accs (?s\<lparr>accessedAccounts := A\<rparr>))"
  let ?pad = "reloaded E ?m ?n (keyCacheFile w) (scratchPad ?s) ?accs"
  let ?w' = "upd_st ?r (\<lambda>x. x\<lparr>scratchPad := fold (store_account E) (zip ?accs (map (fetched_account E ?n) ?accs)) (scratchPad x)\<rparr>)
      ((upd_st ?r (mark_accessed ?accs) ?w3)\<lparr>clock := d\<rparr>)"
  have run: "resetScratchPad E db False w = Some ?w'"
    using root nofile ls la w3 by (simp add: resetScratchPad_def Let_def st_def [of w])
  have h: "heap ?w' = (heap w)[?r := ?s\<lparr>rpcCnt := rpcCnt ?s + 1, accessedAccounts := ?B, scratchPad := ?pad\<rparr>]"
    using r by (simp add: upd_st_def mark_accessed_def A_def reloaded_def accounts_stored_def Let_def)
  have wf: "gomap_wf (scratchPad ?s)" using st by (auto simp: stale_root_def wf_heap_def)
  have A: "map_of A a \<noteq> None \<longleftrightarrow> a \<in> set ?accs" for a
    by (force simp: map_of_eq_None_iff)
  have "a \<in> set ?accs" if "action \<noteq> GET_STATE" "map_of (scratchPad ?s) (scratchpadKey E action a k) \<noteq> None" for action a k
  proof -
    have "map_of (accessedAccounts ?s) a \<noteq> None"
      using that st unfolding stale_root_def accounts_tracked_def by blast
    then have "map_of A a \<noteq> None" by (auto simp: A_def map_of_mark_accessed simp del: map_map)
    then show ?thesis by (simp only: A)
  qed
  note pad = reloaded_ok [where accs = ?accs, OF kd wf this]
  have "accounts_tracked E ?pad ?B" using pad(3) by (fastforce simp: accounts_tracked_def map_of_mark_accessed)
  from fresh_root_wf [OF st h _ pad(1,2) this] have "wf_world E ?w'" by simp
  moreover have "reset_to ?r w ?w'" unfolding reset_to_def using h c d by auto
  ultimately show ?thesis using run by blast
qed


lemma cleared_root_ok:
  assumes "stale_root E w (state db)" "\<not> openfile_err E (cacheFilePath db)"
  shows "\<exists>w'. resetScratchPad E db True w = Some w' \<and> wf_world E w' \<and> reset_to (state db) w w'"
proof -
  let ?r = "state db"
  let ?w' = "(upd_st ?r (\<lambda>x. x\<lparr>scratchPad := [], accessedAccounts := []\<rparr>) w)\<lparr>keyCacheFile := []\<rparr>"
  have h: "heap ?w' = (heap w)[?r := (heap w ! ?r)\<lparr>rpcCnt := rpcCnt (heap w ! ?r), accessedAccounts := [], scratchPad := []\<rparr>]"
    unfolding upd_st_def by (auto intro!: arg_cong [where f = "list_update (heap w) ?r"])
  from fresh_root_wf [OF assms(1) h, of "blockNumber w"] have "wf_world E ?w'"
    by (simp add: coherent_def accounts_tracked_def)
  moreover have "reset_to ?r w ?w'" unfolding reset_to_def by (intro conjI exI, simp_all only: h) simp_all
  moreover have "resetScratchPad E db True w = Some ?w'"
    using assms by (simp add: resetScratchPad_def stale_root_def st_def)
  ultimately show ?thesis by blast
qed

lemma InitState_ok:
  assumes E: "upstream_ok E" and up: "\<forall>t\<ge>clock w. rpc_fail E t = None"
    and root: "getRootState (state db) w = Some root" "stale_root E w root"
    and db: "stateBN db" "\<not> openfile_err E (cacheFilePath db)"
  shows "\<exists>s w'. InitState E db True clear w = Some (db\<lparr>state := s\<rparr>, w') \<and> db_ok E (db\<lparr>state := s\<rparr>) w' \<and>
    blockNumber w' = blockNumber w \<and> bigs w' = bigs w \<and> s = length (heap w) \<and> length (heap w') = Suc s \<and>
    clock w \<le> clock w' \<and> view E w' s = uval E (blockNumber w)"
proof -
  have E': "keys_distinct E" "stable_answers E" using E by (simp_all add: upstream_ok_def)
  obtain w1 where w1: "resetScratchPad E (db\<lparr>state := root\<rparr>) clear w = Some w1" "wf_world E w1" "reset_to root w w1"
    using resetScratchPad_ok [OF E' up, of "db\<lparr>state := root\<rparr>"] cleared_root_ok [of E w "db\<lparr>state := root\<rparr>"] root(2) db(2)
    by (cases clear) auto
  have len: "root < length (heap w1)" "length (heap w1) = length (heap w)" "parent (heap w1 ! root) = None"
    using w1(3) root(2) by (auto simp: reset_to_def stale_root_def)
  let ?w' = "w1\<lparr>heap := heap w1 @ [fresh_layer E ''reset and protect underlying'' root w1]\<rparr>"
  have "view E w1 root = uval E (blockNumber w)"
    using len(3) w1(3) by (simp add: fun_eq_iff view_def overlay.simps [of _ root] reset_to_def)
  then have "view E ?w' (length (heap w)) = uval E (blockNumber w)"
    using view_Derive_new [OF w1(2) len(1)] len(2) by simp
  moreover have "wf_world E ?w'" by (rule wf_world_Derive [OF w1(2) len(1)])
  ultimately show ?thesis using w1 root(1) db(1) len E
    by (auto simp: InitState_def Derive_eq db_ok_def reset_to_def nth_append fresh_layer_def)
qed

section \<open>Properties\<close>

text \<open>
  A world to run the reset in: the root still holds a balance of 9 wei for account 3, cached at
  an older block, and the upstream node is back.
\<close>

definition stale_world :: world where
  "stale_world = upd_st 0 (\<lambda>x. x\<lparr>scratchPad := [(scratchpadKey demo_env GET_BALANCE 3 0, [9])],
     accessedAccounts := [(3, True)]\<rparr>) (demo_world\<lparr>blockNumber := 8, clock := 2\<rparr>)"

lemma stale_demo: "stale_root demo_env stale_world 0"
  using upstream_ok_demo
  by (auto simp: stale_root_def keyed_def stale_world_def wf_heap_def accounts_tracked_def demo_world_def Derive_def
      NewOverlayState_def st_def upd_st_def nth_Cons' less_Suc_eq upstream_ok_def scratchpadKey_eq gomap_wf_def split: if_splits)

text \<open>C11.
  Moving to a new block: whatever block the cached values of the root belong to,
  \<^verbatim>\<open>InitState\<close> with \<^verbatim>\<open>fetchNewState\<close> returns once the upstream node answers, on a fresh layer, and
  from then on every value the database reads is the upstream node's value at the block number
  now set, those that were cached before included. This holds with the key cache kept (every
  known slot and account is fetched again) and with it cleared.
\<close>

theorem InitState_moves_to_block:
  assumes "upstream_ok E" "\<forall>t\<ge>clock w. rpc_fail E t = None"
    and "getRootState (state db) w = Some root" "stale_root E w root"
    and "stateBN db" "\<not> openfile_err E (cacheFilePath db)"
  shows "\<exists>db' w'. InitState E db True clear w = Some (db', w') \<and> db_ok E db' w' \<and>
    blockNumber w' = blockNumber w \<and>
    (\<forall>a action k. \<exists>w''. get E (state db') a action k w' = Some (uval E (blockNumber w) action a k, w''))"
proof -
  from InitState_ok [OF assms, of clear] obtain s w' where i: "InitState E db True clear w = Some (db\<lparr>state := s\<rparr>, w')"
    "db_ok E (db\<lparr>state := s\<rparr>) w'" "blockNumber w' = blockNumber w" "view E w' s = uval E (blockNumber w)" by blast
  have "\<exists>w''. get E s a action k w' = Some (uval E (blockNumber w) action a k, w'')" for a action k
    using db_get [OF i(2), of a action k] i(4) by auto
  then show ?thesis using i(1-3) by (intro exI [of _ "db\<lparr>state := s\<rparr>"] exI [of _ w']) simp
qed

theorem InitState_moves_to_block_witness:
  "(\<exists>w'. get demo_env 1 3 GET_BALANCE 0 stale_world = Some ([9], w')) \<and>
   (\<exists>db' w' w''. InitState demo_env demo_db True False stale_world = Some (db', w') \<and>
      get demo_env (state db') 3 GET_BALANCE 0 w' = Some ([5], w''))"
proof
  have p: "parent (st stale_world (Suc 0)) = Some 0" "parent (st stale_world 0) = None" "scratchPad (st stale_world (Suc 0)) = []"
    "scratchPad (st stale_world 0) = [(scratchpadKey demo_env GET_BALANCE 3 0, [9])]" "blockNumber stale_world = 8"
    by (simp_all add: stale_world_def demo_world_def Derive_def NewOverlayState_def st_def upd_st_def)
  show "\<exists>w'. get demo_env 1 3 GET_BALANCE 0 stale_world = Some ([9], w')"
    by (subst get.simps, subst get.simps) (simp add: p get_root_def)
  have "getRootState (state demo_db) stale_world = Some 0"
    by (subst getRootState.simps, subst getRootState.simps) (simp add: p demo_db_def)
  moreover have "\<forall>t\<ge>clock stale_world. rpc_fail demo_env t = None"
    by (simp add: stale_world_def demo_env_def)
  ultimately obtain db' w' where i: "InitState demo_env demo_db True False stale_world = Some (db', w')"
    and g: "\<And>a action k. \<exists>w''. get demo_env (state db') a action k w' = Some (uval demo_env 8 action a k, w'')"
    using InitState_moves_to_block [OF upstream_ok_demo _ _ stale_demo, of demo_db False]
    by (auto simp: demo_db_def demo_env_def p)
  have "uval demo_env 8 GET_BALANCE 3 0 = [5]"
    by (simp add: uval_def answer_demo demo_answer_def as_big_def big_Bytes_def nat_bytes.simps)
  with i g [of 3 GET_BALANCE 0] show "\<exists>db' w' w''. InitState demo_env demo_db True False stale_world = Some (db', w') \<and>
      get demo_env (state db') 3 GET_BALANCE 0 w' = Some ([5], w'')" by auto
qed

end
