(* ===== verification/Backend.thy ===== *)
theory Backend
  imports Execution TxPool BlockMove
begin

text \<open>
  \<^verbatim>\<open>mferbackend/backend.go\<close>: the object that the RPC services share. It owns the machine and the
  transaction pool. An RPC handler is a function on the backend and the world; \<^const>\<open>None\<close> is a
  panic, a nil dereference or a call that never returns. The helper definitions that several
  services use are here too.
\<close>

section \<open>The backend\<close>

record 't MferBackend =
  b_EVM :: "'t MferEVM"
  b_TxPool :: MferTxPool
  b_ImpersonatedAccount :: address
  b_Randomized :: bool
  b_Passthrough :: bool
  b_OverrideChainID :: "int option"

definition NewMferBackend :: "'t MferEVM \<Rightarrow> MferTxPool \<Rightarrow> address \<Rightarrow> bool \<Rightarrow> 't MferBackend" where
  "NewMferBackend e pool account randomize =
     \<lparr>b_EVM = e, b_TxPool = pool, b_ImpersonatedAccount = account, b_Randomized = randomize,
      b_Passthrough = False, b_OverrideChainID = None\<rparr>"

definition Accounts :: "env \<Rightarrow> 't MferBackend \<Rightarrow> address list" where
  "Accounts E b =
     (let walletAccounts = [b_ImpersonatedAccount b, FAKE_ACCOUNT_0, FAKE_ACCOUNT_1, FAKE_ACCOUNT_2, FAKE_ACCOUNT_3]
      in if b_Randomized b then walletAccounts[0 := FAKE_ACCOUNT_RAND E] else walletAccounts)"

text \<open>What a handler returns besides its value.\<close>

datatype api_error = Err string | Reverted revertError | Failed vm_error

section \<open>State of the machine seen from a handler\<close>

definition backend_db :: "'t MferBackend \<Rightarrow> OverlayStateDB option" where
  "backend_db b = StateDB (b_EVM b)"

text \<open>The machine and its own state database after a call that worked on that database.\<close>

definition store_db :: "'t MferEVM \<Rightarrow> OverlayStateDB \<Rightarrow> 't MferBackend \<Rightarrow> 't MferBackend" where
  "store_db a db b = b\<lparr>b_EVM := a\<lparr>StateDB := Some db\<rparr>\<rparr>"

text \<open>Finding a transaction of the pool together with the transactions before it.\<close>

definition split_pool ::
  "'t geth \<Rightarrow> hash \<Rightarrow> MferTxPool \<Rightarrow> (Transaction list \<times> Transaction) option" where
  "split_pool X txHash pool = (case first_tx (te_hash (g_tx X)) txHash 0 (fst (GetPoolTxs pool)) of
     None \<Rightarrow> None
   | Some (i, tx) \<Rightarrow> Some (take i (fst (GetPoolTxs pool)), tx))"

definition not_found :: "hash \<Rightarrow> string" where
  "not_found h = ''tx '' @ ''0x'' @ Bytes2Hex (Hash_Bytes h) @ '' not found''"

text \<open>
  \<^verbatim>\<open>make\<close> for a slice of 8-byte elements panics when the slice would not fit into the 48 bits of
  address space.
\<close>

definition make_ok :: "nat \<Rightarrow> bool" where
  "make_ok n \<longleftrightarrow> n * 8 \<le> 2 ^ 48"

end
