(* ===== verification/RpcApi.thy ===== *)
theory RpcApi
  imports Backend "HOL-Library.Sublist"
begin

text \<open>
  \<^verbatim>\<open>mferbackend/rpcapi.go\<close>: the \<^verbatim>\<open>eth\<close>, \<^verbatim>\<open>net\<close> and \<^verbatim>\<open>wallet\<close> services. Names that other theories use
  carry the prefix \<open>Eth_\<close> or \<open>Aux_\<close>.
\<close>

section \<open>Services\<close>

datatype service = EthAPI | AuxAPI | DebugAPI | MferActionAPI | ProbeAPI

definition GetEthAPIs :: "(string \<times> service) list" where
  "GetEthAPIs = [(''eth'', EthAPI), (''net'', AuxAPI), (''wallet'', AuxAPI), (''debug'', DebugAPI),
     (''mfer'', MferActionAPI), (''probe'', ProbeAPI)]"

definition Aux_Version :: "'t MferBackend \<Rightarrow> string" where
  "Aux_Version b = (let c = EVM_ChainID (b_EVM b) in (if c < 0 then ''-'' else []) @ fmt_d (nat \<bar>c\<bar>))"

definition Aux_Listening :: "'t MferBackend \<Rightarrow> bool" where
  "Aux_Listening b = True"

record ChainIDArgs =
  cia_ChainID :: "int option"

definition SwitchEthereumChain :: "ChainIDArgs \<Rightarrow> 't MferBackend \<Rightarrow> 't MferBackend" where
  "SwitchEthereumChain args b = b"

definition Eth_Accounts :: "env \<Rightarrow> 't MferBackend \<Rightarrow> address list" where
  "Eth_Accounts E b = Accounts E b"

definition Eth_RequestAccounts :: "env \<Rightarrow> 't MferBackend \<Rightarrow> address list" where
  "Eth_RequestAccounts E b = Accounts E b"

section \<open>Arguments\<close>

text \<open>
  \<^verbatim>\<open>bytes.ReplaceAll\<close> for a pattern that is not empty: the leftmost occurrences that do not overlap.
\<close>

function ReplaceAll :: "bytes \<Rightarrow> bytes \<Rightarrow> bytes \<Rightarrow> bytes" where
  "ReplaceAll s old new =
     (if s = [] \<or> old = [] then s
      else if take (length old) s = old then new @ ReplaceAll (drop (length old) s) old new
      else hd s # ReplaceAll (tl s) old new)"
  by pat_completeness auto
termination
  by (relation "measure (\<lambda>(s, old, new). length s)") auto

declare ReplaceAll.simps [simp del]

definition preprocessArgs :: "env \<Rightarrow> 't MferBackend \<Rightarrow> TransactionArgs \<Rightarrow> TransactionArgs" where
  "preprocessArgs E b args =
     (if \<not> b_Randomized b then args
      else let args = (if arg_From args = Some (FAKE_ACCOUNT_RAND E)
                       then args\<lparr>arg_From := Some (b_ImpersonatedAccount b)\<rparr> else args)
        in case arg_Data args of
             None \<Rightarrow> args
           | Some calldata \<Rightarrow> args\<lparr>arg_Data := Some (ReplaceAll calldata
               (Address_Bytes (FAKE_ACCOUNT_RAND E)) (Address_Bytes (b_ImpersonatedAccount b)))\<rparr>)"

definition toCallArg :: "TransactionArgs \<Rightarrow> (string, json) gomap" where
  "toCallArg msg =
     (let arg = [(''from'', JOptAddress (arg_From msg)), (''to'', JOptAddress (arg_To msg))];
          arg = (case arg_Data msg of
                   Some d \<Rightarrow> if d \<noteq> [] then AList.update ''data'' (JBytes d) arg else arg
                 | None \<Rightarrow> arg);
          arg = (case arg_Value msg of Some v \<Rightarrow> AList.update ''value'' (JBig v) arg | None \<Rightarrow> arg);
          arg = (case arg_Gas msg of
                   Some g \<Rightarrow> if g \<noteq> 0 then AList.update ''gas'' (JUint64 g) arg else arg
                 | None \<Rightarrow> arg)
      in case arg_GasPrice msg of Some p \<Rightarrow> AList.update ''gasPrice'' (JBig p) arg | None \<Rightarrow> arg)"

section \<open>Calls\<close>

definition CallPassthrough ::
  "env \<Rightarrow> 't geth \<Rightarrow> 't MferBackend \<Rightarrow> TransactionArgs \<Rightarrow> StateOverride option \<Rightarrow> world \<Rightarrow>
   ((api_error + bytes) \<times> 't MferBackend \<times> world) option" where
  "CallPassthrough E X b args0 overrides w = do {
     let args = preprocessArgs E b args0;
     db \<leftarrow> backend_db b;
     (diff, w1) \<leftarrow> GetStateDiff E db w;
     let stateOverride = (case overrides of Some ov \<Rightarrow> ov | None \<Rightarrow> diff);
     stateBN \<leftarrow> StateBlockNumber db w1;
     let (res, w2) = ask (\<lambda>t. n_eth_call X t (toCallArg args) ''latest'' stateOverride) w1;
     Some (case res of Inl err \<Rightarrow> Inl (Err err) | Inr hex \<Rightarrow> Inr hex, b, w2)
   }"

text \<open>
  \<^verbatim>\<open>CallLocal\<close> at a block number other than -1 (latest) overwrites the machine's block context; the
  overrides are not used.
\<close>

definition call_context ::
  "'t geth \<Rightarrow> int option \<Rightarrow> 't MferEVM \<Rightarrow> world \<Rightarrow> ('t MferEVM \<times> world) option" where
  "call_context X number a w = (case number of
     None \<Rightarrow> Some (a, w)
   | Some n \<Rightarrow>
       (if n = -1 then Some (a, w)
        else (case GetBlockHeader X (''0x'' @ fmt_x n) w of
                (None, w1) \<Rightarrow> Some (a, w1)
              | (Some header, w1) \<Rightarrow> SetVMContextByBlockHeader (Some header) a w1)))"

definition call_result :: "'t geth \<Rightarrow> ExecutionResult \<Rightarrow> bytes \<times> api_error option" where
  "call_result X result =
     (if er_Revert result \<noteq> [] then ([], Some (Reverted (newRevertError (g_UnpackRevert X) result)))
      else (er_Return result, map_option Failed (er_Err result)))"

definition CallLocal ::
  "env \<Rightarrow> 't geth \<Rightarrow> 't MferBackend \<Rightarrow> TransactionArgs \<Rightarrow> int option \<Rightarrow> StateOverride option \<Rightarrow> world \<Rightarrow>
   ((bytes \<times> api_error option) \<times> 't MferBackend \<times> world) option" where
  "CallLocal E X b args0 number overrides w =
     (case ToMessage (preprocessArgs E b args0) 0 None of
        Inl err \<Rightarrow> Some (([], Some (Err err)), b, w)
      | Inr msg \<Rightarrow> do {
          db \<leftarrow> backend_db b;
          let (stateDB, w1) = Clone E db w;
          (a1, w2) \<leftarrow> call_context X number (b_EVM b) w1;
          (res, a2, stateDB2, w3) \<leftarrow> DoCall E X a1 msg False stateDB w2;
          Some (case res of Inl err \<Rightarrow> ([], Some (Err err)) | Inr result \<Rightarrow> call_result X result,
                b\<lparr>b_EVM := a2\<rparr>, w3)
        })"

definition Eth_Call ::
  "env \<Rightarrow> 't geth \<Rightarrow> 't MferBackend \<Rightarrow> TransactionArgs \<Rightarrow> int option \<Rightarrow> StateOverride option \<Rightarrow> world \<Rightarrow>
   ((bytes \<times> api_error option) \<times> 't MferBackend \<times> world) option" where
  "Eth_Call E X b args number overrides w =
     (if b_Passthrough b then do {
        (res, b1, w1) \<leftarrow> CallPassthrough E X b args None w;
        Some (case res of Inl err \<Rightarrow> ([], Some err) | Inr hex \<Rightarrow> (hex, None), b1, w1)
      } else CallLocal E X b args number overrides w)"

definition EstimateGas ::
  "env \<Rightarrow> 't geth \<Rightarrow> 't MferBackend \<Rightarrow> TransactionArgs \<Rightarrow> world \<Rightarrow>
   ((u64 \<times> api_error option) \<times> 't MferBackend \<times> world) option" where
  "EstimateGas E X b args0 w = do {
     let args1 = preprocessArgs E b args0;
     let from = (case arg_From args1 of Some a \<Rightarrow> a | None \<Rightarrow> 0);
     let args2 = args1\<lparr>arg_GasPrice := None\<rparr>;
     db \<leftarrow> backend_db b;
     (nonce, w1) \<leftarrow> GetNonce E db from w;
     (case ToMessage (args2\<lparr>arg_Nonce := Some nonce\<rparr>) 0 None of
        Inl err \<Rightarrow> Some ((0, Some (Err err)), b, w1)
      | Inr msg \<Rightarrow> do {
          let a1 = SetTracer (Keccak NewKeccakTracer) (b_EVM b);
          let (stateDB, w2) = Clone E db w1;
          (res, a2, stateDB2, w3) \<leftarrow> DoCall E X a1 msg True stateDB w2;
          let a3 = (case tracer a2 of Keccak t \<Rightarrow> SetTracer (Keccak (Keccak_Reset t)) a2 | _ \<Rightarrow> a2);
          Some (case res of
                  Inl err \<Rightarrow> (0, Some (Err err))
                | Inr result \<Rightarrow>
                    (er_UsedGas result * 2,
                     if er_Revert result \<noteq> [] then Some (Reverted (newRevertError (g_UnpackRevert X) result)) else None),
                b\<lparr>b_EVM := a3\<rparr>, w3)
        })
   }"

section \<open>Reading the state\<close>

definition state_missing :: api_error where
  "state_missing = Err ''mfer state not found''"

definition Eth_GetBalance :: "env \<Rightarrow> 't MferBackend \<Rightarrow> address \<Rightarrow> world \<Rightarrow> ((api_error + int) \<times> world) option" where
  "Eth_GetBalance E b address w = (case backend_db b of
     None \<Rightarrow> Some (Inl state_missing, w)
   | Some db \<Rightarrow> do { (v, w1) \<leftarrow> GetBalance E db address w; Some (Inr v, w1) })"

definition Eth_GetCode :: "env \<Rightarrow> 't MferBackend \<Rightarrow> address \<Rightarrow> world \<Rightarrow> ((api_error + bytes) \<times> world) option" where
  "Eth_GetCode E b address w = (case backend_db b of
     None \<Rightarrow> Some (Inl state_missing, w)
   | Some db \<Rightarrow> do { (v, w1) \<leftarrow> GetCode E db address w; Some (Inr v, w1) })"

definition Eth_GetTransactionCount :: "env \<Rightarrow> 't MferBackend \<Rightarrow> address \<Rightarrow> world \<Rightarrow> (u64 \<times> world) option" where
  "Eth_GetTransactionCount E b address w = do { db \<leftarrow> backend_db b; GetNonce E db address w }"

definition Eth_GasPrice :: int where
  "Eth_GasPrice = 5000000000"

definition Eth_ChainId :: "'t MferBackend \<Rightarrow> int" where
  "Eth_ChainId b = (case b_OverrideChainID b of Some c \<Rightarrow> c | None \<Rightarrow> EVM_ChainID (b_EVM b))"

definition Eth_BlockNumber :: "'t geth \<Rightarrow> world \<Rightarrow> u64 \<times> world" where
  "Eth_BlockNumber X w = (case ask (n_BlockNumber X) w of
     (Inl err, w1) \<Rightarrow> (0, w1)
   | (Inr n, w1) \<Rightarrow> (n + 1, w1))"

section \<open>Transactions\<close>

definition send_sender :: "'t MferBackend \<Rightarrow> TransactionArgs \<Rightarrow> address" where
  "send_sender b args = (case arg_From args of
     Some a \<Rightarrow> if a \<noteq> 0 then a else b_ImpersonatedAccount b
   | None \<Rightarrow> b_ImpersonatedAccount b)"

definition execute_one ::
  "env \<Rightarrow> 't geth \<Rightarrow> 't MferBackend \<Rightarrow> Transaction \<Rightarrow> world \<Rightarrow> (hash \<times> 't MferBackend \<times> world) option" where
  "execute_one E X b tx w = do {
     db \<leftarrow> backend_db b;
     (res, a1, db1, w1) \<leftarrow> ExecuteTxs E X (b_EVM b) [tx] db None w;
     res0 \<leftarrow> go_index res 0;
     let b1 = store_db a1 db1 b;
     Some (te_hash (g_tx X) tx, b1\<lparr>b_TxPool := AddTx tx res0 (b_TxPool b1)\<rparr>, w1)
   }"

definition SendTransaction ::
  "env \<Rightarrow> 't geth \<Rightarrow> 't MferBackend \<Rightarrow> TransactionArgs \<Rightarrow> world \<Rightarrow> (hash \<times> 't MferBackend \<times> world) option" where
  "SendTransaction E X b args0 w = do {
     let args1 = preprocessArgs E b args0;
     let from = send_sender b args1;
     let args2 = args1\<lparr>arg_GasPrice := Some 0, arg_MaxFeePerGas := None, arg_MaxPriorityFeePerGas := None\<rparr>;
     let args3 = (if arg_Gas args2 = None
                  then args2\<lparr>arg_Gas := Some (bc_GasLimit (GetVMContext (b_EVM b)) div 3)\<rparr> else args2);
     db \<leftarrow> backend_db b;
     (nonce, w1) \<leftarrow> GetNonce E db from w;
     let signer = NewSigner (big_Int64 (EVM_ChainID (b_EVM b)));
     tx0 \<leftarrow> ToTransaction (args3\<lparr>arg_Nonce := Some nonce\<rparr>);
     tx \<leftarrow> (case WithSignature (g_setSignature X) signer (Address_Bytes from) tx0 of
              Inl err \<Rightarrow> None | Inr tx \<Rightarrow> Some tx);
     execute_one E X b tx w1
   }"

definition SendRawTransaction ::
  "env \<Rightarrow> 't geth \<Rightarrow> 't MferBackend \<Rightarrow> bytes \<Rightarrow> world \<Rightarrow> ((api_error + hash) \<times> 't MferBackend \<times> world) option" where
  "SendRawTransaction E X b input w = (case g_UnmarshalBinary X input of
     Inl err \<Rightarrow> Some (Inl (Err err), b, w)
   | Inr tx \<Rightarrow> do { (h, b1, w1) \<leftarrow> execute_one E X b tx w; Some (Inr h, b1, w1) })"

definition tx_not_found :: "hash \<Rightarrow> string \<Rightarrow> api_error" where
  "tx_not_found h what = Err (''tx: 0x'' @ Bytes2Hex (Hash_Bytes h) @ what @ '' not found'')"

definition Eth_GetTransactionByHash ::
  "env \<Rightarrow> 't geth \<Rightarrow> 't MferBackend \<Rightarrow> hash \<Rightarrow> world \<Rightarrow> (api_error + RPCTransaction) \<times> world" where
  "Eth_GetTransactionByHash E X b h w =
     (case GetTransactionByHash (te_hash (g_tx X)) h (b_TxPool b) of
        (_, None) \<Rightarrow> (Inl (tx_not_found h []), w)
      | (index, Some tx) \<Rightarrow>
          (let (bn, w1) = Eth_BlockNumber X w;
               rpcTx = newRPCTransaction (g_tx X) tx (blockHash E) bn (word_of_int index) None;
               msg = EVM_TxToMessage X (b_EVM b) tx
           in (Inr (rpcTx\<lparr>rt_From := msg_From msg\<rparr>), w1)))"

definition receipt_fields :: "env \<Rightarrow> (string, json) gomap \<Rightarrow> Receipt \<Rightarrow> (string, json) gomap" where
  "receipt_fields E obj receipt =
     (let obj = (if rcpt_PostState receipt \<noteq> [] then AList.update ''root'' (JBytes (rcpt_PostState receipt)) obj
                    else obj);
          obj = AList.update ''status'' (JNat (rcpt_Status receipt)) obj
      in if rcpt_ContractAddress receipt \<noteq> 0
         then AList.update ''contractAddress'' (JAddress (rcpt_ContractAddress receipt)) obj else obj)"

text \<open>\<^verbatim>\<open>ExecuteMsg\<close> never sets the bloom filter of a receipt: it is 256 zero bytes.\<close>

definition no_bloom :: json where
  "no_bloom = JBytes (replicate 256 0)"

definition Eth_GetTransactionReceipt ::
  "env \<Rightarrow> 't geth \<Rightarrow> 't MferBackend \<Rightarrow> hash \<Rightarrow> world \<Rightarrow>
   ((api_error + (string, json) gomap) \<times> world) option" where
  "Eth_GetTransactionReceipt E X b h w =
     (case GetTransactionByHash (te_hash (g_tx X)) h (b_TxPool b) of
        (_, None) \<Rightarrow> Some (Inl (tx_not_found h []), w)
      | (index, Some tx) \<Rightarrow> do {
          db \<leftarrow> backend_db b;
          (found, w0) \<leftarrow> GetReceipt db h w;
          (case found of
             None \<Rightarrow> Some (Inl (tx_not_found h '' receipt''), w0)
           | Some receipt \<Rightarrow>
               (let (bn, w1) = Eth_BlockNumber X w0 in
                Some (Inr (receipt_fields E
                  [(''blockHash'', JHash (blockHash E)), (''blockNumber'', JUint64 bn), (''transactionHash'', JHash h),
                   (''transactionIndex'', JUint64 (word_of_int index)), (''from'', JAddress (b_ImpersonatedAccount b)),
                   (''to'', JOptAddress (tx_To tx)), (''gasUsed'', JUint64 (rcpt_GasUsed receipt)),
                   (''cumulativeGasUsed'', JUint64 (rcpt_CumulativeGasUsed receipt)), (''contractAddress'', JNull),
                   (''logs'', JLogs (rcpt_Logs receipt)), (''logsBloom'', no_bloom),
                   (''type'', JNat (tx_Type tx))] receipt), w1)))
        })"

section \<open>Blocks\<close>

definition LatestBlockNumber :: int where "LatestBlockNumber = -1"
definition PendingBlockNumber :: int where "PendingBlockNumber = -2"

text \<open>
  The \<^verbatim>\<open>latest\<close> block is the upstream node's with the number raised by one, the time by ten seconds
  and the transactions replaced by the pool's.
\<close>

definition pool_block :: "MferTxPool \<Rightarrow> Block \<Rightarrow> Block" where
  "pool_block pool prevBlock =
     (let prevHeader = blk_Header prevBlock in
      \<lparr>blk_Header = prevHeader\<lparr>hd_Number := hd_Number prevHeader + 1, hd_Time := hd_Time prevHeader + 10\<rparr>,
       blk_Transactions = fst (GetPoolTxs pool), blk_Uncles = []\<rparr>)"

definition dress_block :: "(string, json) gomap \<Rightarrow> (string, json) gomap" where
  "dress_block response = AList.update ''totalDifficulty'' (JString ''0xcafebabe3fe75afe'')
     (AList.update ''miner'' (JAddress 0xaaaaaaaaaaaaaaaaaaaaaaaaaaaaaaaaaaaaaaaa) response)"

definition GetBlockByNumber ::
  "'t geth \<Rightarrow> 't MferBackend \<Rightarrow> int \<Rightarrow> bool \<Rightarrow> world \<Rightarrow>
   ((api_error + (string, json) gomap option) \<times> world) option" where
  "GetBlockByNumber X b number fullTx w =
     (if number = LatestBlockNumber then
        (case ask (\<lambda>t. n_BlockByNumber X t None) w of
           (Inl err, w1) \<Rightarrow> Some (Inl (Err err), w1)
         | (Inr prevBlock, w1) \<Rightarrow>
             (case RPCMarshalBlock (g_tx X) (g_hdr X) (pool_block (b_TxPool b) prevBlock) True False of
                Inl err \<Rightarrow> Some (Inl (Err err), w1)
              | Inr response \<Rightarrow> Some (Inr (Some (dress_block (AList.update ''hash''
                  (JHash 0xcafecafecafecafecafecafecafecafecafecafecafecafecafecafecafecafe) response))), w1)))
      else if number = PendingBlockNumber then Some (Inr None, w)
      else (case ask (\<lambda>t. n_BlockByNumber X t (Some number)) w of
              (Inl err, w1) \<Rightarrow> Some (Inl (Err err), w1)
            | (Inr block, w1) \<Rightarrow>
                (case RPCMarshalBlock (g_tx X) (g_hdr X) block True False of
                   Inl err \<Rightarrow> None
                 | Inr response \<Rightarrow> Some (Inr (Some (dress_block response)), w1))))"

definition GetBlockByHash ::
  "'t geth \<Rightarrow> 't MferBackend \<Rightarrow> hash \<Rightarrow> bool \<Rightarrow> world \<Rightarrow>
   ((api_error + (string, json) gomap option) \<times> world) option" where
  "GetBlockByHash X b h fullTx w = (case ask (\<lambda>t. n_BlockByHash X t h) w of
     (Inr block, w1) \<Rightarrow>
       Some (case RPCMarshalBlock (g_tx X) (g_hdr X) block True fullTx of
               Inl err \<Rightarrow> Inl (Err err) | Inr obj \<Rightarrow> Inr (Some obj), w1)
   | (Inl err, w1) \<Rightarrow> GetBlockByNumber X b LatestBlockNumber fullTx w1)"

section \<open>Fees and logs\<close>

record feeHistoryResult =
  fh_OldestBlock :: int
  fh_GasUsedRatio :: "nat list"

text \<open>The ratios are as many zeros as blocks were asked for.\<close>

definition FeeHistory :: "'t geth \<Rightarrow> u64 \<Rightarrow> world \<Rightarrow> (feeHistoryResult \<times> world) option" where
  "FeeHistory X blockCount w =
     (let (bn, w1) = Eth_BlockNumber X w;
          bn = (if blockCount < bn then bn - blockCount else bn)
      in if \<not> make_ok (unat blockCount) then None
         else Some (\<lparr>fh_OldestBlock = sint bn, fh_GasUsedRatio = replicate (unat blockCount) 0\<rparr>, w1))"

fun pool_logs :: "'t geth \<Rightarrow> OverlayStateDB \<Rightarrow> Transaction list \<Rightarrow> world \<Rightarrow> Log list option" where
  "pool_logs X db [] w = Some []"
| "pool_logs X db (tx # rest) w = do {
     logItems \<leftarrow> GetLogs db (te_hash (g_tx X) tx) w;
     logs \<leftarrow> pool_logs X db rest w;
     Some (logItems @ logs)
   }"

definition Eth_GetLogs ::
  "env \<Rightarrow> 't geth \<Rightarrow> 't MferBackend \<Rightarrow> FilterCriteria \<Rightarrow> world \<Rightarrow> ((api_error + Log list) \<times> world) option" where
  "Eth_GetLogs E X b crit w =
     (if fc_BlockHash crit = Some (keccak256 E (str_bytes ''pseudoblockhash'')) then
        (if fst (GetPoolTxs (b_TxPool b)) = [] then Some (Inr [], w)
         else do {
           db \<leftarrow> backend_db b;
           logs \<leftarrow> pool_logs X db (fst (GetPoolTxs (b_TxPool b))) w;
           Some (Inr logs, w)
         })
      else (case ask (\<lambda>t. n_FilterLogs X t crit) w of
              (Inl err, w1) \<Rightarrow> Some (Inl (Err err), w1)
            | (Inr logs, w1) \<Rightarrow> Some (Inr logs, w1)))"

section \<open>Replacing the address\<close>

text \<open>Pieces with a separator between them.\<close>

fun joined :: "'a list \<Rightarrow> 'a list list \<Rightarrow> 'a list" where
  "joined sep [] = []"
| "joined sep [p] = p"
| "joined sep (p # ps) = p @ sep @ joined sep ps"

lemma joined_Cons: "ps \<noteq> [] \<Longrightarrow> joined sep (p # ps) = p @ sep @ joined sep ps"
  by (cases ps) simp_all

lemma joined_length: "length sep = length sep' \<Longrightarrow> length (joined sep ps) = length (joined sep' ps)"
  by (induction sep ps rule: joined.induct) simp_all

lemma joined_first: "joined sep ((x # p) # ps) = x # joined sep (p # ps)"
  by (cases ps) simp_all

text \<open>
  The pieces of a list between the leftmost occurrences of a pattern that do not overlap: no piece
  contains the pattern, and none does with the beginning of the next occurrence.
\<close>

definition leftmost_pieces :: "'a list \<Rightarrow> 'a list \<Rightarrow> 'a list list \<Rightarrow> bool" where
  "leftmost_pieces old s ps \<longleftrightarrow> ps \<noteq> [] \<and> s = joined old ps \<and>
     (\<forall>p\<in>set ps. \<not> sublist old p) \<and> (\<forall>p\<in>set (butlast ps). \<not> sublist old (p @ butlast old))"

lemma ReplaceAll_pieces:
  assumes "old \<noteq> []"
  shows "\<exists>ps. leftmost_pieces old s ps \<and> ReplaceAll s old new = joined new ps"
  unfolding leftmost_pieces_def
proof (induction s rule: length_induct)
  case (1 s)
  show ?case
  proof (cases "s = []")
    case True
    then show ?thesis using assms by (intro exI [of _ "[[]]"]) (simp add: ReplaceAll.simps)
  next
    case False
    show ?thesis
    proof (cases "take (length old) s = old")
      case True
      obtain ps where ps: "ps \<noteq> []" "drop (length old) s = joined old ps" "ReplaceAll (drop (length old) s) old new = joined new ps"
        "\<forall>p\<in>set ps. \<not> sublist old p" "\<forall>p\<in>set (butlast ps). \<not> sublist old (p @ butlast old)"
        using 1 [rule_format, of "drop (length old) s"] False assms by auto
      have "ReplaceAll s old new = new @ joined new ps"
        using True False assms ps(3) by (subst ReplaceAll.simps) simp
      moreover have "s = old @ joined old ps" using append_take_drop_id [of "length old" s] True ps(2) by simp
      moreover have "\<not> sublist old (butlast old)"
        using sublist_length_le [of old "butlast old"] assms by (cases old) auto
      ultimately show ?thesis using ps(1,4,5) assms by (intro exI [of _ "[] # ps"]) (simp add: joined_Cons)
    next
      case noprefix: False
      obtain x xs where s: "s = x # xs" using False by (cases s) auto
      obtain ps where ps: "ps \<noteq> []" "xs = joined old ps" "ReplaceAll xs old new = joined new ps"
        "\<forall>p\<in>set ps. \<not> sublist old p" "\<forall>p\<in>set (butlast ps). \<not> sublist old (p @ butlast old)"
        using 1 [rule_format, of xs] s by auto
      obtain p qs where pq: "ps = p # qs" using ps(1) by (cases ps) auto
      have j: "s = joined old ((x # p) # qs)" by (simp add: s ps(2) pq joined_first)
      have no: "\<not> prefix old s" using noprefix by (metis append_eq_conv_conj prefix_def)
      have "prefix (x # p) s" unfolding j by (cases qs) simp_all
      then have "\<not> prefix old (x # p)" using no prefix_order.trans by blast
      moreover have "\<not> prefix old (x # p @ butlast old)" if "qs \<noteq> []"
      proof
        assume "prefix old (x # p @ butlast old)"
        moreover have "prefix (x # p @ butlast old) s"
          unfolding j joined_Cons [OF that] prefix_def using append_butlast_last_id [OF assms] by (metis append.assoc append_Cons)
        ultimately show False using no prefix_order.trans by blast
      qed
      moreover have "ReplaceAll s old new = joined new ((x # p) # qs)"
        using noprefix assms ps(3) by (subst ReplaceAll.simps) (simp add: s pq joined_first)
      ultimately show ?thesis using ps(4,5) j
        by (intro exI [of _ "(x # p) # qs"]) (auto simp: pq sublist_Cons_right split: if_splits)
    qed
  qed
qed

text \<open>C35.
  When the node hides the impersonated account behind a random address, arguments that mention the
  random address come to mention the impersonated account instead, and nothing else changes: the
  sender is replaced when it is the random address, the call data is cut at the leftmost occurrences
  of the 20 bytes of the random address, which do not overlap, and put together again with the
  bytes of the impersonated account, so its length stays. When the node does not hide the account, the arguments
  stay as they are.
\<close>

theorem random_address_replaced:
  "if b_Randomized b
   then (\<exists>data. preprocessArgs E b args = args\<lparr>arg_From := (if arg_From args = Some (FAKE_ACCOUNT_RAND E)
             then Some (b_ImpersonatedAccount b) else arg_From args), arg_Data := data\<rparr> \<and>
          (case arg_Data args of None \<Rightarrow> data = None
           | Some bs \<Rightarrow> \<exists>ps. leftmost_pieces (Address_Bytes (FAKE_ACCOUNT_RAND E)) bs ps \<and>
               data = Some (joined (Address_Bytes (b_ImpersonatedAccount b)) ps) \<and>
               length (joined (Address_Bytes (b_ImpersonatedAccount b)) ps) = length bs))
   else preprocessArgs E b args = args"
proof (cases "b_Randomized b")
  case True
  let ?rnd = "Address_Bytes (FAKE_ACCOUNT_RAND E)" and ?acc = "Address_Bytes (b_ImpersonatedAccount b)"
  show ?thesis
  proof (cases "arg_Data args")
    case None
    with True show ?thesis by (auto simp: preprocessArgs_def Let_def)
  next
    case (Some bs)
    have "?rnd \<noteq> []" by (metis length_Address_Bytes length_0_conv zero_neq_numeral)
    from ReplaceAll_pieces [OF this, of bs ?acc] obtain ps where
      ps: "leftmost_pieces ?rnd bs ps" "ReplaceAll bs ?rnd ?acc = joined ?acc ps" by blast
    have "length (joined ?acc ps) = length bs"
      using ps(1) joined_length [of ?acc ?rnd ps] by (simp add: leftmost_pieces_def)
    with ps Some True show ?thesis
      by (intro if_P [THEN iffD2] exI [of _ "Some (joined ?acc ps)"]) (auto simp: preprocessArgs_def Let_def)
  qed
qed (simp add: preprocessArgs_def)

end
