(* ===== verification/ActionApi.thy ===== *)
theory ActionApi
  imports RpcApi
begin

text \<open>
  \<^verbatim>\<open>mferbackend/mferactionapi.go\<close>: the \<^verbatim>\<open>mfer\<close> service, which resets the state, re-executes the pool,
  simulates a Safe transaction and traces blocks and bundles.
\<close>

section \<open>Resetting\<close>

definition ClearKeyCache :: "env \<Rightarrow> 't MferBackend \<Rightarrow> world \<Rightarrow> ('t MferBackend \<times> world) option" where
  "ClearKeyCache E b w = do {
     db \<leftarrow> backend_db b;
     (db1, w1) \<leftarrow> InitState E db True True w;
     Some (store_db (b_EVM b) db1 b, w1)
   }"

definition ResetState :: "env \<Rightarrow> 't geth \<Rightarrow> 't MferBackend \<Rightarrow> world \<Rightarrow> ('t MferBackend \<times> world) option" where
  "ResetState E X b w = do {
     (err, a1, w1) \<leftarrow> Prepare E X (b_EVM b) w;
     Some (b\<lparr>b_EVM := a1\<rparr>, w1)
   }"

definition ClearTxPool :: "env \<Rightarrow> 't MferBackend \<Rightarrow> world \<Rightarrow> ('t MferBackend \<times> world) option" where
  "ClearTxPool E b w = do {
     let b1 = b\<lparr>b_TxPool := snd (TxPool.Reset (b_TxPool b))\<rparr>;
     (a1, w1) \<leftarrow> ResetToRoot E (b_EVM b1) w;
     Some (b1\<lparr>b_EVM := a1\<rparr>, w1)
   }"

definition ReExecTxPool :: "env \<Rightarrow> 't geth \<Rightarrow> 't MferBackend \<Rightarrow> world \<Rightarrow> ('t MferBackend \<times> world) option" where
  "ReExecTxPool E X b w = do {
     (err, a1, w1) \<leftarrow> Prepare E X (b_EVM b) w;
     let transactions = fst (GetPoolTxs (b_TxPool b));
     db \<leftarrow> StateDB a1;
     (execResults, a2, db1, w2) \<leftarrow> ExecuteTxs E X a1 transactions db None w1;
     let b1 = store_db a2 db1 b;
     Some (b1\<lparr>b_TxPool := SetResults execResults (b_TxPool b1)\<rparr>, w2)
   }"

section \<open>Settings\<close>

definition Action_SetTimeDelta :: "u64 \<Rightarrow> 't MferBackend \<Rightarrow> 't MferBackend" where
  "Action_SetTimeDelta delta b = b\<lparr>b_EVM := SetTimeDelta delta (b_EVM b)\<rparr>"

definition Action_GetTimeDelta :: "'t MferBackend \<Rightarrow> u64" where
  "Action_GetTimeDelta b = GetTimeDelta (b_EVM b)"

definition OverrideChainID :: "u64 \<Rightarrow> 't MferBackend \<Rightarrow> 't MferBackend" where
  "OverrideChainID i b = b\<lparr>b_OverrideChainID := (if i = 0 then None else Some (uint i))\<rparr>"

definition Impersonate :: "address \<Rightarrow> 't MferBackend \<Rightarrow> 't MferBackend" where
  "Impersonate account b = b\<lparr>b_ImpersonatedAccount := account\<rparr>"

definition Action_ImpersonatedAccount :: "'t MferBackend \<Rightarrow> address" where
  "Action_ImpersonatedAccount b = b_ImpersonatedAccount b"

definition Action_SetBatchSize :: "int \<Rightarrow> 't MferBackend \<Rightarrow> world \<Rightarrow> world option" where
  "Action_SetBatchSize n b w = do { db \<leftarrow> backend_db b; SetBatchSize db n w }"

definition Action_SetBlockNumberDelta :: "u64 \<Rightarrow> 't MferBackend \<Rightarrow> 't MferBackend" where
  "Action_SetBlockNumberDelta delta b = b\<lparr>b_EVM := SetBlockNumberDelta delta (b_EVM b)\<rparr>"

definition Action_GetBlockNumberDelta :: "'t MferBackend \<Rightarrow> u64" where
  "Action_GetBlockNumberDelta b = GetBlockNumberDelta (b_EVM b)"

definition ToggleRandAddr :: "bool \<Rightarrow> 't MferBackend \<Rightarrow> 't MferBackend" where
  "ToggleRandAddr enable b = b\<lparr>b_Randomized := enable\<rparr>"

definition RandAddrEnabled :: "'t MferBackend \<Rightarrow> bool" where
  "RandAddrEnabled b = b_Randomized b"

definition TogglePassthrough :: "bool \<Rightarrow> 't MferBackend \<Rightarrow> 't MferBackend" where
  "TogglePassthrough enable b = b\<lparr>b_Passthrough := enable\<rparr>"

definition PassthroughEnabled :: "'t MferBackend \<Rightarrow> bool" where
  "PassthroughEnabled b = b_Passthrough b"

definition Action_GetStateDiff :: "env \<Rightarrow> 't MferBackend \<Rightarrow> world \<Rightarrow> (StateOverride \<times> world) option" where
  "Action_GetStateDiff E b w = do { db \<leftarrow> backend_db b; GetStateDiff E db w }"

text \<open>\<^verbatim>\<open>PrintMoney\<close> sends the transaction to the node itself; its result and error are dropped.\<close>

definition PrintMoney ::
  "env \<Rightarrow> 't geth \<Rightarrow> 't MferBackend \<Rightarrow> address \<Rightarrow> world \<Rightarrow> ('t MferBackend \<times> world) option" where
  "PrintMoney E X b account w = do {
     (h, b1, w1) \<leftarrow> SendTransaction E X b
       (no_args\<lparr>arg_From := Some (FAKE_ACCOUNT_RICH E), arg_To := Some account,
                arg_Value := Some (10 ^ 18 * 1000)\<rparr>) w;
     Some (b1, w1)
   }"

section \<open>The pool as a list\<close>

record TxData =
  td_Idx :: nat
  td_From :: address
  td_To :: address
  td_Data :: bytes
  td_ExecResult :: string
  td_PseudoTxHash :: hash

definition to_or_zero :: "Transaction \<Rightarrow> address" where
  "to_or_zero tx = (case tx_To tx of None \<Rightarrow> 0 | Some a \<Rightarrow> a)"

fun tx_data :: "'t geth \<Rightarrow> 't MferEVM \<Rightarrow> nat \<Rightarrow> Transaction list \<Rightarrow> string option list \<Rightarrow> TxData list option" where
  "tx_data X a i [] results = Some []"
| "tx_data X a i (tx # rest) results = do {
     execResult \<leftarrow> go_index results (int i);
     let d = \<lparr>td_Idx = i, td_From = msg_From (EVM_TxToMessage X a tx), td_To = to_or_zero tx, td_Data = tx_Data tx,
              td_ExecResult = (case execResult of Some e \<Rightarrow> e | None \<Rightarrow> []),
              td_PseudoTxHash = te_hash (g_tx X) tx\<rparr>;
     ds \<leftarrow> tx_data X a (Suc i) rest results;
     Some (d # ds)
   }"

definition GetTxs :: "'t geth \<Rightarrow> 't MferBackend \<Rightarrow> TxData list option" where
  "GetTxs X b = (let (transactions, execResult) = GetPoolTxs (b_TxPool b)
                 in tx_data X (b_EVM b) 0 transactions execResult)"

section \<open>Simulating a Safe transaction\<close>

record MultiSendData =
  md_TxData :: "TxData list"
  md_MultiSendCallData :: bytes
  md_MultiSendTxDataHash :: hash
  md_ApproveHashCallData :: bytes
  md_To :: address
  md_SafeNonce :: int
  md_ExecResult :: ExecutionResult
  md_RevertError :: string
  md_EventLogs :: "Log list"
  md_DebugTrace :: bytes

text \<open>The owners are asked for over \<^verbatim>\<open>SelfConn\<close>, the node's connection to itself.\<close>

definition getSafeOwnersAndThreshold ::
  "'t geth \<Rightarrow> address \<Rightarrow> world \<Rightarrow> ((string + address list \<times> int) \<times> world) option" where
  "getSafeOwnersAndThreshold X safeAddr w = (case NewGnosisSafe (g_SelfBind X) safeAddr of
     Inl err \<Rightarrow> Some (Inl err, w)
   | Inr safe \<Rightarrow> do {
       (threshold, w1) \<leftarrow> GnosisSafe_GetThreshold (g_SelfBind X) (GnosisSafeCaller safe) None w;
       (case threshold of
          Inl err \<Rightarrow> Some (Inl err, w1)
        | Inr n \<Rightarrow> do {
            (owners, w2) \<leftarrow> GnosisSafe_GetOwners (g_SelfBind X) (GnosisSafeCaller safe) None w1;
            (case owners of
               Inl err \<Rightarrow> Some (Inl err, w2)
             | Inr os \<Rightarrow> Some (Inr (os, sint (big_Int64 n)), w2))
          })
     })"

definition GetSafeOwnersAndThreshold ::
  "'t geth \<Rightarrow> 't MferBackend \<Rightarrow> world \<Rightarrow> ((string + address list \<times> int) \<times> world) option" where
  "GetSafeOwnersAndThreshold X b w = getSafeOwnersAndThreshold X (b_ImpersonatedAccount b) w"

definition legacy_tx :: "u64 \<Rightarrow> address \<Rightarrow> u64 \<Rightarrow> int \<Rightarrow> bytes \<Rightarrow> Transaction" where
  "legacy_tx nonce to gas price data =
     \<lparr>tx_Type = 0, tx_ChainID = 0, tx_Nonce = nonce, tx_GasPrice = price, tx_GasTipCap = price,
      tx_GasFeeCap = price, tx_Gas = gas, tx_To = Some to, tx_Value = 0, tx_Data = data,
      tx_AccessList = [], tx_V = 0, tx_R = 0, tx_S = 0\<rparr>"

text \<open>The loop that lets every owner approve the hash; it collects the owners' nonces.\<close>

fun approve_loop ::
  "env \<Rightarrow> 't geth \<Rightarrow> address \<Rightarrow> SetFromSigner \<Rightarrow> hash \<Rightarrow> address list \<Rightarrow> u64 list \<Rightarrow> 't MferEVM \<Rightarrow>
   OverlayStateDB \<Rightarrow> world \<Rightarrow> ((string + u64 list) \<times> 't MferEVM \<times> OverlayStateDB \<times> world) option" where
  "approve_loop E X safe signer h [] nonces a db w = Some (Inr nonces, a, db, w)"
| "approve_loop E X safe signer h (safeOwner # owners) nonces a db w =
     (case ask (\<lambda>t. n_NonceAt X t safeOwner) w of
        (Inl err, w1) \<Rightarrow> Some (Inl err, a, db, w1)
      | (Inr nonce, w1) \<Rightarrow> do {
          w2 \<leftarrow> AddBalance E db safeOwner (10 ^ 18) w1;
          let calldata = Hex2Bytes ''d4d9bdcd'' @ Hash_Bytes h;
          tx \<leftarrow> (case WithSignature (g_setSignature X) signer (Address_Bytes safeOwner)
                        (legacy_tx nonce safe 100000 5000000000 calldata) of
                   Inl err \<Rightarrow> None | Inr tx \<Rightarrow> Some tx);
          (res, a1, db1, w3) \<leftarrow> ExecuteTxs E X a [tx] db None w2;
          approve_loop E X safe signer h owners (nonces @ [nonce]) a1 db1 w3
        })"

definition safe_tx_data :: "Transaction list \<Rightarrow> TxData list" where
  "safe_tx_data transactions = map (\<lambda>(i, tx). \<lparr>td_Idx = i, td_From = 0, td_To = to_or_zero tx,
     td_Data = tx_Data tx, td_ExecResult = [], td_PseudoTxHash = 0\<rparr>) (enumerate 0 transactions)"

text \<open>
  The call of the Safe on the simulation database, under a tracer. A failed call leaves a nil
  result, whose \<^verbatim>\<open>Revert\<close> is then asked for.
\<close>

definition simulate_call ::
  "env \<Rightarrow> 't geth \<Rightarrow> 't MferBackend \<Rightarrow> address \<Rightarrow> u64 \<Rightarrow> bytes \<Rightarrow> hash \<Rightarrow> int \<Rightarrow> 't MferEVM \<Rightarrow> OverlayStateDB \<Rightarrow> world \<Rightarrow>
   ((api_error + MultiSendData) \<times> 't MferBackend \<times> world) option" where
  "simulate_call E X b owner0 nonce0 safeTx h nonce a1 db1 w2 = do {
     let safe = b_ImpersonatedAccount b;
     let msg = \<lparr>msg_From = owner0, msg_To = Some safe, msg_Nonce = nonce0, msg_Value = 0,
                msg_Gas = 5000000, msg_GasPrice = 5000000000, msg_GasFeeCap = 0, msg_GasTipCap = 0,
                msg_Data = safeTx, msg_AccessList = [], msg_IsFake = True\<rparr>;
     t \<leftarrow> (case g_NewTracer X ''callTracer'' \<lparr>tx_BlockHash = 0, tx_TxHash = 0, tx_TxIndex = 0\<rparr> None of
             Inl err \<Rightarrow> None | Inr t \<Rightarrow> Some t);
     let a2 = SetTracer (External t) a1;
     let txHash = keccak256 E (str_bytes ''psuedoTransaction'');
     let w3 = StartLogCollection db1 txHash (keccak256 E (str_bytes ''blockhash'')) w2;
     (res, a3, db2, w4) \<leftarrow> DoCall E X a2 msg True db1 w3;
     (case res of
        Inl err \<Rightarrow> None
      | Inr result \<Rightarrow> do {
          t' \<leftarrow> (case tracer a3 of External t' \<Rightarrow> Some t' | _ \<Rightarrow> None);
          let (traceResult, traceErr) = g_GetResult X t';
          (case traceErr of
             Some err \<Rightarrow> Some (Inl (Err err), b\<lparr>b_EVM := a3\<rparr>, w4)
           | None \<Rightarrow> do {
               logs \<leftarrow> GetLogs db2 txHash w4;
               Some (Inr \<lparr>md_TxData = safe_tx_data (fst (GetPoolTxs (b_TxPool b))),
                 md_MultiSendCallData = safeTx, md_MultiSendTxDataHash = h,
                 md_ApproveHashCallData = [0xd4, 0xd9, 0xbd, 0xcd] @ Hash_Bytes h, md_To = safe,
                 md_SafeNonce = nonce, md_ExecResult = result,
                 md_RevertError = (if er_Revert result \<noteq> []
                   then re_error (newRevertError (g_UnpackRevert X) result) else []),
                 md_EventLogs = logs, md_DebugTrace = traceResult\<rparr>, b\<lparr>b_EVM := a3\<rparr>, w4)
             })
        })
   }"

text \<open>On a database of its own: the approvals, then the call.\<close>

definition simulate_exec ::
  "env \<Rightarrow> 't geth \<Rightarrow> 't MferBackend \<Rightarrow> address list \<Rightarrow> bytes \<Rightarrow> hash \<Rightarrow> int \<Rightarrow> world \<Rightarrow>
   ((api_error + MultiSendData) \<times> 't MferBackend \<times> world) option" where
  "simulate_exec E X b safeOwners safeTx h nonce w = do {
     db \<leftarrow> backend_db b;
     (simulationStateDB, w1) \<leftarrow> CloneFromRoot E db w;
     (nonces, a1, db1, w2) \<leftarrow> approve_loop E X (b_ImpersonatedAccount b)
        (NewSigner (big_Int64 (EVM_ChainID (b_EVM b)))) h safeOwners [] (b_EVM b) simulationStateDB w1;
     (case nonces of
        Inl err \<Rightarrow> Some (Inl (Err err), b\<lparr>b_EVM := a1\<rparr>, w2)
      | Inr safeOwnersNonce \<Rightarrow> do {
          owner0 \<leftarrow> go_index safeOwners 0;
          nonce0 \<leftarrow> go_index safeOwnersNonce 0;
          simulate_call E X b owner0 nonce0 safeTx h nonce a1 db1 w2
        })
   }"

text \<open>The owners that sign: those of the request, or the first of the Safe's owners when it names none.\<close>

definition participants ::
  "'t geth \<Rightarrow> address \<Rightarrow> address list \<Rightarrow> world \<Rightarrow> ((string + address list) \<times> world) option" where
  "participants X safeAddr safeOwners w =
     (if safeOwners = [] then do {
        (info, w1) \<leftarrow> getSafeOwnersAndThreshold X safeAddr w;
        (case info of
           Inl err \<Rightarrow> Some (Inl err, w1)
         | Inr (owners, threshold) \<Rightarrow> do { os \<leftarrow> go_slice owners 0 threshold; Some (Inr os, w1) })
      } else Some (Inr safeOwners, w))"

definition SimulateSafeExec ::
  "env \<Rightarrow> 't geth \<Rightarrow> 't MferBackend \<Rightarrow> address list \<Rightarrow> world \<Rightarrow>
   ((api_error + MultiSendData) \<times> 't MferBackend \<times> world) option" where
  "SimulateSafeExec E X b safeOwners0 w = do {
     let safeAddr = b_ImpersonatedAccount b;
     calldata \<leftarrow> BuildTransactions (g_Bind X) (fst (GetPoolTxs (b_TxPool b)));
     ms' \<leftarrow> NewMultisendSafe (g_Bind X) safeAddr MultiSendCallOnlyContractAddress calldata 0;
     (case ms' of
        Inl err \<Rightarrow> Some (Inl (Err err), b, w)
      | Inr ms \<Rightarrow> do {
          (nonce', w1) \<leftarrow> MS_GetNonce (g_Bind X) ms w;
          (case nonce' of
             Inl err \<Rightarrow> Some (Inl (Err err), b, w1)
           | Inr nonce \<Rightarrow> do {
               (hash', w2) \<leftarrow> GetTxDataHash E (g_Bind X) ms (big_Int64 nonce) w1;
               (case hash' of
                  Inl err \<Rightarrow> Some (Inl (Err err), b, w2)
                | Inr txDataHash \<Rightarrow> do {
                    (owners, w3) \<leftarrow> participants X safeAddr safeOwners0 w2;
                    (case owners of
                       Inl err \<Rightarrow> Some (Inl (Err err), b, w3)
                     | Inr safeOwners \<Rightarrow> (case GenSafeCalldataWithApproveHash (g_Bind X) ms safeOwners of
                         (Inl err, _) \<Rightarrow> Some (Inl (Err err), b, w3)
                       | (Inr safeTx, sorted_owners) \<Rightarrow>
                           simulate_exec E X b sorted_owners safeTx txDataHash (sint (big_Int64 nonce)) w3))
                  })
             })
        })
   }"

section \<open>Tracing blocks\<close>

text \<open>
  The trace of a transaction is the data of the last log of its receipt, which \<^verbatim>\<open>ExecuteMsg\<close> adds;
  a transaction without a receipt has none.
\<close>

fun tx_traces ::
  "'t geth \<Rightarrow> OverlayStateDB \<Rightarrow> Transaction list \<Rightarrow> world \<Rightarrow> (bytes option list \<times> world) option" where
  "tx_traces X db [] w = Some ([], w)"
| "tx_traces X db (tx # rest) w = do {
     (receipt, w1) \<leftarrow> GetReceipt db (te_hash (g_tx X) tx) w;
     let trace = (case receipt of
                    Some r \<Rightarrow> if rcpt_Logs r \<noteq> [] then Some (log_Data (last (rcpt_Logs r))) else None
                  | None \<Rightarrow> None);
     (results, w2) \<leftarrow> tx_traces X db rest w1;
     Some (trace # results, w2)
   }"

fun block_loop ::
  "env \<Rightarrow> 't geth \<Rightarrow> TraceConfig option \<Rightarrow> Block list \<Rightarrow> 't MferEVM \<Rightarrow> OverlayStateDB \<Rightarrow> world \<Rightarrow>
   (bytes option list list \<times> 't MferEVM \<times> OverlayStateDB \<times> world) option" where
  "block_loop E X config [] a db w = Some ([], a, db, w)"
| "block_loop E X config (block # blocks) a db w = do {
     let transactions = blk_Transactions block;
     (a1, w1) \<leftarrow> SetVMContextByBlockHeader (Some (blk_Header block)) a w;
     (execResults, a2, db1, w2) \<leftarrow> ExecuteTxs E X (AddGasPool a1) transactions db config w1;
     (results, w3) \<leftarrow> tx_traces X db1 transactions w2;
     (more, a3, db2, w4) \<leftarrow> block_loop E X config blocks a2 db1 w3;
     Some (results # more, a3, db2, w4)
   }"

definition traceBlocks ::
  "env \<Rightarrow> 't geth \<Rightarrow> 't MferBackend \<Rightarrow> Block list \<Rightarrow> TraceConfig option \<Rightarrow> world \<Rightarrow>
   ((api_error + bytes option list list) \<times> 't MferBackend \<times> world) option" where
  "traceBlocks E X b blocks config w = (case blocks of
     [] \<Rightarrow> Some (Inl (Err ''no blocks supplied''), b, w)
   | block0 # _ \<Rightarrow> do {
       let stateBN = big_Uint64 (hd_Number (blk_Header block0)) - 1;
       (err, a1, w1) \<leftarrow> Prepare E X (b_EVM b) w;
       let (header, w2) = GetBlockHeader X (''0x'' @ fmt_x (uint stateBN)) w1;
       (a2, w3) \<leftarrow> SetVMContextByBlockHeader header a1 w2;
       let w4 = SetBlockNumber stateBN w3;
       db \<leftarrow> StateDB a2;
       (db1, w5) \<leftarrow> InitState E db True False w4;
       let b1 = store_db a2 db1 b;
       (stateDB, w6) \<leftarrow> CloneFromRoot E db1 w5;
       (results, a3, stateDB1, w7) \<leftarrow> block_loop E X config blocks (b_EVM b1) stateDB w6;
       cacheSize \<leftarrow> CacheSize stateDB1 w7;
       Some (Inr results, b1\<lparr>b_EVM := a3\<rparr>, w7)
     })"

definition TraceBlockByNumber ::
  "env \<Rightarrow> 't geth \<Rightarrow> 't MferBackend \<Rightarrow> int \<Rightarrow> TraceConfig option \<Rightarrow> world \<Rightarrow>
   ((api_error + bytes option list) \<times> 't MferBackend \<times> world) option" where
  "TraceBlockByNumber E X b number config w =
     (case ask (\<lambda>t. n_BlockByNumber X t (if number = -1 then None else Some number)) w of
        (Inl err, w1) \<Rightarrow> Some (Inl (Err err), b, w1)
      | (Inr blk, w1) \<Rightarrow> do {
          (res, b1, w2) \<leftarrow> traceBlocks E X b [blk] config w1;
          (case res of
             Inl err \<Rightarrow> None
           | Inr results \<Rightarrow> do { r \<leftarrow> go_index results 0; Some (Inr r, b1, w2) })
        })"

fun fetch_blocks :: "'t geth \<Rightarrow> nat \<Rightarrow> 64 word \<Rightarrow> world \<Rightarrow> (string + Block list) \<times> world" where
  "fetch_blocks X 0 n w = (Inr [], w)"
| "fetch_blocks X (Suc k) n w = (case ask (\<lambda>t. n_BlockByNumber X t (Some (sint n))) w of
     (Inl err, w1) \<Rightarrow> (Inl err, w1)
   | (Inr blk, w1) \<Rightarrow> (case fetch_blocks X k (n + 1) w1 of
       (Inl err, w2) \<Rightarrow> (Inl err, w2)
     | (Inr blks, w2) \<Rightarrow> (Inr (blk # blks), w2)))"

text \<open>
  The number -1 leaves a nil pointer that is then read; a range that ends before it starts makes
  the count negative, and \<^verbatim>\<open>make\<close> panics.
\<close>

definition TraceBlockByNumberRange ::
  "env \<Rightarrow> 't geth \<Rightarrow> 't MferBackend \<Rightarrow> 64 word \<Rightarrow> 64 word \<Rightarrow> TraceConfig option \<Rightarrow> world \<Rightarrow>
   ((api_error + bytes option list list) \<times> 't MferBackend \<times> world) option" where
  "TraceBlockByNumberRange E X b numberFrom numberTo config w =
     (let blockCnt = sint (numberTo - numberFrom + 1) in
      if numberFrom = -1 \<or> numberTo = -1 then None
      else if blockCnt < 0 \<or> \<not> make_ok (nat blockCnt) then None
      else (case fetch_blocks X (nat blockCnt) numberFrom w of
              (Inl err, w1) \<Rightarrow> Some (Inl (Err err), b, w1)
            | (Inr blks, w1) \<Rightarrow> traceBlocks E X b blks config w1))"

section \<open>Bundles\<close>

record TransactionBundleResult =
  tb_Transactions :: "RPCTransaction option list"
  tb_TransactionReceipts :: "(string, json) gomap option list"
  tb_StateDiff :: StateOverride
  tb_LastTxHash :: hash

definition buildRPCReceipt ::
  "env \<Rightarrow> 't geth \<Rightarrow> 't MferEVM \<Rightarrow> Transaction \<Rightarrow> Receipt \<Rightarrow> world \<Rightarrow> (string, json) gomap" where
  "buildRPCReceipt E X a tx receipt w = receipt_fields E
     [(''blockHash'', JHash (blockHash E)),
      (''blockNumber'', JUint64 (big_Uint64 (bigs w ! bc_BlockNumber (GetVMContext a)))),
      (''transactionHash'', JHash (te_hash (g_tx X) tx)),
      (''transactionIndex'', JUint64 (word_of_nat (rcpt_TransactionIndex receipt))),
      (''to'', JOptAddress (tx_To tx)), (''gasUsed'', JUint64 (rcpt_GasUsed receipt)),
      (''cumulativeGasUsed'', JUint64 (rcpt_CumulativeGasUsed receipt)), (''contractAddress'', JNull),
      (''logs'', JLogs (rcpt_Logs receipt)), (''logsBloom'', no_bloom), (''type'', JNat 0)] receipt"

text \<open>What the loop makes of one message: its prices are dropped and the nonce is looked up.\<close>

definition bundle_args :: "TransactionArgs \<Rightarrow> u64 \<Rightarrow> TransactionArgs" where
  "bundle_args msgArg nonce = msgArg\<lparr>arg_MaxFeePerGas := None, arg_MaxPriorityFeePerGas := None,
     arg_GasPrice := None, arg_Nonce := Some nonce,
     arg_Gas := (case arg_Gas msgArg of
                   None \<Rightarrow> Some 10000000
                 | Some g \<Rightarrow> if g = 0 then Some 10000000 else Some g)\<rparr>"

type_synonym bundle_item = "RPCTransaction option \<times> (string, json) gomap option"

fun bundle_loop ::
  "env \<Rightarrow> 't geth \<Rightarrow> nat \<Rightarrow> TransactionArgs option list \<Rightarrow> hash \<Rightarrow> 't MferEVM \<Rightarrow> OverlayStateDB \<Rightarrow> world \<Rightarrow>
   ((string + bundle_item list \<times> hash) \<times> 't MferEVM \<times> OverlayStateDB \<times> world) option" where
  "bundle_loop E X i [] lastTxHash a db w = Some (Inr ([], lastTxHash), a, db, w)"
| "bundle_loop E X i (m # msgArgs) lastTxHash a db w = do {
     msgArg \<leftarrow> m;
     (case arg_From msgArg of
        None \<Rightarrow> Some (Inl ''missing required field 'from' for transaction'', a, db, w)
      | Some from \<Rightarrow> do {
          (nonce, w1) \<leftarrow> GetNonce E db from w;
          tx0 \<leftarrow> ToTransaction (bundle_args msgArg nonce);
          (case WithSignature (g_setSignature X) (NewSigner (big_Int64 (EVM_ChainID a))) (Address_Bytes from) tx0 of
             Inl err \<Rightarrow> do {
               (res, a1, db1, w2) \<leftarrow> bundle_loop E X (Suc i) msgArgs lastTxHash a db w1;
               Some (map_sum id (\<lambda>(items, h). ((None, None) # items, h)) res, a1, db1, w2)
             }
           | Inr tx \<Rightarrow> do {
               let txHash = te_hash (g_tx X) tx;
               (r, a1, db1, w2) \<leftarrow> ExecuteMsg E X a db (EVM_TxToMessage X a tx) txHash i None w1;
               (receipt, w3) \<leftarrow> GetReceipt db1 txHash w2;
               (case receipt of
                  None \<Rightarrow> Some (Inl (''missing receipt for tx 0x'' @ Bytes2Hex (Hash_Bytes txHash)), a1, db1, w3)
                | Some receiptItem \<Rightarrow> do {
                    let rpcTx = newRPCTransaction (g_tx X) tx (rcpt_BlockHash receiptItem)
                                  (big_Uint64 (bigs w3 ! rcpt_BlockNumber receiptItem))
                                  (word_of_nat (rcpt_TransactionIndex receiptItem)) None;
                    let item = (Some (rpcTx\<lparr>rt_From := from\<rparr>),
                                Some (AList.update ''from'' (JAddress from) (buildRPCReceipt E X a1 tx receiptItem w3)));
                    (res, a2, db2, w4) \<leftarrow> bundle_loop E X (Suc i) msgArgs txHash a1 db1 w3;
                    Some (map_sum id (\<lambda>(items, h). (item # items, h)) res, a2, db2, w4)
                  })
             })
        })
   }"

definition TraceTransactionBundle ::
  "env \<Rightarrow> 't geth \<Rightarrow> 't MferBackend \<Rightarrow> TransactionArgs option list \<Rightarrow> world \<Rightarrow>
   ((api_error + TransactionBundleResult) \<times> 't MferBackend \<times> world) option" where
  "TraceTransactionBundle E X b msgArgs w = do {
     db \<leftarrow> backend_db b;
     (stateDB, w1) \<leftarrow> CloneFromRoot E db w;
     (res, a1, stateDB1, w2) \<leftarrow> bundle_loop E X 0 msgArgs 0 (AddGasPool (b_EVM b)) stateDB w1;
     (case res of
        Inl err \<Rightarrow> Some (Inl (Err err), b\<lparr>b_EVM := a1\<rparr>, w2)
      | Inr (items, lastTxHash) \<Rightarrow> do {
          (stateDiff, w3) \<leftarrow> GetStateDiff E stateDB1 w2;
          Some (Inr \<lparr>tb_Transactions = map fst items, tb_TransactionReceipts = map snd items,
                     tb_StateDiff = stateDiff, tb_LastTxHash = lastTxHash\<rparr>, b\<lparr>b_EVM := a1\<rparr>, w3)
        })
   }"

end
