(* ===== verification/DebugApi.thy ===== *)
theory DebugApi
  imports Backend
begin

text \<open>
  \<^verbatim>\<open>mferbackend/debugapi.go\<close>: the \<^verbatim>\<open>debug\<close> service, which replays a transaction of the pool under a
  tracer, and the JSON form of the struct logger's entries.
\<close>

section \<open>Formatting the entries\<close>

record StructLogRes =
  slr_Pc :: u64
  slr_Op :: string
  slr_Gas :: u64
  slr_GasCost :: u64
  slr_Depth :: int
  slr_Error :: string
  slr_Stack :: "string list option"
  slr_Memory :: "string list option"
  slr_Storage :: "(string, string) gomap option"

text \<open>The loop over the memory in steps of 32 bytes; an incomplete word at the end is left out.\<close>

function memory_loop :: "nat \<Rightarrow> bytes \<Rightarrow> string list" where
  "memory_loop i mem =
     (if i + 32 \<le> length mem then Bytes2Hex (take 32 (drop i mem)) # memory_loop (i + 32) mem else [])"
  by pat_completeness auto
termination
  by (relation "measure (\<lambda>(i, mem). length mem - i)") auto

declare memory_loop.simps [simp del]

definition format_storage :: "(hash, hash) gomap \<Rightarrow> (string, string) gomap" where
  "format_storage m = fold (\<lambda>(k, v) acc. AList.update (Bytes2Hex (Hash_Bytes k)) (Bytes2Hex (Hash_Bytes v)) acc) m []"

definition format_log :: "StructLog \<Rightarrow> StructLogRes" where
  "format_log trace =
     \<lparr>slr_Pc = sl_Pc trace, slr_Op = sl_Op trace, slr_Gas = sl_Gas trace, slr_GasCost = sl_GasCost trace,
      slr_Depth = sl_Depth trace, slr_Error = sl_Error trace,
      slr_Stack = map_option (map (\<lambda>v. ''0x'' @ fmt_x (uint v))) (sl_Stack trace),
      slr_Memory = map_option (memory_loop 0) (sl_Memory trace),
      slr_Storage = map_option format_storage (sl_Storage trace)\<rparr>"

definition FormatLogs :: "StructLog list \<Rightarrow> StructLogRes list" where
  "FormatLogs logs = map format_log logs"

section \<open>Replaying one transaction\<close>

record DebugResult =
  dr_Gas :: u64
  dr_Failed :: bool
  dr_ReturnValue :: string
  dr_StructLogs :: "StructLogRes list"

datatype trace_result = TraceLogs DebugResult | TraceRaw bytes

text \<open>
  The tracer of \<^verbatim>\<open>TraceTransaction\<close>: unlike \<^verbatim>\<open>ExecuteMsg\<close> it takes the struct logger when there is no
  configuration.
\<close>

definition debug_tracer :: "'t geth \<Rightarrow> TraceContext \<Rightarrow> TraceConfig option \<Rightarrow> (string + 't) option" where
  "debug_tracer X txctx config = (case config of
     None \<Rightarrow> Some (Inr (g_NewStructLogger X None))
   | Some cfg \<Rightarrow> (case tc_Tracer cfg of
       Some name \<Rightarrow> Some (named_tracer X txctx cfg name)
     | None \<Rightarrow> (case log_config cfg of
         None \<Rightarrow> None
       | Some c \<Rightarrow> Some (Inr (g_NewStructLogger X (Some c))))))"

definition debug_result :: "'t geth \<Rightarrow> ExecutionResult \<Rightarrow> 't \<Rightarrow> api_error + trace_result" where
  "debug_result X result t = (case g_StructLogs X t of
     Some logs \<Rightarrow> Inr (TraceLogs \<lparr>dr_Gas = er_UsedGas result, dr_Failed = er_Failed result,
       dr_ReturnValue = (if er_Revert result \<noteq> [] then Bytes2Hex (er_Revert result)
                         else Bytes2Hex (er_Return result)),
       dr_StructLogs = FormatLogs logs\<rparr>)
   | None \<Rightarrow> (case g_GetResult X t of
       (raw, Some err) \<Rightarrow> Inl (Err err)
     | (raw, None) \<Rightarrow> Inr (TraceRaw raw)))"

text \<open>
  The state just before a transaction of the pool: a fresh database on the root with the funded
  accounts, on which the transactions before it are executed.
\<close>

definition replay_before ::
  "env \<Rightarrow> 't geth \<Rightarrow> 't MferBackend \<Rightarrow> Transaction list \<Rightarrow> world \<Rightarrow> ('t MferEVM \<times> OverlayStateDB \<times> world) option" where
  "replay_before E X b before w = do {
     db \<leftarrow> backend_db b;
     (stateDB, w1) \<leftarrow> CloneFromRoot E db w;
     w2 \<leftarrow> InitFakeAccounts E stateDB w1;
     (res, a1, stateDB1, w3) \<leftarrow> ExecuteTxs E X (b_EVM b) before stateDB None w2;
     Some (a1, stateDB1, w3)
   }"

definition TraceTransaction ::
  "env \<Rightarrow> 't geth \<Rightarrow> 't MferBackend \<Rightarrow> hash \<Rightarrow> TraceConfig option \<Rightarrow> world \<Rightarrow>
   ((api_error + trace_result) \<times> 't MferBackend \<times> world) option" where
  "TraceTransaction E X b txHash config w = (case split_pool X txHash (b_TxPool b) of
     None \<Rightarrow> Some (Inl (Err (not_found txHash)), b, w)
   | Some (before, tx) \<Rightarrow> do {
       let (h, w1) = GetBlockHeader X ''latest'' w;
       header \<leftarrow> h;
       t \<leftarrow> debug_tracer X \<lparr>tx_BlockHash = hd_ParentHash header, tx_TxHash = te_hash (g_tx X) tx,
                              tx_TxIndex = int (length before)\<rparr> config;
       (case t of
          Inl err \<Rightarrow> Some (Inl (Err err), b, w1)
        | Inr trc \<Rightarrow> do {
            (a1, stateDB, w2) \<leftarrow> replay_before E X b before w1;
            let a2 = SetTracer (External trc) a1;
            (res, a3, stateDB1, w3) \<leftarrow> DoCall E X a2 (EVM_TxToMessage X a2 tx) True stateDB w2;
            let b1 = b\<lparr>b_EVM := a3\<rparr>;
            (case res of
               Inl err \<Rightarrow> Some (Inl (Err err), b1, w3)
             | Inr result \<Rightarrow> do {
                 trc' \<leftarrow> (case tracer a3 of External t' \<Rightarrow> Some t' | _ \<Rightarrow> None);
                 Some (debug_result X result trc', b1, w3)
               })
          })
     })"

definition Preimage :: "hash \<Rightarrow> api_error + bytes" where
  "Preimage h = Inl (Err ''unknown preimage'')"

section \<open>Storage after the pool\<close>

text \<open>What a JSON value for \<^verbatim>\<open>txIdxOrHash\<close> is decoded into; any other type passes the switch.\<close>

datatype tx_ref = TxIdx int | TxHash hash | OtherRef

record storageEntry =
  se_Key :: hash
  se_Value :: hash

record StorageRangeResult =
  srr_Storage :: "(hash, storageEntry) gomap"
  srr_NextKey :: "hash option"

definition ref_found :: "'t geth \<Rightarrow> tx_ref \<Rightarrow> Transaction list \<Rightarrow> string option" where
  "ref_found X r transactions = (case r of
     TxIdx i \<Rightarrow> (if i \<ge> int (length transactions)
       then Some (''tx['' @ (if i < 0 then ''-'' else []) @ fmt_d (nat \<bar>i\<bar>) @ ''] not found'') else None)
   | TxHash h \<Rightarrow> (if h \<in> set (map (te_hash (g_tx X)) transactions) then None
       else Some (''tx[0x'' @ Bytes2Hex (Hash_Bytes h) @ ''] not found''))
   | OtherRef \<Rightarrow> None)"

fun touch_loop ::
  "env \<Rightarrow> 't geth \<Rightarrow> Transaction list \<Rightarrow> 't MferEVM \<Rightarrow> OverlayStateDB \<Rightarrow> world \<Rightarrow>
   ('t MferEVM \<times> OverlayStateDB \<times> world) option" where
  "touch_loop E X [] a db w = Some (a, db, w)"
| "touch_loop E X (tx # rest) a db w = do {
     (res, a1, db1, w1) \<leftarrow> DoCall E X a (EVM_TxToMessage X a tx) True db w;
     (execRes, a2, db2, w2) \<leftarrow> ExecuteTxs E X a1 [tx] db1 None w1;
     touch_loop E X rest a2 db2 w2
   }"

fun read_slots ::
  "env \<Rightarrow> OverlayStateDB \<Rightarrow> address \<Rightarrow> hash list \<Rightarrow> world \<Rightarrow> ((hash \<times> hash) list \<times> world) option" where
  "read_slots E db contract [] w = Some ([], w)"
| "read_slots E db contract (key # keys) w = do {
     (val, w1) \<leftarrow> GetState E db contract key w;
     (more, w2) \<leftarrow> read_slots E db contract keys w1;
     Some ((key, val) # more, w2)
   }"

text \<open>
  Every entry's \<^verbatim>\<open>Key\<close> is the address of the one loop variable (Go 1.17), so that when the result is
  encoded all of them show the key the loop ended with.
\<close>

definition StorageRangeAt ::
  "env \<Rightarrow> 't geth \<Rightarrow> 't MferBackend \<Rightarrow> tx_ref \<Rightarrow> address \<Rightarrow> world \<Rightarrow>
   ((api_error + StorageRangeResult) \<times> 't MferBackend \<times> world) option" where
  "StorageRangeAt E X b r contractAddress w =
     (let transactions = fst (GetPoolTxs (b_TxPool b)) in
      case ref_found X r transactions of
        Some err \<Rightarrow> Some (Inl (Err err), b, w)
      | None \<Rightarrow> do {
          db \<leftarrow> backend_db b;
          (stateDB, w1) \<leftarrow> CloneFromRoot E db w;
          w2 \<leftarrow> InitFakeAccounts E stateDB w1;
          (a1, stateDB1, w3) \<leftarrow> touch_loop E X transactions (SetTracer (StateT NewStateTracer) (b_EVM b)) stateDB w2;
          touchedState \<leftarrow> (case tracer a1 of StateT t \<Rightarrow> Some (State_GetResult t) | _ \<Rightarrow> None);
          let keys = map fst (case map_of touchedState contractAddress of Some m \<Rightarrow> m | None \<Rightarrow> []);
          (slots, w4) \<leftarrow> read_slots E stateDB1 contractAddress keys w3;
          Some (Inr \<lparr>srr_Storage = map (\<lambda>(k, v). (k, \<lparr>se_Key = last keys, se_Value = v\<rparr>)) slots,
                     srr_NextKey = None\<rparr>, b\<lparr>b_EVM := a1\<rparr>, w4)
        })"

section \<open>Formatted entries can be read back\<close>

lemma memory_loop_step:
  "i + 32 \<le> length mem \<Longrightarrow> memory_loop i mem = Bytes2Hex (take 32 (drop i mem)) # memory_loop (i + 32) mem"
  "\<not> i + 32 \<le> length mem \<Longrightarrow> memory_loop i mem = []"
  by (subst memory_loop.simps, simp)+

lemma memory_loop_parts:
  "concat (map Hex2Bytes (memory_loop i mem)) = take (32 * ((length mem - i) div 32)) (drop i mem)"
proof (induction i mem rule: memory_loop.induct)
  case (1 i mem)
  show ?case
  proof (cases "i + 32 \<le> length mem")
    case True
    then have d: "(length mem - i) div 32 = Suc ((length mem - (i + 32)) div 32)"
      by (metis Nat.le_diff_conv2 add.commute add_leD1 diff_diff_left le_div_geq zero_less_numeral)
    have "take (32 * Suc k) xs = take 32 xs @ take (32 * k) (drop 32 xs)" for k and xs :: "8 word list"
      using take_add [of 32 "32 * k" xs] by simp
    with True 1 show ?thesis by (simp add: memory_loop_step(1) d add.commute)
  qed (simp add: memory_loop_step(2))
qed

lemma map_of_format_storage:
  assumes "gomap_wf m"
  shows "map_of (format_storage m) (Bytes2Hex (Hash_Bytes k)) = map_option (Bytes2Hex \<circ> Hash_Bytes) (map_of m k)"
proof -
  let ?h = "Bytes2Hex \<circ> Hash_Bytes"
  have inj: "?h x = ?h y \<longleftrightarrow> x = y" for x y
    by (metis Hex2Bytes_Bytes2Hex BytesToHash_Hash_Bytes comp_apply)
  have "map_of (fold (\<lambda>(k, v) acc. AList.update (?h k) (?h v) acc) m acc) (?h k) =
      (case map_of m k of Some v \<Rightarrow> Some (?h v) | None \<Rightarrow> map_of acc (?h k))" for acc
    using assms
  proof (induction m arbitrary: acc)
    case (Cons p m)
    obtain x v where p: "p = (x, v)" by fastforce
    from Cons.prems have wf: "gomap_wf m" and "map_of m x = None" by (auto simp: gomap_wf_def p map_of_eq_None_iff)
    with Cons.IH [OF wf] show ?case using inj [unfolded comp_apply] by (auto simp: p split: option.split)
  qed simp
  from this [of "[]"] show ?thesis by (simp add: format_storage_def split: option.split)
qed


text \<open>What a reader of a formatted entry can recover of the entry.\<close>

definition reads_back :: "StructLog \<Rightarrow> StructLogRes \<Rightarrow> bool" where
  "reads_back l r \<longleftrightarrow>
     (slr_Pc r, slr_Op r, slr_Gas r, slr_GasCost r, slr_Depth r, slr_Error r) =
       (sl_Pc l, sl_Op l, sl_Gas l, sl_GasCost l, sl_Depth l, sl_Error l) \<and>
     map_option (map (\<lambda>s. word_of_nat (digits_val 16 (drop 2 s)))) (slr_Stack r) = sl_Stack l \<and>
     map_option (concat \<circ> map Hex2Bytes) (slr_Memory r) = map_option (\<lambda>m. take (32 * (length m div 32)) m) (sl_Memory l) \<and>
     rel_option (\<lambda>f m. \<forall>k. map_of f (Bytes2Hex (Hash_Bytes k)) = map_option (Bytes2Hex \<circ> Hash_Bytes) (map_of m k))
       (slr_Storage r) (sl_Storage l)"

text \<open>C40.
  Formatting the struct logger's entries loses nothing: there is one formatted entry per entry, in
  order, from which the scalars, the stack, all complete 32-byte words of the memory and every
  storage slot can be read back; what was absent is absent.
\<close>

theorem formatted_logs_read_back:
  assumes "\<forall>l\<in>set logs. \<forall>m. sl_Storage l = Some m \<longrightarrow> gomap_wf m"
  shows "list_all2 reads_back logs (FormatLogs logs)"
proof -
  have "reads_back l (format_log l)" if "l \<in> set logs" for l
  proof -
    have "digits_val 16 (fmt_x (uint v)) = unat v" for v :: hash
      by (simp add: fmt_x_def digits_val_digits_of)
    moreover have "rel_option (\<lambda>f m. \<forall>k. map_of f (Bytes2Hex (Hash_Bytes k)) = map_option (Bytes2Hex \<circ> Hash_Bytes) (map_of m k))
        (map_option format_storage (sl_Storage l)) (sl_Storage l)"
      using assms that map_of_format_storage by (cases "sl_Storage l") auto
    ultimately show ?thesis
      by (simp add: reads_back_def format_log_def option.map_comp comp_def memory_loop_parts option.map_ident)
  qed
  then show ?thesis by (simp add: FormatLogs_def list.rel_map list_all2_same)
qed

theorem formatted_logs_read_back_witness:
  "let l = \<lparr>sl_Pc = 3, sl_Op = ''SLOAD'', sl_Gas = 9, sl_GasCost = 2, sl_Depth = 1, sl_Error = [], sl_Stack = Some [0xff],
      sl_Memory = Some (replicate 32 7), sl_Storage = Some [(1, 2)]\<rparr>
   in (\<forall>m. sl_Storage l = Some m \<longrightarrow> gomap_wf m) \<and> list_all2 reads_back [l] (FormatLogs [l])"
  using formatted_logs_read_back [of "[\<lparr>sl_Pc = 3, sl_Op = ''SLOAD'', sl_Gas = 9, sl_GasCost = 2, sl_Depth = 1, sl_Error = [],
      sl_Stack = Some [0xff], sl_Memory = Some (replicate 32 7), sl_Storage = Some [(1, 2)]\<rparr>]"]
  by (simp add: gomap_wf_def)

end
