(* ===== verification/ProbeApi.thy ===== *)
theory ProbeApi
  imports DebugApi
begin

text \<open>
  \<^verbatim>\<open>mferbackend/probeapi.go\<close>: the \<^verbatim>\<open>probe\<close> service runs a transaction of the pool twice, the second
  time in a later block with other difficulty and gas limit, and returns what each run read, wrote
  and hashed.
\<close>

section \<open>The probe\<close>

definition probe_run ::
  "env \<Rightarrow> 't geth \<Rightarrow> BlockContext \<Rightarrow> ChainConfig \<Rightarrow> Message \<Rightarrow> KeccakTracer \<Rightarrow> OverlayStateDB \<Rightarrow> world \<Rightarrow>
   ((string + trace_op list) \<times> KeccakTracer \<times> world) option" where
  "probe_run E X vmCtx chainCfg msg t stateDB w = do {
     let (cl, w1) = Clone E stateDB w;
     ((res, gp), t', cl', w2) \<leftarrow> run_traced (db_step E) (Keccak_capture (keccak256 E) (g_GetPtr X))
       (g_ApplyMessage X (block_env vmCtx w1) chainCfg msg (- 1)) t (cl, w1);
     Some (case res of Inl err \<Rightarrow> Inl (supplied_gas err msg) | Inr r \<Rightarrow> Inr (Keccak_GetResult t'), t', w2)
   }"

text \<open>
  The block context of the second run: the difficulty and the time are raised in place, in the
  cells that the machine's own context points to; the gas limit is raised in the copy.
\<close>

definition probe_context :: "BlockContext \<Rightarrow> world \<Rightarrow> BlockContext \<times> world" where
  "probe_context vmCtx w =
     (let w1 = set_big (bc_Difficulty vmCtx) (bigs w ! bc_Difficulty vmCtx + 1) w;
          w2 = set_big (bc_Time vmCtx) (bigs w1 ! bc_Time vmCtx + 1) w1
      in (vmCtx\<lparr>bc_GasLimit := bc_GasLimit vmCtx + 1\<rparr>, w2))"

definition RunTxWithDifferentContext ::
  "env \<Rightarrow> 't geth \<Rightarrow> 't MferBackend \<Rightarrow> hash \<Rightarrow> world \<Rightarrow>
   ((api_error + trace_op list \<times> trace_op list) \<times> 't MferBackend \<times> world) option" where
  "RunTxWithDifferentContext E X b txHash w = (case split_pool X txHash (b_TxPool b) of
     None \<Rightarrow> Some (Inl (Err (not_found txHash)), b, w)
   | Some (before, tx) \<Rightarrow> do {
       (a1, stateDB, w1) \<leftarrow> replay_before E X b before w;
       let b1 = b\<lparr>b_EVM := a1\<rparr>;
       let msg = EVM_TxToMessage X a1 tx;
       let w2 = SetCodeHash E stateDB (msg_From msg) 0 w1;
       let vmCtx = GetVMContext a1;
       let chainCfg = GetChainConfig a1;
       (res0, t, w3) \<leftarrow> probe_run E X vmCtx chainCfg msg NewKeccakTracer stateDB w2;
       (case res0 of
          Inl err \<Rightarrow> Some (Inl (Err err), b1, w3)
        | Inr ops0 \<Rightarrow> do {
            let (vmCtx1, w4) = probe_context vmCtx w3;
            (res1, t1, w5) \<leftarrow> probe_run E X vmCtx1 chainCfg msg (Keccak_Reset t) stateDB w4;
            (case res1 of
               Inl err \<Rightarrow> Some (Inl (Err err), b1, w5)
             | Inr ops1 \<Rightarrow> Some (Inr (ops0, ops1), b1, w5))
          })
     })"

end
