(* ===== verification/StateDiff.thy ===== *)
theory StateDiff
  imports Frames
begin

text \<open>
  The state difference of \<^verbatim>\<open>mferstate/overlaystatedb.go\<close> (\<^verbatim>\<open>GetStateDiff\<close>): the overrides it collects, applied
  to the upstream state, give the state that the database shows.
\<close>

section \<open>The merged scratch pad\<close>

lemma merged_walk_ok:
  assumes "wf_world E w" "r < length (heap w)" "gomap_wf m" "\<forall>key\<in>dom (map_of m). pad_key E key"
  shows "\<exists>m'. merged_walk r m w = Some m' \<and> gomap_wf m' \<and> (\<forall>key\<in>dom (map_of m'). pad_key E key) \<and>
    (\<forall>key. map_of m' key = (case map_of m key of Some v \<Rightarrow> Some v | None \<Rightarrow> overlay (heap w) r key))"
  using assms(2-)
proof (induction r arbitrary: m rule: less_induct)
  case (less r)
  have wf: "wf_heap (heap w)" using assms(1) by (simp add: wf_world_def)
  show ?case
  proof (cases "parent (heap w ! r)")
    case None
    then show ?thesis using less.prems by (subst merged_walk.simps) (simp add: st_def overlay.simps [of _ r] split: option.split)
  next
    case (Some p)
    have p: "p < r" using wf_heap_parent [OF wf less.prems(1) Some] .
    let ?pad = "scratchPad (heap w ! r)"
    have pad: "gomap_wf ?pad" "\<forall>key\<in>dom (map_of ?pad). pad_key E key"
      using wf assms(1) less.prems(1) Some by (auto simp: wf_heap_def wf_world_def keyed_def dom_map_of_conv_image_fst)
    have m: "map_of (copy_missing ?pad m) = map_of ?pad ++ map_of m" by (rule map_of_copy_missing [OF pad(1)])
    have "\<forall>key\<in>dom (map_of (copy_missing ?pad m)). pad_key E key" using pad(2) less.prems(3) by (auto simp: m)
    from less.IH [OF p _ gomap_wf_copy_missing [OF less.prems(2)] this] less.prems(1) p obtain m' where
      "merged_walk p (copy_missing ?pad m) w = Some m'" "gomap_wf m'" "\<forall>key\<in>dom (map_of m'). pad_key E key"
      "\<forall>key. map_of m' key = (case (map_of ?pad ++ map_of m) key of Some v \<Rightarrow> Some v | None \<Rightarrow> overlay (heap w) p key)"
      by (auto simp: m)
    then show ?thesis using Some p
      by (subst merged_walk.simps) (auto simp: st_def overlay.simps [of _ r] map_add_def split: option.split)
  qed
qed

section \<open>The overrides\<close>

definition ov_at :: "(OverrideAccount \<Rightarrow> 'v option) \<Rightarrow> StateOverride \<Rightarrow> address \<Rightarrow> 'v option" where
  "ov_at f acc a = Option.bind (map_of acc a) f"

definition ov_slot :: "StateOverride \<Rightarrow> address \<Rightarrow> hash \<Rightarrow> hash option" where
  "ov_slot acc a k = Option.bind (ov_at ov_StateDiff acc a) (\<lambda>d. map_of d k)"

lemma pad_key_slices:
  "go_slice (calcKey h a @ x) 0 32 = Some (Hash_Bytes h)" "go_slice (calcKey h a @ x) 32 52 = Some (Address_Bytes a)"
  "go_slice (calcKey h a) 0 32 = Some (Hash_Bytes h)" "go_slice (calcKey h a) 32 52 = Some (Address_Bytes a)"
  "go_slice (calcKey h a @ Hash_Bytes k) 52 84 = Some (Hash_Bytes k)"
  by (simp_all add: go_slice_def calcKey_def)

text \<open>What the overrides say after some keys of the pad have been gone through.\<close>

definition collected :: "env \<Rightarrow> OverlayStateDB \<Rightarrow> world \<Rightarrow> bytes set \<Rightarrow> StateOverride \<Rightarrow> StateOverride \<Rightarrow> bool" where
  "collected E c w keys acc acc' \<longleftrightarrow> (\<forall>a k.
     ov_at ov_Balance acc' a = (if scratchpadKey E GET_BALANCE a 0 \<in> keys then Some (balance_of E w c a) else ov_at ov_Balance acc a) \<and>
     ov_at ov_Nonce acc' a = (if scratchpadKey E GET_NONCE a 0 \<in> keys then Some (nonce_of E w c a) else ov_at ov_Nonce acc a) \<and>
     ov_at ov_Code acc' a = (if scratchpadKey E GET_CODE a 0 \<in> keys then Some (code_of E w c a) else ov_at ov_Code acc a) \<and>
     ov_slot acc' a k = (if scratchpadKey E GET_STATE a k \<in> keys then Some (slot_of E w c (a, k)) else ov_slot acc a k))"

lemma ov_at_update [simp]: "ov_at f (AList.update b ov acc) a = (if a = b then f ov else ov_at f acc a)"
  by (simp add: ov_at_def)

definition override_of :: "StateOverride \<Rightarrow> address \<Rightarrow> OverrideAccount" where
  "override_of acc a = (case map_of acc a of Some ov \<Rightarrow> ov | None \<Rightarrow> no_override)"

lemma override_of_fields [simp]:
  "ov_Balance (override_of acc a) = ov_at ov_Balance acc a" "ov_Nonce (override_of acc a) = ov_at ov_Nonce acc a"
  "ov_Code (override_of acc a) = ov_at ov_Code acc a" "ov_StateDiff (override_of acc a) = ov_at ov_StateDiff acc a"
  by (simp_all add: override_of_def ov_at_def no_override_def split: option.split)

text \<open>One key: the value of its kind is read, and is what the overrides now say at its place.\<close>

lemma diff_entry_reads:
  assumes "keys_distinct E"
  shows "GetBalance E c a w = Some (balance_of E w c a, w1) \<Longrightarrow> \<exists>acc'.
      diff_entry E c (scratchpadKey E GET_BALANCE a k) acc w = Some (acc', w1) \<and>
      collected E c w {scratchpadKey E GET_BALANCE a k} acc acc'"
    and "GetNonce E c a w = Some (nonce_of E w c a, w1) \<Longrightarrow> \<exists>acc'.
      diff_entry E c (scratchpadKey E GET_NONCE a k) acc w = Some (acc', w1) \<and>
      collected E c w {scratchpadKey E GET_NONCE a k} acc acc'"
    and "GetCode E c a w = Some (code_of E w c a, w1) \<Longrightarrow> \<exists>acc'.
      diff_entry E c (scratchpadKey E GET_CODE a k) acc w = Some (acc', w1) \<and>
      collected E c w {scratchpadKey E GET_CODE a k} acc acc'"
    and "GetState E c a k w = Some (slot_of E w c (a, k), w1) \<Longrightarrow> \<exists>acc'.
      diff_entry E c (scratchpadKey E GET_STATE a k) acc w = Some (acc', w1) \<and>
      collected E c w {scratchpadKey E GET_STATE a k} acc acc'"
    and "\<exists>acc'. diff_entry E c (scratchpadKey E GET_CODEHASH a k) acc w = Some (acc', w) \<and>
      collected E c w {scratchpadKey E GET_CODEHASH a k} acc acc'"
    and "\<exists>acc'. diff_entry E c (calcKey (SUICIDE_KEY E) a) acc w = Some (acc', w) \<and>
      collected E c w {calcKey (SUICIDE_KEY E) a} acc acc'"
proof -
  have kd: "distinct [SUICIDE_KEY E, STATE_KEY E, CODEHASH_KEY E, CODE_KEY E, NONCE_KEY E, BALANCE_KEY E]" "CODEHASH_KEY E \<noteq> STATE_KEY E"
    using assms by (auto simp: keys_distinct_def)
  note entry = diff_entry_def override_of_def [symmetric] pad_key_slices scratchpadKey_def calcStateKey_def Let_def
  note place = collected_def scratchpadKey_eq [OF assms] ov_slot_def
  have neq: "scratchpadKey E action b k \<noteq> calcKey (SUICIDE_KEY E) a" for action b k a
    using kd by (cases action) (auto simp: scratchpadKey_def)
  show "\<exists>acc'. diff_entry E c (scratchpadKey E GET_BALANCE a k) acc w = Some (acc', w1) \<and>
      collected E c w {scratchpadKey E GET_BALANCE a k} acc acc'" if "GetBalance E c a w = Some (balance_of E w c a, w1)"
    by (intro exI [of _ "AList.update a ((override_of acc a)\<lparr>ov_Balance := Some (balance_of E w c a)\<rparr>) acc"] conjI)
      (use kd that in \<open>simp add: entry\<close>, simp add: place)
  show "\<exists>acc'. diff_entry E c (scratchpadKey E GET_NONCE a k) acc w = Some (acc', w1) \<and>
      collected E c w {scratchpadKey E GET_NONCE a k} acc acc'" if "GetNonce E c a w = Some (nonce_of E w c a, w1)"
    by (intro exI [of _ "AList.update a ((override_of acc a)\<lparr>ov_Nonce := Some (nonce_of E w c a)\<rparr>) acc"] conjI)
      (use kd that in \<open>simp add: entry\<close>, simp add: place)
  show "\<exists>acc'. diff_entry E c (scratchpadKey E GET_CODE a k) acc w = Some (acc', w1) \<and>
      collected E c w {scratchpadKey E GET_CODE a k} acc acc'" if "GetCode E c a w = Some (code_of E w c a, w1)"
    by (intro exI [of _ "AList.update a ((override_of acc a)\<lparr>ov_Code := Some (code_of E w c a)\<rparr>) acc"] conjI)
      (use kd that in \<open>simp add: entry\<close>, simp add: place)
  show "\<exists>acc'. diff_entry E c (scratchpadKey E GET_STATE a k) acc w = Some (acc', w1) \<and>
      collected E c w {scratchpadKey E GET_STATE a k} acc acc'" if "GetState E c a k w = Some (slot_of E w c (a, k), w1)"
    by (intro exI [of _ "AList.update a ((override_of acc a)\<lparr>ov_StateDiff := Some (AList.update k (slot_of E w c (a, k))
          (case ov_at ov_StateDiff acc a of Some d \<Rightarrow> d | None \<Rightarrow> []))\<rparr>) acc"] conjI)
      (use kd that in \<open>simp add: entry\<close>, simp add: place split: option.split)
  show "\<exists>acc'. diff_entry E c (scratchpadKey E GET_CODEHASH a k) acc w = Some (acc', w) \<and>
      collected E c w {scratchpadKey E GET_CODEHASH a k} acc acc'"
    by (intro exI [of _ "AList.update a (override_of acc a) acc"] conjI)
      (use kd in \<open>simp add: entry\<close>, simp add: place)
  show "\<exists>acc'. diff_entry E c (calcKey (SUICIDE_KEY E) a) acc w = Some (acc', w) \<and>
      collected E c w {calcKey (SUICIDE_KEY E) a} acc acc'"
    by (intro exI [of _ "AList.update a (override_of acc a) acc"] conjI)
      (use kd in \<open>simp add: entry\<close>, simp add: place neq)
qed

lemma diff_entry_ok:
  assumes "db_ok E c w" "pad_key E key"
  shows "\<exists>acc' w'. diff_entry E c key acc w = Some (acc', w') \<and> cache_ext w w' \<and> db_ok E c w' \<and> collected E c w {key} acc acc'"
proof -
  note d = diff_entry_reads [OF db_ok_parts(2) [OF assms(1)]]
  from assms(2) consider (kind) action a k where "key = scratchpadKey E action a k" | (dead) a where "key = calcKey (SUICIDE_KEY E) a"
    unfolding pad_key_def by blast
  then show ?thesis
  proof cases
    case (kind action a k)
    note g = getters_ok [OF assms(1), of a]
    show ?thesis
    proof (cases action)
      case GET_BALANCE
      with g(1) d(1) [of c a w _ k acc] show ?thesis unfolding kind by blast
    next
      case GET_NONCE
      with g(2) d(2) [of c a w _ k acc] show ?thesis unfolding kind by blast
    next
      case GET_CODE
      with g(4) d(3) [of c a w _ k acc] show ?thesis unfolding kind by blast
    next
      case GET_STATE
      with g(6) [of k] d(4) [of c a k w _ acc] show ?thesis unfolding kind by blast
    next
      case GET_CODEHASH
      with d(5) [of c a k acc w] assms(1) cache_ext_refl show ?thesis unfolding kind by blast
    qed
  next
    case (dead a)
    show ?thesis unfolding dead using d(6) assms(1) cache_ext_refl by blast
  qed
qed

lemma collected_trans:
  assumes "collected E c w A acc acc1" "collected E c w B acc1 acc2"
  shows "collected E c w (A \<union> B) acc acc2"
  using assms unfolding collected_def by simp

lemma diff_loop_ok:
  assumes "db_ok E c w" "\<forall>key\<in>set keys. pad_key E key"
  shows "\<exists>acc' w'. diff_loop E c keys acc w = Some (acc', w') \<and> cache_ext w w' \<and> db_ok E c w' \<and> collected E c w (set keys) acc acc'"
  using assms
proof (induction keys arbitrary: acc w)
  case Nil
  then show ?case by (simp add: collected_def cache_ext_refl)
next
  case (Cons key keys)
  obtain acc1 w1 where e: "diff_entry E c key acc w = Some (acc1, w1)" "cache_ext w w1" "db_ok E c w1" "collected E c w {key} acc acc1"
    using diff_entry_ok [OF Cons.prems(1)] Cons.prems(2) by (metis list.set_intros(1))
  obtain acc2 w2 where r: "diff_loop E c keys acc1 w1 = Some (acc2, w2)" "cache_ext w1 w2" "db_ok E c w2" "collected E c w1 (set keys) acc1 acc2"
    using Cons.IH [OF e(3)] Cons.prems(2) by (metis list.set_intros(2))
  have "collected E c w (set keys) acc1 acc2"
    using r(4) shown_cache_ext [OF Cons.prems(1) e(2)] by (simp add: collected_def)
  from collected_trans [OF e(4) this] e(1) r(1,3) cache_ext_trans [OF e(2) r(2)] show ?case by simp
qed

section \<open>The difference\<close>

lemma merged_pad_view:
  assumes "db_ok E db w"
  shows "\<exists>m c w2. getMergedScratchPad db w = Some m \<and> gomap_wf m \<and> (\<forall>key\<in>set (map fst m). pad_key E key) \<and>
    (\<forall>key. map_of m key = overlay (heap w) (state db) key) \<and>
    (do { (c, w1) \<leftarrow> CloneFromRoot E db w; Some (c, upd_st (state c) (\<lambda>x. x\<lparr>scratchPad := m\<rparr>) w1) }) = Some (c, w2) \<and>
    grown E w w2 \<and> db_ok E c w2 \<and> view E w2 (state c) = view E w (state db)"
proof -
  note p = db_ok_parts [OF assms]
  obtain m where m: "merged_walk (state db) [] w = Some m" "gomap_wf m" "\<forall>key\<in>dom (map_of m). pad_key E key"
    "\<forall>key. map_of m key = overlay (heap w) (state db) key"
    using merged_walk_ok [OF p(3,5), of "[]"] by auto
  obtain root where r: "parent (heap w ! root) = None" "root < length (heap w)"
    "CloneFromRoot E db w = Some (fresh_db (length (heap w)), w\<lparr>heap := heap w @ [fresh_layer E ''from root'' root w]\<rparr>)"
    using CloneFromRoot_ok [OF assms] by blast
  let ?c = "fresh_db (length (heap w))" and ?w1 = "w\<lparr>heap := heap w @ [fresh_layer E ''from root'' root w]\<rparr>"
  let ?f = "\<lambda>x. x\<lparr>scratchPad := m\<rparr>" and ?n = "length (heap w)"
  note g = CloneFromRoot_grown [OF assms r(3)]
  have keys: "\<forall>key\<in>set (map fst m). pad_key E key" using m(3) by (simp add: dom_map_of_conv_image_fst)
  have "wf_world E (upd_st (state ?c) ?f ?w1)"
    by (rule wf_world_layer_update) (use db_ok_parts [OF g(2)] m(2) keys in \<open>auto simp: keyed_def\<close>)
  then have mv: "moved E (?c, ?w1) (?c, upd_st (state ?c) ?f ?w1)" by (intro moved_upd [OF g(2)]) simp_all
  let ?w2 = "upd_st (state ?c) ?f ?w1"
  have "below (length (heap w)) w ?w1" using g(1) by (simp add: grown_def)
  from moved_above_grown(1) [OF mv this] g(3) moved_parts(1) [OF mv] have gr: "grown E w ?w2" by (simp add: grown_def db_ok_def)
  have "overlay (heap ?w2) ?n key = overlay (heap w) (state db) key" for key
    using r(1,2) m(4) by (simp add: overlay.simps [of _ ?n] overlay.simps [of _ root] g(3) heap_upd_st fresh_layer_def nth_append split: option.split)
  then have "view E ?w2 (state ?c) = view E w (state db)" using g(3) by (simp add: fun_eq_iff view_def upd_st_def split: option.split)
  with m keys r(3) gr moved_parts(1) [OF mv] show ?thesis by (auto simp: getMergedScratchPad_def)
qed

text \<open>The upstream state with the overrides applied.\<close>

definition overridden :: "env \<Rightarrow> u64 \<Rightarrow> StateOverride \<Rightarrow> address \<Rightarrow> hash \<Rightarrow> int \<times> u64 \<times> bytes \<times> hash" where
  "overridden E n diff a k =
     (opt_else (big_SetBytes (uval E n GET_BALANCE a 0)) (ov_at ov_Balance diff a),
      opt_else (big_Uint64 (big_SetBytes (uval E n GET_NONCE a 0))) (ov_at ov_Nonce diff a),
      opt_else (uval E n GET_CODE a 0) (ov_at ov_Code diff a),
      opt_else (BytesToHash (uval E n GET_STATE a k)) (ov_slot diff a k))"

lemma GetStateDiff_ok:
  assumes "db_ok E db w"
  shows "\<exists>diff w'. GetStateDiff E db w = Some (diff, w') \<and> grown E w w' \<and>
    (\<forall>a k. overridden E (blockNumber w) diff a k =
       (balance_of E w db a, nonce_of E w db a, code_of E w db a, slot_of E w db (a, k)))"
proof -
  from merged_pad_view [OF assms] obtain m c w2 where
    m: "getMergedScratchPad db w = Some m" "\<forall>key\<in>set (map fst m). pad_key E key"
      "\<forall>key. map_of m key = overlay (heap w) (state db) key"
      "(do { (c, w1) \<leftarrow> CloneFromRoot E db w; Some (c, upd_st (state c) (\<lambda>x. x\<lparr>scratchPad := m\<rparr>) w1) }) = Some (c, w2)"
      "grown E w w2" "db_ok E c w2" "view E w2 (state c) = view E w (state db)" by blast
  obtain diff w3 where d: "diff_loop E c (map fst m) [] w2 = Some (diff, w3)" "cache_ext w2 w3" "db_ok E c w3"
    "collected E c w2 (set (map fst m)) [] diff" using diff_loop_ok [OF m(6,2)] by blast
  have "grown E w2 w3" using cache_ext_below [OF d(2)] d(3) by (simp add: grown_def db_ok_def)
  then have "grown E w w3" by (rule grown_trans [OF m(5)])
  moreover have "GetStateDiff E db w = Some (diff, w3)"
    using m(1,4) d(1) by (auto simp: GetStateDiff_def bind_eq_Some_conv)
  moreover have "overridden E (blockNumber w) diff a k =
      (balance_of E w db a, nonce_of E w db a, code_of E w db a, slot_of E w db (a, k))" for a k
  proof -
    have key: "key \<in> fst ` set m \<longleftrightarrow> overlay (heap w) (state db) key \<noteq> None" for key
      using m(3) by (metis dom_map_of_conv_image_fst domIff)
    have up: "view E w (state db) action a k = uval E (blockNumber w) action a k"
      if "overlay (heap w) (state db) (scratchpadKey E action a k) = None" for action a k using that by (simp add: view_def)
    have "balance_of E w2 c = balance_of E w db" "nonce_of E w2 c = nonce_of E w db" "code_of E w2 c = code_of E w db"
      "slot_of E w2 c = slot_of E w db" by (simp_all add: fun_eq_iff shown_defs m(7))
    then have "ov_at ov_Balance diff a = (if scratchpadKey E GET_BALANCE a 0 \<in> fst ` set m then Some (balance_of E w db a) else None) \<and>
       ov_at ov_Nonce diff a = (if scratchpadKey E GET_NONCE a 0 \<in> fst ` set m then Some (nonce_of E w db a) else None) \<and>
       ov_at ov_Code diff a = (if scratchpadKey E GET_CODE a 0 \<in> fst ` set m then Some (code_of E w db a) else None) \<and>
       ov_slot diff a k = (if scratchpadKey E GET_STATE a k \<in> fst ` set m then Some (slot_of E w db (a, k)) else None)"
      using d(4) unfolding collected_def by (simp add: ov_at_def ov_slot_def)
    then show ?thesis using up by (simp add: overridden_def key opt_else_def) (simp add: shown_defs)
  qed
  ultimately show ?thesis by blast
qed

end
