(* ===== verification/NodeCalls.thy ===== *)
theory NodeCalls
  imports ActionApi ProbeApi StateDiff
begin

text \<open>
  The node as a whole: what its handlers need of the machine, the pool and the state (\<open>node_ok\<close>) and
  the relation between worlds that calls establish (\<open>kept\<close>: nothing that existed was written). Calls,
  gas estimates and sent transactions return from such a node.
\<close>

section \<open>Worlds in which nothing that existed was written\<close>

text \<open>
  Layers may have appeared, caches grown, requests been sent and the cells of the block context
  been set; every layer that existed is as it was.
\<close>

definition kept :: "env \<Rightarrow> world \<Rightarrow> world \<Rightarrow> bool" where
  "kept E w w' \<longleftrightarrow> wf_world E w' \<and> length (bigs w') = length (bigs w) \<and>
     below (length (heap w)) (w\<lparr>bigs := bigs w'\<rparr>) w'"

lemma wf_world_cong:
  "heap w' = heap w \<Longrightarrow> blockNumber w' = blockNumber w \<Longrightarrow> wf_world E w' = wf_world E w"
  by (simp add: wf_world_def)

lemma grown_kept: "grown E w w' \<Longrightarrow> kept E w w'"
  unfolding grown_def kept_def by (simp add: below_def)

lemma kept_refl: "wf_world E w \<Longrightarrow> kept E w w"
  by (rule grown_kept [OF grown_refl])

lemma kept_trans:
  assumes "kept E w w1" "kept E w1 w2"
  shows "kept E w w2"
  using assms unfolding kept_def below_def by (auto intro: root_ext_trans)

lemma kept_cong:
  "wf_world E w \<Longrightarrow> heap w' = heap w \<Longrightarrow> blockNumber w' = blockNumber w \<Longrightarrow> keyCacheFile w' = keyCacheFile w \<Longrightarrow>
   clock w \<le> clock w' \<Longrightarrow> length (bigs w') = length (bigs w) \<Longrightarrow> kept E w w'"
  by (simp add: kept_def below_def wf_world_cong [of w' w])

lemma kept_ask: "wf_world E w \<Longrightarrow> ask f w = (r, w') \<Longrightarrow> kept E w w'"
  by (rule kept_cong) (auto simp: ask_def)

lemma kept_cache_ext: "wf_world E w' \<Longrightarrow> cache_ext w w' \<Longrightarrow> kept E w w'"
  by (rule grown_kept) (simp add: grown_def cache_ext_below)

lemma kept_below:
  assumes "kept E w w'"
  shows "below (length (heap w)) (w\<lparr>bigs := bigs w'\<rparr>) w'" "wf_world E w'"
    "length (heap w) \<le> length (heap w')" "blockNumber w' = blockNumber w"
  using assms by (auto simp: kept_def below_def)

lemma shown_at_bigs [simp]: "shown_at E (w\<lparr>bigs := x\<rparr>) r = shown_at E w r"
  by (simp add: shown_at_def fun_eq_iff view_def split: option.split)

lemma kept_shown:
  "kept E w w' \<Longrightarrow> wf_heap (heap w) \<Longrightarrow> r < length (heap w) \<Longrightarrow> shown_at E w' r = shown_at E w r"
  using below_shown [OF kept_below(1), of E w w' r] by simp

lemma kept_receipts:
  "kept E w w' \<Longrightarrow> r < length (heap w) \<Longrightarrow> receipts (heap w' ! r) = receipts (heap w ! r)"
  using below_fields(2) [OF kept_below(1), of E w w' r] by simp

lemma kept_db_ok: "kept E w w' \<Longrightarrow> db_ok E db w \<Longrightarrow> db_ok E db w'"
  using kept_below [of E w w'] by (auto simp: db_ok_def dest: below_parent below_len)

text \<open>A database on a layer that is new may be worked on.\<close>

lemma kept_moved:
  assumes "kept E w w1" "moved E (c, w1) (c', w2)" "length (heap w) \<le> state c"
  shows "kept E w w2" "length (heap w) \<le> state c'"
proof -
  note k = kept_below [OF assms(1)]
  have b: "bigs w2 = bigs w1" using moved_parts(2) [OF assms(2)] by (simp add: only_def)
  from moved_above_grown [OF assms(2) k(1) assms(3)] show "kept E w w2" "length (heap w) \<le> state c'"
    using moved_parts(1) [OF assms(2)] assms(1) by (auto simp: kept_def b db_ok_def)
qed

section \<open>The node\<close>

definition cells :: "BlockContext \<Rightarrow> nat list" where
  "cells c = [bc_BaseFee c, bc_BlockNumber c, bc_Time c, bc_Difficulty c]"

definition node_ok :: "env \<Rightarrow> 't MferBackend \<Rightarrow> world \<Rightarrow> bool" where
  "node_ok E b w \<longleftrightarrow>
     (\<exists>db. backend_db b = Some db \<and> db_ok E db w \<and> stateBN db \<and> \<not> openfile_err E (cacheFilePath db)) \<and>
     pool_ok (b_TxPool b) \<and>
     distinct (cells (vmContext (b_EVM b))) \<and> (\<forall>i\<in>set (cells (vmContext (b_EVM b))). i < length (bigs w))"

text \<open>The machine differs in settings and scalars only: database and cells are the same.\<close>

definition same_evm :: "'t MferEVM \<Rightarrow> 't MferEVM \<Rightarrow> bool" where
  "same_evm a a' \<longleftrightarrow> StateDB a' = StateDB a \<and> cells (vmContext a') = cells (vmContext a)"

lemma same_evm_simps [simp]:
  "same_evm a a" "same_evm a (a\<lparr>tracer := t\<rparr>)" "same_evm a (SetTracer t a)" "same_evm a (AddGasPool a)"
  "same_evm a (SetTimeDelta d a)" "same_evm a (SetBlockNumberDelta d a)"
  by (simp_all add: same_evm_def SetTracer_def AddGasPool_def SetTimeDelta_def SetBlockNumberDelta_def)

lemma same_evm_trans: "same_evm a a1 \<Longrightarrow> same_evm a1 a2 \<Longrightarrow> same_evm a a2"
  by (simp add: same_evm_def)

lemma same_but_gas_evm: "same_but_gas a a' \<Longrightarrow> same_evm a a'"
  unfolding same_but_gas_def same_evm_def
  by (metis MferEVM.select_convs(1,5) MferEVM.surjective MferEVM.update_convs(6))

lemma node_db:
  assumes "node_ok E b w"
  obtains db where "backend_db b = Some db" "db_ok E db w" "stateBN db" "\<not> openfile_err E (cacheFilePath db)"
  using assms by (auto simp: node_ok_def)

lemma node_kept: "node_ok E b w \<Longrightarrow> kept E w w' \<Longrightarrow> node_ok E b w'"
  unfolding node_ok_def using kept_db_ok by (auto simp: kept_def)

lemma node_evm:
  "node_ok E b w \<Longrightarrow> same_evm (b_EVM b) a' \<Longrightarrow> node_ok E (b\<lparr>b_EVM := a'\<rparr>) w"
  by (simp add: node_ok_def same_evm_def backend_db_def)

lemma node_moved:
  assumes "node_ok E b w" "backend_db b = Some db" "moved E (db, w) (db', w')" "same_evm (b_EVM b) a'"
  shows "node_ok E (store_db a' db' b) w'"
  using assms moved_parts(1,2,7) [OF assms(3)]
  by (auto simp: node_ok_def store_db_def backend_db_def same_evm_def same_config_def only_def)

lemma node_kept_evm:
  "node_ok E b w \<Longrightarrow> kept E w w' \<Longrightarrow> same_evm (b_EVM b) a' \<Longrightarrow> node_ok E (b\<lparr>b_EVM := a'\<rparr>) w'"
  by (rule node_evm [OF node_kept])

lemma node_wf: "node_ok E b w \<Longrightarrow> wf_world E w"
  by (auto simp: node_ok_def db_ok_def)

section \<open>Calls\<close>

lemma header_kept: "wf_world E w \<Longrightarrow> GetBlockHeader X tag w = (h, w') \<Longrightarrow> kept E w w'"
  by (rule kept_cong) (auto simp: GetBlockHeader_def ask_def split: sum.splits option.splits)

lemma set_big_simps [simp]:
  "heap (set_big i v w) = heap w" "blockNumber (set_big i v w) = blockNumber w"
  "keyCacheFile (set_big i v w) = keyCacheFile w" "clock (set_big i v w) = clock w"
  "length (bigs (set_big i v w)) = length (bigs w)"
  by (simp_all add: set_big_def)

lemma SetVMContext_kept:
  assumes "wf_world E w"
  shows "\<exists>a' w'. SetVMContextByBlockHeader (Some header) a w = Some (a', w') \<and> same_evm a a' \<and> kept E w w'"
proof -
  have "kept E w (set_big i3 v3 (set_big i2 v2 (set_big i1 v1 w)))" for i1 i2 i3 v1 v2 v3
    by (rule kept_cong [OF assms]) simp_all
  then show ?thesis by (simp add: SetVMContextByBlockHeader_def Let_def same_evm_def cells_def)
qed

lemma call_context_kept:
  assumes "wf_world E w"
  shows "\<exists>a' w'. call_context X number a w = Some (a', w') \<and> same_evm a a' \<and> kept E w w'"
proof -
  have "\<exists>a' w'. call_context X (Some n) a w = Some (a', w') \<and> same_evm a a' \<and> kept E w w'" if "n \<noteq> -1" for n
  proof -
    obtain h w1 where h: "GetBlockHeader X (''0x'' @ fmt_x n) w = (h, w1)" by fastforce
    note k = header_kept [OF assms h]
    show ?thesis
    proof (cases h)
      case (Some header)
      from SetVMContext_kept [OF kept_below(2) [OF k], of header a] show ?thesis
        using that h Some kept_trans [OF k] by (auto simp: call_context_def)
    qed (use that h k in \<open>simp add: call_context_def\<close>)
  qed
  then show ?thesis using kept_refl [OF assms] by (cases number) (auto simp: call_context_def)
qed

text \<open>Runs under a tracer that was set do not panic in the tracer.\<close>

definition traced_ok :: "env \<Rightarrow> 't geth \<Rightarrow> bool" where
  "traced_ok E X \<longleftrightarrow> (\<forall>b c m g j t. t \<noteq> NoTracer \<longrightarrow> j_saved j = [] \<longrightarrow>
     run_traced jstep (capture_any E X) (g_ApplyMessage X b c m g) t j \<noteq> None)"

lemma call_ok_traced: "traced_ok E X \<Longrightarrow> tracer a \<noteq> NoTracer \<Longrightarrow> call_ok E X a msg True db w"
  by (simp add: call_ok_def Let_def traced_ok_def abs_journal_def saved.simps del: not_None_eq)

lemma CallLocal_ok:
  assumes "machine_ok X" "node_ok E b w"
  shows "\<exists>r a' w'. CallLocal E X b args number ov w = Some (r, b\<lparr>b_EVM := a'\<rparr>, w') \<and>
    same_evm (b_EVM b) a' \<and> kept E w w'"
proof (cases "ToMessage (preprocessArgs E b args) 0 None")
  case (Inl err)
  have "b\<lparr>b_EVM := b_EVM b\<rparr> = b" by simp
  with Inl kept_refl [OF node_wf [OF assms(2)]] show ?thesis
    by (intro exI [of _ "([], Some (Err err))"] exI [of _ "b_EVM b"] exI [of _ w]) (simp add: CallLocal_def)
next
  case (Inr msg)
  obtain db where db: "backend_db b = Some db" "db_ok E db w" using node_db [OF assms(2)] by blast
  obtain cl w1 where c: "Clone E db w = (cl, w1)" by fastforce
  note g = Clone_grown [OF db(2) c]
  obtain a1 w2 where a1: "call_context X number (b_EVM b) w1 = Some (a1, w2)" "same_evm (b_EVM b) a1" "kept E w1 w2"
    using call_context_kept [of E w1 X number "b_EVM b"] g(1) by (auto simp: grown_def)
  have k2: "kept E w w2" by (rule kept_trans [OF grown_kept [OF g(1)] a1(3)])
  obtain res t' cl' w3 where d: "DoCall E X a1 msg False cl w2 = Some (res, a1\<lparr>tracer := t'\<rparr>, cl', w3)"
    "moved E (cl, w2) (cl', w3)"
    using DoCall_ok [OF kept_db_ok [OF a1(3) g(2)] call_ok_machine [OF assms(1)]] by blast
  have "kept E w w3" using kept_moved(1) [OF k2 d(2)] g(3) by simp
  moreover have "same_evm (b_EVM b) (a1\<lparr>tracer := t'\<rparr>)" using a1(2) by (simp add: same_evm_def)
  ultimately show ?thesis using db(1) c a1(1) d(1) by (auto simp: CallLocal_def Inr)
qed

lemma EstimateGas_ok:
  assumes "traced_ok E X" "node_ok E b w"
  shows "\<exists>r a' w'. EstimateGas E X b args w = Some (r, b\<lparr>b_EVM := a'\<rparr>, w') \<and>
    same_evm (b_EVM b) a' \<and> kept E w w'"
proof -
  let ?args = "preprocessArgs E b args"
  let ?from = "case arg_From ?args of Some a \<Rightarrow> a | None \<Rightarrow> 0"
  obtain db where db: "backend_db b = Some db" "db_ok E db w" using node_db [OF assms(2)] by blast
  obtain nonce w1 where n: "GetNonce E db ?from w = Some (nonce, w1)" "cache_ext w w1" "db_ok E db w1"
    using getters_ok(2) [OF db(2), of ?from] by blast
  have k1: "kept E w w1" using kept_cache_ext [OF _ n(2)] n(3) by (simp add: db_ok_def)
  show ?thesis
  proof (cases "ToMessage (?args\<lparr>arg_GasPrice := None, arg_Nonce := Some nonce\<rparr>) 0 None")
    case (Inl err)
    have "b\<lparr>b_EVM := b_EVM b\<rparr> = b" by simp
    with Inl k1 n(1) db(1) show ?thesis
      by (intro exI [of _ "(0, Some (Err err))"] exI [of _ "b_EVM b"] exI [of _ w1]) (simp add: EstimateGas_def Let_def)
  next
    case (Inr msg)
    let ?a = "SetTracer (Keccak NewKeccakTracer) (b_EVM b)"
    obtain cl w2 where c: "Clone E db w1 = (cl, w2)" by fastforce
    note g = Clone_grown [OF n(3) c]
    have k2: "kept E w w2" by (rule kept_trans [OF k1 grown_kept [OF g(1)]])
    have len: "length (heap w) \<le> state cl" using kept_below(3) [OF k1] g(3) by simp
    have "call_ok E X ?a msg True cl w2" by (rule call_ok_traced [OF assms(1)]) (simp add: SetTracer_def)
    from DoCall_ok [OF g(2) this] obtain res t' cl' w3 where
      d: "DoCall E X ?a msg True cl w2 = Some (res, ?a\<lparr>tracer := t'\<rparr>, cl', w3)" "moved E (cl, w2) (cl', w3)" by blast
    let ?a3 = "case t' of Keccak t \<Rightarrow> SetTracer (Keccak (Keccak_Reset t)) (?a\<lparr>tracer := t'\<rparr>) | _ \<Rightarrow> ?a\<lparr>tracer := t'\<rparr>"
    have "same_evm (b_EVM b) ?a3" by (cases t') (simp_all add: same_evm_def SetTracer_def)
    moreover have "kept E w w3" by (rule kept_moved(1) [OF k2 d(2) len])
    moreover have "\<exists>r. EstimateGas E X b args w = Some (r, b\<lparr>b_EVM := ?a3\<rparr>, w3)"
      using db(1) n(1) c d(1) Inr by (simp add: EstimateGas_def Let_def)
    ultimately show ?thesis by blast
  qed
qed

section \<open>Funded accounts\<close>

lemma moved_cache_ext:
  assumes "db_ok E db w" "cache_ext w w'" "db_ok E db w'"
  shows "moved E (db, w) (db, w')"
  using assms db_ok_parts(5,6) [OF assms(1)] db_ok_parts(6) [OF assms(3)]
    only_cache_ext [OF only_refl assms(2), of "state db"]
  by (simp add: moved_def same_config_def)

lemma moved_AddBalance:
  assumes "db_ok E db w"
  shows "\<exists>w'. AddBalance E db a d w = Some w' \<and> moved E (db, w) (db, w')"
proof -
  obtain w1 where w1: "get E (state db) a GET_BALANCE 0 w =
      Some (view E w (state db) GET_BALANCE a 0, w1)" "cache_ext w w1" "db_ok E db w1"
    using db_get [OF assms] by blast
  have "pad_key E (calcKey (BALANCE_KEY E) a)" using pad_key_simps(1) [of E GET_BALANCE a 0] by (simp add: scratchpadKey_def)
  from moved_trans [OF moved_cache_ext [OF assms w1(2,3)] moved_put_pad [OF w1(3) this]] w1(1) show ?thesis
    by (simp add: AddBalance_def)
qed

section \<open>Sending transactions\<close>

lemma execute_one_ok:
  assumes "machine_ok X" "tracers_build E X None" "node_ok E b w"
  shows "\<exists>b' w' r. execute_one E X b tx w = Some (te_hash (g_tx X) tx, b', w') \<and> node_ok E b' w' \<and>
    b_TxPool b' = AddTx tx r (b_TxPool b) \<and> chainConfig (b_EVM b') = chainConfig (b_EVM b) \<and> clock w \<le> clock w'"
proof -
  obtain db where db: "backend_db b = Some db" "db_ok E db w" using node_db [OF assms(3)] by blast
  from ExecuteTxs_ok [OF assms(1,2) db(2), of "b_EVM b" "[tx]"] obtain r a' db' w' where
    e: "ExecuteTxs E X (b_EVM b) [tx] db None w = Some ([r], a', db', w')" "same_but_gas (b_EVM b) a'"
      "moved E (db, w) (db', w')" by (auto simp: length_Suc_conv)
  note ok = node_moved [OF assms(3) db(1) e(3) same_but_gas_evm [OF e(2)]]
  have "chainConfig a' = chainConfig (b_EVM b)"
    using arg_cong [OF e(2) [unfolded same_but_gas_def], of chainConfig] by simp
  moreover have "clock w \<le> clock w'" using moved_parts(2) [OF e(3)] by (simp add: only_def)
  ultimately show ?thesis using ok e(1) db(1)
    by (auto simp: execute_one_def go_index_def node_ok_def store_db_def backend_db_def pool_ok_def AddTx_def)
qed

lemma toTransaction_total:
  assumes "arg_Nonce args = Some n" "arg_Gas args = Some g"
  shows "\<exists>tx. toTransaction args = Some tx \<and> tx_Nonce tx = n \<and> tx_Gas tx = g \<and> tx_To tx = arg_To args"
  using assms by (cases "arg_MaxFeePerGas args"; cases "arg_AccessList args") (simp_all add: toTransaction_def Let_def)

text \<open>The transaction that is sent for the arguments.\<close>

definition sent_args :: "'t MferBackend \<Rightarrow> u64 \<Rightarrow> TransactionArgs \<Rightarrow> TransactionArgs" where
  "sent_args b nonce args = args\<lparr>arg_GasPrice := Some 0, arg_MaxFeePerGas := None, arg_MaxPriorityFeePerGas := None,
     arg_Gas := Some (opt_else (bc_GasLimit (vmContext (b_EVM b)) div 3) (arg_Gas args)), arg_Nonce := Some nonce\<rparr>"

definition sent_tx :: "'t geth \<Rightarrow> 't MferBackend \<Rightarrow> address \<Rightarrow> u64 \<Rightarrow> TransactionArgs \<Rightarrow> Transaction option" where
  "sent_tx X b from nonce args = map_option
     (g_setSignature X (sint (big_Int64 (EVM_ChainID (b_EVM b)))) 1 (big_SetBytes (Address_Bytes from)) MFERSIGNER_S)
     (toTransaction (sent_args b nonce args))"

lemma SendTransaction_ok:
  fixes args :: TransactionArgs
  assumes "machine_ok X" "tracers_build E X None" "node_ok E b w" "backend_db b = Some db"
  defines "who \<equiv> send_sender b (preprocessArgs E b args)"
  shows "\<exists>tx r b' w'. sent_tx X b who (nonce_of E w db who) (preprocessArgs E b args) = Some tx \<and>
    SendTransaction E X b args w = Some (te_hash (g_tx X) tx, b', w') \<and> node_ok E b' w' \<and>
    b_TxPool b' = AddTx tx r (b_TxPool b) \<and> chainConfig (b_EVM b') = chainConfig (b_EVM b) \<and> clock w \<le> clock w'"
proof -
  have ok: "db_ok E db w" using node_db [OF assms(3)] assms(4) by auto
  obtain w1 where n: "GetNonce E db who w = Some (nonce_of E w db who, w1)" "cache_ext w w1" "db_ok E db w1"
    using getters_ok(2) [OF ok, of who] by blast
  have "kept E w w1" using kept_cache_ext [OF _ n(2)] n(3) by (simp add: db_ok_def)
  note ok1 = node_kept [OF assms(3) this]
  let ?args = "sent_args b (nonce_of E w db who) (preprocessArgs E b args)"
  obtain tx0 where tx0: "toTransaction ?args = Some tx0"
    using toTransaction_total [of ?args] by (auto simp: sent_args_def)
  then obtain tx where tx: "sent_tx X b who (nonce_of E w db who) (preprocessArgs E b args) = Some tx"
    by (simp add: sent_tx_def)
  have a: "(if arg_Gas a = None then a\<lparr>arg_Gas := Some g\<rparr> else a) = a\<lparr>arg_Gas := Some (opt_else g (arg_Gas a))\<rparr>"
    for a :: TransactionArgs and g by (cases "arg_Gas a") (simp_all add: opt_else_def)
  have "SendTransaction E X b args w = execute_one E X b tx w1"
    using tx tx0 n(1) assms(4)
    by (simp add: SendTransaction_def Let_def who_def [symmetric] ToTransaction_def WithSignature_def a
        SignatureValues_def sent_tx_def sent_args_def NewSigner_def Signer_ChainID_def GetVMContext_def)
  moreover have "clock w \<le> clock w1" using n(2) by (simp add: cache_ext_def)
  ultimately show ?thesis using execute_one_ok [OF assms(1,2) ok1, of tx] tx by (auto intro: le_trans)
qed

section \<open>Calls that go upstream, and queries\<close>

lemma CallPassthrough_ok:
  assumes "node_ok E b w" "backend_db b = Some db"
  shows "\<exists>diff w'. CallPassthrough E X b args None w =
      Some (case n_eth_call X (clock w') (toCallArg (preprocessArgs E b args)) ''latest'' diff of
              Inl err \<Rightarrow> Inl (Err err) | Inr hex \<Rightarrow> Inr hex, b, w'\<lparr>clock := Suc (clock w')\<rparr>) \<and>
    kept E w (w'\<lparr>clock := Suc (clock w')\<rparr>) \<and>
    (\<forall>a k. overridden E (blockNumber w) diff a k =
       (balance_of E w db a, nonce_of E w db a, code_of E w db a, slot_of E w db (a, k)))"
proof -
  have db: "db_ok E db w" "stateBN db" using node_db [OF assms(1)] assms(2) by auto
  obtain diff w' where d: "GetStateDiff E db w = Some (diff, w')" "grown E w w'"
    "\<forall>a k. overridden E (blockNumber w) diff a k =
       (balance_of E w db a, nonce_of E w db a, code_of E w db a, slot_of E w db (a, k))"
    using GetStateDiff_ok [OF db(1)] by blast
  have "kept E w' (w'\<lparr>clock := Suc (clock w')\<rparr>)" using d(2) by (intro kept_cong) (simp_all add: grown_def)
  then have "kept E w (w'\<lparr>clock := Suc (clock w')\<rparr>)" by (rule kept_trans [OF grown_kept [OF d(2)]])
  with d assms(2) db(2) show ?thesis
    by (intro exI [of _ diff] exI [of _ w']) (simp add: CallPassthrough_def StateBlockNumber_def ask_def Let_def)
qed

lemma Eth_Call_ok:
  assumes "machine_ok X" "node_ok E b w"
  shows "\<exists>r a' w'. Eth_Call E X b args number ov w = Some (r, b\<lparr>b_EVM := a'\<rparr>, w') \<and>
    same_evm (b_EVM b) a' \<and> kept E w w'"
proof (cases "b_Passthrough b")
  case True
  obtain db where db: "backend_db b = Some db" using node_db [OF assms(2)] by blast
  from CallPassthrough_ok [OF assms(2) db, of X args] obtain r w' where
    c: "CallPassthrough E X b args None w = Some (r, b, w')" "kept E w w'" by blast
  have "b\<lparr>b_EVM := b_EVM b\<rparr> = b" by simp
  with c True show ?thesis
    by (intro exI [of _ "case r of Inl err \<Rightarrow> ([], Some err) | Inr hex \<Rightarrow> (hex, None)"] exI [of _ "b_EVM b"] exI [of _ w'])
      (simp add: Eth_Call_def)
qed (use CallLocal_ok [OF assms] in \<open>simp add: Eth_Call_def\<close>)

lemma pool_logs_ok:
  assumes "db_ok E db w"
  shows "\<exists>ls. pool_logs X db ts w = Some ls"
  using assms db_ok_parts [OF assms] by (induction ts) (auto simp: GetLogs_ok)

lemma GetLogs_kept:
  assumes "node_ok E b w"
  shows "\<exists>r w'. Eth_GetLogs E X b crit w = Some (r, w') \<and> kept E w w'"
proof -
  obtain db where db: "backend_db b = Some db" "db_ok E db w" using node_db [OF assms] by blast
  obtain ls where "pool_logs X db (fst (GetPoolTxs (b_TxPool b))) w = Some ls" using pool_logs_ok [OF db(2)] by blast
  with db(1) kept_refl [OF node_wf [OF assms]] kept_ask [OF node_wf [OF assms], of "\<lambda>t. n_FilterLogs X t crit"] show ?thesis
    by (auto simp: Eth_GetLogs_def split: sum.split prod.split)
qed

lemma BlockByNumber_kept:
  assumes "wf_world E w"
  shows "\<exists>r w'. GetBlockByNumber X b number full w = Some (r, w') \<and> kept E w w'"
proof -
  have "RPCMarshalBlock (g_tx X) (g_hdr X) block True False \<noteq> Inl err" for block err
    by (simp add: RPCMarshalBlock_def)
  then show ?thesis using kept_refl [OF assms] kept_ask [OF assms, of "\<lambda>t. n_BlockByNumber X t _"]
    by (auto simp: GetBlockByNumber_def split: sum.split prod.split)
qed

lemma BlockByHash_kept:
  assumes "wf_world E w"
  shows "\<exists>r w'. GetBlockByHash X b h full w = Some (r, w') \<and> kept E w w'"
proof -
  obtain res w1 where a: "ask (\<lambda>t. n_BlockByHash X t h) w = (res, w1)" by fastforce
  note k = kept_ask [OF assms a]
  show ?thesis
  proof (cases res)
    case (Inl err)
    with a BlockByNumber_kept [OF kept_below(2) [OF k], of X b LatestBlockNumber full] kept_trans [OF k] show ?thesis
      by (auto simp: GetBlockByHash_def)
  qed (use a k in \<open>simp add: GetBlockByHash_def\<close>)
qed

lemma TransactionByHash_kept:
  assumes "wf_world E w" "Eth_GetTransactionByHash E X b h w = (r, w')"
  shows "kept E w w'"
  using assms kept_refl [OF assms(1)] kept_ask [OF assms(1), of "n_BlockNumber X"]
  by (auto simp: Eth_GetTransactionByHash_def Eth_BlockNumber_def Let_def split: option.splits sum.splits prod.splits)

end
