(* ===== verification/NodeMoves.thy ===== *)
theory NodeMoves
  imports NodeCalls
begin

text \<open>
  Handlers that move or clear the state (\<^verbatim>\<open>ClearTxPool\<close>, \<^verbatim>\<open>ClearKeyCache\<close>, \<^verbatim>\<open>ResetState\<close>,
  \<^verbatim>\<open>ReExecTxPool\<close>) and the replay of one transaction of the pool.
\<close>

section \<open>Back to the root\<close>

lemma InitState_root:
  assumes "db_ok E db w" "stateBN db"
  shows "\<exists>db' w' cl w1. InitState E db False False w = Some (db', w') \<and> moved E (db, w) (db', w') \<and>
    view E w' (state db') = uval E (blockNumber w) \<and> CloneFromRoot E db w = Some (cl, w1) \<and>
    contents E cl w1 = (contents E db' w')\<lparr>j_refund := 0\<rparr>"
proof -
  note p = db_ok_parts [OF assms(1)]
  from CloneFromRoot_ok [OF assms(1)] obtain root where
    r: "getRootState (state db) w = Some root" "parent (heap w ! root) = None" and r': "root < length (heap w)"
    and cl: "CloneFromRoot E db w = Some (fresh_db (length (heap w)), w\<lparr>heap := heap w @ [fresh_layer E ''from root'' root w]\<rparr>)"
    by blast
  let ?w' = "w\<lparr>heap := heap w @ [fresh_layer E ''reset and protect underlying'' root w]\<rparr>"
  let ?db' = "db\<lparr>state := length (heap w)\<rparr>"
  have "InitState E db False False w = Some (?db', ?w')"
    using r(1) assms(2) by (simp add: InitState_def Derive_eq)
  moreover have "view E ?w' (length (heap w)) = uval E (blockNumber w)"
    using view_Derive_new [OF p(3) r', of "''reset and protect underlying''"] r(2)
    by (simp add: fun_eq_iff view_def [of E w root] overlay.simps)
  moreover have "moved E (db, w) (?db', ?w')"
    using p wf_world_Derive [OF p(3) r'] only_append [OF only_refl [OF p(5)]] 
    by (auto simp: moved_def db_ok_def same_config_def nth_append fresh_layer_def)
  moreover have "contents E (fresh_db (length (heap w))) (w\<lparr>heap := heap w @ [fresh_layer E ''from root'' root w]\<rparr>) =
      (contents E ?db' ?w')\<lparr>j_refund := 0\<rparr>"
    using contents_derived [OF p(3) r', of db] contents_derived [OF p(3) r', of "fresh_db 0" "''from root''"] by (simp add: fresh_db_def)
  ultimately show ?thesis using cl by auto
qed

text \<open>The funds that \<^verbatim>\<open>InitFakeAccounts\<close> hands out.\<close>

definition fund :: "address \<times> int \<Rightarrow> (RequestType \<Rightarrow> address \<Rightarrow> hash \<Rightarrow> bytes) \<Rightarrow> RequestType \<Rightarrow> address \<Rightarrow> hash \<Rightarrow> bytes" where
  "fund = (\<lambda>(a, d) v action b k. if action = GET_BALANCE \<and> b = a
     then big_Bytes (big_SetBytes (v GET_BALANCE a 0) + d) else v action b k)"

definition fund_list :: "env \<Rightarrow> (address \<times> int) list" where
  "fund_list E = [(FAKE_ACCOUNT_0, 10 ^ 21), (FAKE_ACCOUNT_1, 10 ^ 21), (FAKE_ACCOUNT_2, 10 ^ 21),
     (FAKE_ACCOUNT_3, 10 ^ 21), (FAKE_ACCOUNT_RICH E, 10 ^ 27)]"

definition funded :: "env \<Rightarrow> (RequestType \<Rightarrow> address \<Rightarrow> hash \<Rightarrow> bytes) \<Rightarrow> RequestType \<Rightarrow> address \<Rightarrow> hash \<Rightarrow> bytes" where
  "funded E v = fold fund (fund_list E) v"

lemma funded_others: "action \<noteq> GET_BALANCE \<or> a \<notin> fst ` set (fund_list E) \<Longrightarrow> funded E v action a k = v action a k"
  by (auto simp: funded_def fund_list_def fund_def)

lemma AddBalance_fund:
  assumes "db_ok E db w"
  shows "\<exists>w'. AddBalance E db a d w = Some w' \<and> moved E (db, w) (db, w') \<and>
    view E w' (state db) = fund (a, d) (view E w (state db)) \<and> contents E db w' = credit (a, d) (contents E db w)"
  using AddBalance_ok [OF assms, of a d] moved_AddBalance [OF assms, of a d] contents_AddBalance [OF assms, of a d]
  by (auto simp: fund_def balance_of_def fun_eq_iff)

lemma InitFakeAccounts_ok:
  assumes "db_ok E db w"
  shows "\<exists>w'. InitFakeAccounts E db w = Some w' \<and> moved E (db, w) (db, w') \<and>
    view E w' (state db) = funded E (view E w (state db)) \<and> contents E db w' = fold credit (fund_list E) (contents E db w)"
proof -
  let ?k = "10 ^ 18 * 1000" and ?r = "10 ^ 18 * 1000000000"
  obtain w1 where 1: "AddBalance E db FAKE_ACCOUNT_0 ?k w = Some w1" "moved E (db, w) (db, w1)"
      "view E w1 (state db) = fund (FAKE_ACCOUNT_0, ?k) (view E w (state db))"
      "contents E db w1 = credit (FAKE_ACCOUNT_0, ?k) (contents E db w)"
    using AddBalance_fund [OF assms] by blast
  obtain w2 where 2: "AddBalance E db FAKE_ACCOUNT_1 ?k w1 = Some w2" "moved E (db, w1) (db, w2)"
      "view E w2 (state db) = fund (FAKE_ACCOUNT_1, ?k) (view E w1 (state db))"
      "contents E db w2 = credit (FAKE_ACCOUNT_1, ?k) (contents E db w1)"
    using AddBalance_fund [OF moved_parts(1) [OF 1(2)]] by blast
  obtain w3 where 3: "AddBalance E db FAKE_ACCOUNT_2 ?k w2 = Some w3" "moved E (db, w2) (db, w3)"
      "view E w3 (state db) = fund (FAKE_ACCOUNT_2, ?k) (view E w2 (state db))"
      "contents E db w3 = credit (FAKE_ACCOUNT_2, ?k) (contents E db w2)"
    using AddBalance_fund [OF moved_parts(1) [OF 2(2)]] by blast
  obtain w4 where 4: "AddBalance E db FAKE_ACCOUNT_3 ?k w3 = Some w4" "moved E (db, w3) (db, w4)"
      "view E w4 (state db) = fund (FAKE_ACCOUNT_3, ?k) (view E w3 (state db))"
      "contents E db w4 = credit (FAKE_ACCOUNT_3, ?k) (contents E db w3)"
    using AddBalance_fund [OF moved_parts(1) [OF 3(2)]] by blast
  obtain w5 where 5: "AddBalance E db (FAKE_ACCOUNT_RICH E) ?r w4 = Some w5" "moved E (db, w4) (db, w5)"
      "view E w5 (state db) = fund (FAKE_ACCOUNT_RICH E, ?r) (view E w4 (state db))"
      "contents E db w5 = credit (FAKE_ACCOUNT_RICH E, ?r) (contents E db w4)"
    using AddBalance_fund [OF moved_parts(1) [OF 4(2)]] by blast
  have "moved E (db, w) (db, w5)"
    by (rule moved_trans [OF 1(2) moved_trans [OF 2(2) moved_trans [OF 3(2) moved_trans [OF 4(2) 5(2)]]]])
  moreover have "view E w5 (state db) = funded E (view E w (state db))"
    by (simp add: 1(3) 2(3) 3(3) 4(3) 5(3) funded_def fund_list_def)
  moreover have "contents E db w5 = fold credit (fund_list E) (contents E db w)"
    by (simp add: 1(4) 2(4) 3(4) 4(4) 5(4) fund_list_def)
  ultimately show ?thesis using 1(1) 2(1) 3(1) 4(1) 5(1) by (simp add: InitFakeAccounts_def)
qed

lemma StateDB_AddGasPool [simp]: "StateDB (AddGasPool a) = StateDB a"
  by (simp add: AddGasPool_def)

lemma ClearTxPool_ok:
  assumes "node_ok E b w"
  shows "\<exists>b' w' db'. ClearTxPool E b w = Some (b', w') \<and> node_ok E b' w' \<and> b_TxPool b' = NewMferTxPool \<and>
    backend_db b' = Some db' \<and> blockNumber w' = blockNumber w \<and>
    view E w' (state db') = funded E (uval E (blockNumber w)) \<and>
    (\<exists>db cl w1. backend_db b = Some db \<and> CloneFromRoot E db w = Some (cl, w1) \<and>
       fold credit (fund_list E) (contents E cl w1) = (contents E db' w')\<lparr>j_refund := 0\<rparr>)"
proof -
  obtain db where db: "backend_db b = Some db" "db_ok E db w" "stateBN db" using node_db [OF assms] by blast
  obtain db' w1 cl wc where i: "InitState E db False False w = Some (db', w1)" "moved E (db, w) (db', w1)"
    "view E w1 (state db') = uval E (blockNumber w)" "CloneFromRoot E db w = Some (cl, wc)"
    "contents E cl wc = (contents E db' w1)\<lparr>j_refund := 0\<rparr>" using InitState_root [OF db(2,3)] by blast
  obtain w2 where f: "InitFakeAccounts E db' w1 = Some w2" "moved E (db', w1) (db', w2)"
    "view E w2 (state db') = funded E (view E w1 (state db'))"
    "contents E db' w2 = fold credit (fund_list E) (contents E db' w1)" using InitFakeAccounts_ok [OF moved_parts(1) [OF i(2)]] by blast
  have "fold credit (fund_list E) (contents E cl wc) = (contents E db' w2)\<lparr>j_refund := 0\<rparr>"
    unfolding i(5) f(4) by (simp add: fund_list_def credit_refund)
  note funds = this and m = moved_trans [OF i(2) f(2)]
  let ?b = "b\<lparr>b_TxPool := NewMferTxPool\<rparr>"
  have "node_ok E ?b w" using assms by (simp add: node_ok_def backend_db_def pool_ok_def NewMferTxPool_def)
  from node_moved [OF this _ m, of "AddGasPool (b_EVM b)"]
  have "node_ok E (store_db (AddGasPool (b_EVM b)) db' ?b) w2"
    using db(1) by (simp add: backend_db_def)
  moreover have "(AddGasPool (b_EVM b))\<lparr>StateDB := Some db'\<rparr> = AddGasPool ((b_EVM b)\<lparr>StateDB := Some db'\<rparr>)"
    by (simp add: AddGasPool_def)
  moreover have "blockNumber w2 = blockNumber w" using moved_parts(2) [OF m] by (simp add: only_def)
  ultimately show ?thesis using db(1) i f(1,3) funds
    by (simp add: ClearTxPool_def ResetToRoot_def TxPool.Reset_def NewMferTxPool_def backend_db_def store_db_def)
qed

section \<open>To a new block\<close>

lemma stale_of_ok:
  assumes "db_ok E db w" "heap w' = heap w"
  obtains root where "getRootState (state db) w' = Some root" "stale_root E w' root"
proof -
  note p = db_ok_parts [OF assms(1)]
  have "wf_heap (heap w')" "state db < length (heap w')" using p assms(2) by simp_all
  from getRootState_ok [OF this] obtain root where
    r: "getRootState (state db) w' = Some root" "root \<le> state db" "parent (heap w' ! root) = None" by blast
  moreover have "root_ok E (blockNumber w) (heap w ! root)" using p(3,5) r(2,3) assms(2) by (simp add: wf_world_def)
  ultimately show ?thesis using that p(3,4,5) assms(2) by (simp add: stale_root_def root_ok_def wf_world_def)
qed

definition reachable_from :: "env \<Rightarrow> nat \<Rightarrow> bool" where
  "reachable_from E t0 \<longleftrightarrow> (\<forall>t\<ge>t0. rpc_fail E t = None)"

lemma ClearKeyCache_ok:
  assumes "node_ok E b w" "reachable_from E (clock w)"
  shows "\<exists>b' w'. ClearKeyCache E b w = Some (b', w') \<and> node_ok E b' w' \<and> b_TxPool b' = b_TxPool b"
proof -
  obtain db where db: "backend_db b = Some db" "db_ok E db w" "stateBN db" "\<not> openfile_err E (cacheFilePath db)"
    using node_db [OF assms(1)] by blast
  obtain root where r: "getRootState (state db) w = Some root" "stale_root E w root" using stale_of_ok [OF db(2)] by blast
  from InitState_ok [OF db_ok_parts(1) [OF db(2)] assms(2) [unfolded reachable_from_def] r db(3,4), of True]
  obtain s w' where "InitState E db True True w = Some (db\<lparr>state := s\<rparr>, w')" "db_ok E (db\<lparr>state := s\<rparr>) w'" "bigs w' = bigs w"
    by blast
  then show ?thesis using assms(1) db(1,3,4)
    by (auto simp: ClearKeyCache_def node_ok_def store_db_def backend_db_def)
qed

definition headers_ok :: "'t geth \<Rightarrow> bool" where
  "headers_ok X \<longleftrightarrow> (\<forall>t tag. \<exists>h. n_getBlockByNumber X t tag = Inr (Some (Some h)))"

definition header_tag :: "'t MferEVM \<Rightarrow> world \<Rightarrow> string" where
  "header_tag a w = (if pinBlock a then ''0x'' @ fmt_x (uint (blockNumber w)) else ''latest'')"

definition kept_cells :: "world \<Rightarrow> world \<Rightarrow> bool" where
  "kept_cells w w' \<longleftrightarrow> heap w' = heap w \<and> blockNumber w' = blockNumber w \<and> keyCacheFile w' = keyCacheFile w \<and>
     clock w \<le> clock w' \<and> length (bigs w') = length (bigs w)"

lemma kept_cellsD: "wf_world E w \<Longrightarrow> kept_cells w w' \<Longrightarrow> kept E w w'"
  unfolding kept_cells_def by (rule kept_cong) auto

lemma setVMContext_ok:
  assumes "headers_ok X"
  shows "\<exists>header a' w'. setVMContext X a w = (Some header, a', w') \<and> same_evm a a' \<and> kept_cells w w' \<and>
    n_getBlockByNumber X (clock w) (header_tag a w) = Inr (Some (Some header)) \<and>
    keyCacheFilePath a' = keyCacheFilePath a \<and> evm_maxKeyCache a' = evm_maxKeyCache a \<and>
    evm_batchSize a' = evm_batchSize a"
proof -
  obtain h where "n_getBlockByNumber X (clock w) (header_tag a w) = Inr (Some (Some h))"
    using assms unfolding headers_ok_def by blast
  then show ?thesis
    by (auto simp: setVMContext_def GetBlockHeader_def header_tag_def ask_def Let_def same_evm_def cells_def kept_cells_def)
qed

text \<open>The state that \<^verbatim>\<open>Prepare\<close> works out for a root whose cache may be out of date.\<close>

lemma InitState_funded:
  assumes "upstream_ok E" "\<forall>t\<ge>clock w. rpc_fail E t = None" "getRootState (state db) w = Some root" "stale_root E w root"
    "stateBN db" "\<not> openfile_err E (cacheFilePath db)"
  obtains s w1 w2 where "InitState E db True False w = Some (db\<lparr>state := s\<rparr>, w1)" "InitFakeAccounts E (db\<lparr>state := s\<rparr>) w1 = Some w2"
    "db_ok E (db\<lparr>state := s\<rparr>) w2" "bigs w2 = bigs w" "blockNumber w2 = blockNumber w" "clock w \<le> clock w2"
    "view E w2 s = funded E (uval E (blockNumber w))"
proof -
  from InitState_ok [OF assms, of False] obtain s w1 where
    i: "InitState E db True False w = Some (db\<lparr>state := s\<rparr>, w1)" "db_ok E (db\<lparr>state := s\<rparr>) w1"
      "blockNumber w1 = blockNumber w" "bigs w1 = bigs w" "clock w \<le> clock w1" "view E w1 s = uval E (blockNumber w)" by blast
  obtain w2 where f: "InitFakeAccounts E (db\<lparr>state := s\<rparr>) w1 = Some w2" "moved E (db\<lparr>state := s\<rparr>, w1) (db\<lparr>state := s\<rparr>, w2)"
    "view E w2 (state (db\<lparr>state := s\<rparr>)) = funded E (view E w1 (state (db\<lparr>state := s\<rparr>)))" using InitFakeAccounts_ok [OF i(2)] by blast
  from that [OF i(1) f(1) moved_parts(1) [OF f(2)]] show thesis
    using moved_parts(2) [OF f(2)] f(3) i(3-6) by (simp add: only_def)
qed

lemma Prepare_ok:
  assumes "node_ok E b w" "reachable_from E (clock w)" "headers_ok X"
  shows "\<exists>err a' w'. Prepare E X (b_EVM b) w = Some (err, a', w') \<and> node_ok E (b\<lparr>b_EVM := a'\<rparr>) w' \<and>
    clock w \<le> clock w' \<and>
    (err = None \<longrightarrow> (\<exists>header db'. StateDB a' = Some db' \<and>
       n_getBlockByNumber X (Suc (clock w)) (header_tag (b_EVM b) w) = Inr (Some (Some header)) \<and>
       blockNumber w' = big_Uint64 (hd_Number header) \<and>
       view E w' (state db') = funded E (uval E (blockNumber w'))))"
proof -
  obtain db where db: "backend_db b = Some db" "db_ok E db w" "stateBN db" "\<not> openfile_err E (cacheFilePath db)"
    using node_db [OF assms(1)] by blast
  obtain res w1 where q: "ask (n_ChainID X) w = (res, w1)" by fastforce
  then have w1: "w1 = w\<lparr>clock := Suc (clock w)\<rparr>" by (simp add: ask_def)
  show ?thesis
  proof (cases res)
    case (Inl err)
    have "b\<lparr>b_EVM := b_EVM b\<rparr> = b" by simp
    with Inl q node_kept [OF assms(1) kept_ask [OF node_wf [OF assms(1)] q]] show ?thesis
      by (intro exI [of _ "Some err"] exI [of _ "b_EVM b"] exI [of _ w1]) (simp add: Prepare_def w1)
  next
    case (Inr chain)
    let ?n = "length (bigs w)"
    define w2 where "w2 = w1\<lparr>bigs := bigs w1 @ [0, 0, 0, 0]\<rparr>"
    define a2 where "a2 = (b_EVM b)\<lparr>chainConfig := \<lparr>cc_ChainID = chain, cc_ByzantiumBlock = 0, cc_ConstantinopleBlock = 0\<rparr>,
      vmContext := \<lparr>bc_Coinbase = 0xaabbccddaabbccddaabbccddaabbccddaabbccdd, bc_GasLimit = 0,
        bc_BaseFee = ?n, bc_BlockNumber = ?n + 1, bc_Time = ?n + 2, bc_Difficulty = ?n + 3\<rparr>\<rparr>"
    obtain header a3 w3 where v: "setVMContext X a2 w2 = (Some header, a3, w3)" "same_evm a2 a3" "kept_cells w2 w3"
      "n_getBlockByNumber X (clock w2) (header_tag a2 w2) = Inr (Some (Some header))"
      using setVMContext_ok [OF assms(3), of a2 w2] by blast
    let ?w4 = "SetBlockNumber (big_Uint64 (hd_Number header)) w3"
    have h4: "heap ?w4 = heap w" "clock w \<le> clock ?w4" "length (bigs ?w4) = ?n + 4"
      using v(3) by (simp_all add: SetBlockNumber_def kept_cells_def w2_def w1)
    obtain root where r: "getRootState (state db) ?w4 = Some root" "stale_root E ?w4 root"
      using stale_of_ok [OF db(2) h4(1)] by blast
    have up: "\<forall>t\<ge>clock ?w4. rpc_fail E t = None" using assms(2) h4(2) by (auto simp: reachable_from_def)
    obtain s w6 w7 where
      i: "InitState E db True False ?w4 = Some (db\<lparr>state := s\<rparr>, w6)" "InitFakeAccounts E (db\<lparr>state := s\<rparr>) w6 = Some w7"
        "db_ok E (db\<lparr>state := s\<rparr>) w7" "bigs w7 = bigs ?w4" "blockNumber w7 = blockNumber ?w4" "clock ?w4 \<le> clock w7"
        "view E w7 s = funded E (uval E (blockNumber ?w4))"
      using InitState_funded [OF db_ok_parts(1) [OF db(2)] up r db(3,4)] by blast
    let ?db' = "db\<lparr>state := s\<rparr>"
    let ?a' = "AddGasPool (a3\<lparr>StateDB := Some ?db'\<rparr>)"
    have sd: "StateDB a3 = Some db" using v(2) db(1) by (simp add: same_evm_def a2_def backend_db_def)
    have "Prepare E X (b_EVM b) w = Some (None, ?a', w7)"
      using q Inr v(1) sd i(1,2) by (simp add: Prepare_def a2_def w2_def w1 Let_def)
    moreover have "cells (vmContext ?a') = [?n, ?n + 1, ?n + 2, ?n + 3]"
      using v(2) by (simp add: same_evm_def a2_def cells_def AddGasPool_def)
    then have "node_ok E (b\<lparr>b_EVM := ?a'\<rparr>) w7"
      using assms(1) i(3) db(3,4) h4(3) by (simp add: node_ok_def backend_db_def AddGasPool_def i(4))
    moreover have "n_getBlockByNumber X (Suc (clock w)) (header_tag (b_EVM b) w) = Inr (Some (Some header))"
      using v(4) by (simp add: w2_def w1 header_tag_def a2_def cong: if_cong)
    moreover have "blockNumber w7 = big_Uint64 (hd_Number header)" by (simp add: i(5) SetBlockNumber_def)
    moreover have "clock w \<le> clock w7" using h4(2) i(6) by simp
    moreover have "view E w7 s = funded E (uval E (blockNumber w7))" using i(7) by (simp add: i(5))
    ultimately show ?thesis by (auto simp: AddGasPool_def)
  qed
qed

section \<open>Which tracer comes back\<close>

lemma run_quiet_map:
  "run_quiet step (map_evm_prog f q) s = map_option (\<lambda>(x, s'). (f x, s')) (run_quiet step q s)"
proof (induction q arbitrary: s)
  case (Call c k)
  then show ?case by (cases "step c s") auto
qed auto

lemma run_traced_map:
  assumes "\<And>e t. cap' e (f t) = map_evm_prog f (cap e t)"
  shows "run_traced step cap' p (f t) s = map_option (\<lambda>(r, t', s'). (r, f t', s')) (run_traced step cap p t s)"
proof (induction p arbitrary: s t)
  case (Call c k)
  then show ?case by (cases "step c s") auto
next
  case (Emit e p)
  then show ?case by (cases "run_quiet step (cap e t) s") (auto simp: assms run_quiet_map)
qed auto

lemma capture_any_kinds:
  "run_traced step (capture_any E X) p (External t) s =
     map_option (\<lambda>(r, t', s'). (r, External t', s')) (run_traced step (g_capture X) p t s)"
  "run_traced step (capture_any E X) p (Keccak k) s =
     map_option (\<lambda>(r, t', s'). (r, Keccak t', s')) (run_traced step (Keccak_capture (keccak256 E) (g_GetPtr X)) p k s)"
  "run_traced step (capture_any E X) p (StateT u) s =
     map_option (\<lambda>(r, t', s'). (r, StateT t', s')) (run_traced step State_capture p u s)"
  by (rule run_traced_map; simp)+

lemma DoCall_kind:
  assumes "DoCall E X a msg True db w = Some (res, a', db', w')"
  shows "a' = a\<lparr>tracer := tracer a'\<rparr>"
    and "tracer a = External t \<Longrightarrow> \<exists>t'. tracer a' = External t'"
    and "tracer a = StateT u \<Longrightarrow> \<exists>u'. tracer a' = StateT u'"
  using assms by (auto simp: DoCall_def Let_def bind_eq_Some_conv capture_any_kinds)

section \<open>Re-executing the pool\<close>

lemma node_pool: "node_ok E b w \<Longrightarrow> pool_ok p \<Longrightarrow> node_ok E (b\<lparr>b_TxPool := p\<rparr>) w"
  by (simp add: node_ok_def backend_db_def)

lemma ResetState_ok:
  assumes "node_ok E b w" "reachable_from E (clock w)" "headers_ok X"
  shows "\<exists>b' w'. ResetState E X b w = Some (b', w') \<and> node_ok E b' w' \<and> b_TxPool b' = b_TxPool b \<and> clock w \<le> clock w'"
  using Prepare_ok [OF assms] by (force simp: ResetState_def)

lemma ReExecTxPool_ok:
  assumes "machine_ok X" "tracers_build E X None"
    and "node_ok E b w" "reachable_from E (clock w)" "headers_ok X"
  shows "\<exists>err a1 w1 db1 results a2 db2 w2. Prepare E X (b_EVM b) w = Some (err, a1, w1) \<and>
    node_ok E (b\<lparr>b_EVM := a1\<rparr>) w1 \<and> StateDB a1 = Some db1 \<and>
    ExecuteTxs E X a1 (txs (b_TxPool b)) db1 None w1 = Some (results, a2, db2, w2) \<and> moved E (db1, w1) (db2, w2) \<and>
    ReExecTxPool E X b w = Some (store_db a2 db2 (b\<lparr>b_TxPool := SetResults results (b_TxPool b)\<rparr>), w2) \<and>
    node_ok E (store_db a2 db2 (b\<lparr>b_TxPool := SetResults results (b_TxPool b)\<rparr>)) w2 \<and>
    length results = length (txs (b_TxPool b)) \<and> clock w \<le> clock w2"
proof -
  obtain err a1 w1 where p: "Prepare E X (b_EVM b) w = Some (err, a1, w1)" "node_ok E (b\<lparr>b_EVM := a1\<rparr>) w1" "clock w \<le> clock w1"
    using Prepare_ok [OF assms(3-5)] by blast
  obtain db1 where db: "StateDB a1 = Some db1" "db_ok E db1 w1" using node_db [OF p(2)] by (auto simp: backend_db_def)
  obtain results a2 db2 w2 where e: "ExecuteTxs E X a1 (txs (b_TxPool b)) db1 None w1 = Some (results, a2, db2, w2)"
    "length results = length (txs (b_TxPool b))" "same_but_gas a1 a2" "moved E (db1, w1) (db2, w2)"
    using ExecuteTxs_ok [OF assms(1,2) db(2), of a1 "txs (b_TxPool b)"] by blast
  let ?p = "SetResults results (b_TxPool b)"
  have "pool_ok ?p" using e(2) by (simp add: pool_ok_def SetResults_def)
  note ok = node_pool [OF p(2) this]
  have "same_evm a1 a2" by (rule same_but_gas_evm [OF e(3)])
  with node_moved [OF ok _ e(4), of a2] db(1) have "node_ok E (store_db a2 db2 (b\<lparr>b_TxPool := ?p\<rparr>)) w2"
    by (simp add: backend_db_def store_db_def)
  moreover have "clock w \<le> clock w2" using moved_parts(2) [OF e(4)] p(3) by (simp add: only_def)
  ultimately show ?thesis using p db(1) e
    by (intro exI conjI) (auto simp: ReExecTxPool_def GetPoolTxs_def store_db_def Let_def)
qed

section \<open>Replaying\<close>

lemma GetBlockHeader_ok:
  assumes "headers_ok X"
  shows "\<exists>header. GetBlockHeader X tag w = (Some header, w\<lparr>clock := Suc (clock w)\<rparr>)"
proof -
  obtain h where "n_getBlockByNumber X (clock w) tag = Inr (Some (Some h))" using assms unfolding headers_ok_def by blast
  then show ?thesis by (simp add: GetBlockHeader_def ask_def)
qed

lemma replay_before_ok:
  assumes "machine_ok X" "tracers_build E X None" "node_ok E b w"
  shows "\<exists>a' c w'. replay_before E X b before w = Some (a', c, w') \<and> same_but_gas (b_EVM b) a' \<and>
    grown E w w' \<and> db_ok E c w' \<and> length (heap w) \<le> state c \<and>
    (\<exists>db cl w1 results. backend_db b = Some db \<and> CloneFromRoot E db w = Some (cl, w1) \<and>
       ledger_txs E X (block_env (vmContext (b_EVM b)) w) (b_EVM b) 0 before None (fold credit (fund_list E) (contents E cl w1)) =
         Some (results, gasPool a', contents E c w'))"
proof -
  obtain db where db: "backend_db b = Some db" "db_ok E db w" using node_db [OF assms(3)] by blast
  obtain c w1 where c: "CloneFromRoot E db w = Some (c, w1)" using CloneFromRoot_ok [OF db(2)] by blast
  note g = CloneFromRoot_grown [OF db(2) c]
  obtain w2 where f: "InitFakeAccounts E c w1 = Some w2" "moved E (c, w1) (c, w2)"
    "contents E c w2 = fold credit (fund_list E) (contents E c w1)" using InitFakeAccounts_ok [OF g(2)] by blast
  obtain rs gas c' w3 where e: "ExecuteTxs E X (b_EVM b) before c None w2 = Some (rs, (b_EVM b)\<lparr>gasPool := gas\<rparr>, c', w3)"
    "moved E (c, w2) (c', w3)"
    "ledger_txs E X (block_env (vmContext (b_EVM b)) w2) (b_EVM b) 0 before None (contents E c w2) = Some (rs, gas, contents E c' w3)"
    using ExecuteTxs_ledger [OF assms(1,2) moved_parts(1) [OF f(2)], of "b_EVM b" before] by blast
  note m = moved_trans [OF f(2) e(2)]
  have len: "length (heap w) \<le> state c" using g(3) by simp
  have "below (length (heap w)) w w1" using g(1) by (simp add: grown_def)
  note b = moved_above_grown [OF m this len]
  have "block_env (vmContext (b_EVM b)) w2 = block_env (vmContext (b_EVM b)) w"
    using g(1) moved_parts(2) [OF f(2)] by (simp add: block_env_def grown_def below_def only_def)
  then have "ledger_txs E X (block_env (vmContext (b_EVM b)) w) (b_EVM b) 0 before None (fold credit (fund_list E) (contents E c w1)) =
      Some (rs, gas, contents E c' w3)" using e(3) f(3) by simp
  moreover have "grown E w w3" using b moved_parts(1) [OF m] by (simp add: grown_def db_ok_def)
  moreover have "replay_before E X b before w = Some ((b_EVM b)\<lparr>gasPool := gas\<rparr>, c', w3)"
    using db(1) c f(1) e(1) by (simp add: replay_before_def)
  ultimately show ?thesis using db(1) c b(2) moved_parts(1) [OF m] same_but_gas_simps(2)
    by (intro exI [of _ "(b_EVM b)\<lparr>gasPool := gas\<rparr>"] exI [of _ c'] exI [of _ w3]) auto
qed

definition config_ok :: "TraceConfig option \<Rightarrow> bool" where
  "config_ok config \<longleftrightarrow> (case config of None \<Rightarrow> True | Some cfg \<Rightarrow> tc_Tracer cfg \<noteq> None \<or> tc_Config cfg \<noteq> None)"

lemma debug_tracer_ok: "config_ok config \<Longrightarrow> \<exists>t. debug_tracer X ctx config = Some t"
  unfolding debug_tracer_def config_ok_def log_config_def by (cases config) (auto split: option.split)

lemma TraceTransaction_ok:
  assumes "machine_ok X" "tracers_build E X None" "traced_ok E X" "headers_ok X" "config_ok config" "node_ok E b w"
  shows "\<exists>r a' w'. TraceTransaction E X b h config w = Some (r, b\<lparr>b_EVM := a'\<rparr>, w') \<and>
    same_evm (b_EVM b) a' \<and> kept E w w'"
proof -
  have b: "b\<lparr>b_EVM := b_EVM b\<rparr> = b" by simp
  note wf = node_wf [OF assms(6)]
  show ?thesis
  proof (cases "split_pool X h (b_TxPool b)")
    case None
    with b kept_refl [OF wf] show ?thesis
      by (intro exI [of _ "Inl (Err (not_found h))"] exI [of _ "b_EVM b"] exI [of _ w]) (simp add: TraceTransaction_def)
  next
    case (Some p)
    obtain before tx where p: "p = (before, tx)" by fastforce
    obtain header w1 where gh: "GetBlockHeader X ''latest'' w = (Some header, w1)"
      using GetBlockHeader_ok [OF assms(4)] by blast
    note k1 = header_kept [OF wf gh]
    let ?ctx = "\<lparr>tx_BlockHash = hd_ParentHash header, tx_TxHash = te_hash (g_tx X) tx, tx_TxIndex = int (length before)\<rparr>"
    obtain t where t: "debug_tracer X ?ctx config = Some t" using debug_tracer_ok [OF assms(5)] by blast
    show ?thesis
    proof (cases t)
      case (Inl err)
      with b k1 gh t Some p show ?thesis
        by (intro exI [of _ "Inl (Err err)"] exI [of _ "b_EVM b"] exI [of _ w1]) (simp add: TraceTransaction_def)
    next
      case (Inr trc)
      obtain a1 c w2 where r: "replay_before E X b before w1 = Some (a1, c, w2)" "same_but_gas (b_EVM b) a1"
        "grown E w1 w2" "db_ok E c w2" "length (heap w1) \<le> state c"
        using replay_before_ok [OF assms(1,2) node_kept [OF assms(6) k1], of before] by blast
      let ?a = "SetTracer (External trc) a1" and ?msg = "EVM_TxToMessage X (SetTracer (External trc) a1) tx"
      have "call_ok E X ?a ?msg True c w2" by (rule call_ok_traced [OF assms(3)]) (simp add: SetTracer_def)
      from DoCall_ok [OF r(4) this] obtain res t' c' w3 where
        d: "DoCall E X ?a ?msg True c w2 = Some (res, ?a\<lparr>tracer := t'\<rparr>, c', w3)" "moved E (c, w2) (c', w3)" by blast
      obtain u where u: "t' = External u" using DoCall_kind(2) [OF d(1), of trc] by (auto simp: SetTracer_def)
      have "kept E w w3" using kept_trans [OF k1 kept_moved(1) [OF grown_kept [OF r(3)] d(2) r(5)]] .
      moreover have "same_evm (b_EVM b) (?a\<lparr>tracer := t'\<rparr>)"
        using same_but_gas_evm [OF r(2)] by (simp add: same_evm_def SetTracer_def)
      ultimately show ?thesis using gh t Some p Inr r(1) d(1) u
        by (cases res) (auto simp: TraceTransaction_def Let_def)
    qed
  qed
qed

end
