(* ===== verification/NodeTraces.thy ===== *)
theory NodeTraces
  imports NodeMoves
begin

text \<open>
  Handlers that probe and trace: \<^verbatim>\<open>RunTxWithDifferentContext\<close>, \<^verbatim>\<open>StorageRangeAt\<close>, receipts, the
  blocks traced by \<^verbatim>\<open>traceBlocks\<close>; the background loop and the batch size.
\<close>

section \<open>Probing\<close>

lemma traced_keccak:
  assumes "traced_ok E X" "db_ok E db w"
  shows "\<exists>r t' db' w'. run_traced (db_step E) (Keccak_capture (keccak256 E) (g_GetPtr X)) (g_ApplyMessage X b c m g) t (db, w) =
      Some (r, t', db', w') \<and> moved E (db, w) (db', w')"
proof -
  let ?j = "abs_journal E (state db) db w" and ?p = "g_ApplyMessage X b c m g"
  have "j_saved ?j = []" by (simp add: abs_journal_def saved.simps)
  with assms(1) have "run_traced jstep (capture_any E X) ?p (Keccak t) ?j \<noteq> None"
    unfolding traced_ok_def by blast
  then obtain r t' j' where "run_traced jstep (Keccak_capture (keccak256 E) (g_GetPtr X)) ?p t ?j = Some (r, t', j')"
    by (auto simp: capture_any_kinds)
  from run_traced_on [OF assms(2) this] on_base_moved show ?thesis by blast
qed

lemma probe_run_ok:
  assumes "traced_ok E X" "db_ok E db w"
  shows "\<exists>res t' w'. probe_run E X ctx cfg msg t db w = Some (res, t', w') \<and> grown E w w'"
proof -
  obtain cl w1 where c: "Clone E db w = (cl, w1)" by fastforce
  note g = Clone_grown [OF assms(2) c]
  let ?p = "g_ApplyMessage X (block_env ctx w1) cfg msg (- 1)"
  obtain r t' cl' w2 where r: "run_traced (db_step E) (Keccak_capture (keccak256 E) (g_GetPtr X)) ?p t (cl, w1) = Some (r, t', cl', w2)"
    "moved E (cl, w1) (cl', w2)" using traced_keccak [OF assms(1) g(2)] by blast
  have "below (length (heap w)) w w1" using g(1) by (simp add: grown_def)
  from moved_above_grown(1) [OF r(2) this] g(3) moved_parts(1) [OF r(2)] have "grown E w w2"
    by (simp add: grown_def db_ok_def)
  moreover obtain res gp where "r = (res, gp)" by fastforce
  ultimately show ?thesis using c r(1) by (auto simp: probe_run_def Let_def)
qed

lemma probe_context_cells: "probe_context ctx w = (ctx', w') \<Longrightarrow> kept_cells w w'"
  by (auto simp: probe_context_def Let_def kept_cells_def)

definition bumped :: "BlockContext \<Rightarrow> int list \<Rightarrow> int list" where
  "bumped c xs = (let ys = xs[bc_Difficulty c := xs ! bc_Difficulty c + 1] in ys[bc_Time c := ys ! bc_Time c + 1])"

lemma grown_bigs: "grown E w w' \<Longrightarrow> bigs w' = bigs w"
  by (simp add: grown_def below_def)

lemma RunTx_ok:
  assumes "machine_ok X" "tracers_build E X None" "traced_ok E X" "node_ok E b w"
  shows "\<exists>r a' w'. RunTxWithDifferentContext E X b h w = Some (r, b\<lparr>b_EVM := a'\<rparr>, w') \<and>
    same_but_gas (b_EVM b) a' \<and> kept E w w' \<and>
    (case r of Inl err \<Rightarrow> bigs w' = bigs w \<or> bigs w' = bumped (vmContext (b_EVM b)) (bigs w)
     | Inr ops \<Rightarrow> bigs w' = bumped (vmContext (b_EVM b)) (bigs w))"
proof (cases "split_pool X h (b_TxPool b)")
  case None
  have "b\<lparr>b_EVM := b_EVM b\<rparr> = b" by simp
  with None kept_refl [OF node_wf [OF assms(4)]] show ?thesis
    by (intro exI [of _ "Inl (Err (not_found h))"] exI [of _ "b_EVM b"] exI [of _ w])
      (simp add: RunTxWithDifferentContext_def)
next
  case (Some p)
  obtain before tx where p: "p = (before, tx)" by fastforce
  obtain a1 c w1 where r: "replay_before E X b before w = Some (a1, c, w1)" "same_but_gas (b_EVM b) a1"
    "grown E w w1" "db_ok E c w1" "length (heap w) \<le> state c"
    using replay_before_ok [OF assms(1,2,4), of before] by blast
  let ?msg = "EVM_TxToMessage X a1 tx" and ?ctx = "GetVMContext a1" and ?cfg = "GetChainConfig a1"
  let ?w2 = "SetCodeHash E c (msg_From ?msg) 0 w1"
  note m = moved_SetCodeHash [OF r(4), of "msg_From ?msg" 0]
  have k2: "kept E w ?w2" using kept_moved(1) [OF grown_kept [OF r(3)] m r(5)] .
  have b2: "bigs ?w2 = bigs w" using moved_parts(2) [OF m] grown_bigs [OF r(3)] by (simp add: only_def)
  have ctx: "?ctx = vmContext (b_EVM b)"
    using arg_cong [OF r(2) [unfolded same_but_gas_def], of vmContext] by (simp add: GetVMContext_def)
  obtain res0 t w3 where p0: "probe_run E X ?ctx ?cfg ?msg NewKeccakTracer c ?w2 = Some (res0, t, w3)" "grown E ?w2 w3"
    using probe_run_ok [OF assms(3) moved_parts(1) [OF m]] by blast
  note k3 = kept_trans [OF k2 grown_kept [OF p0(2)]]
  show ?thesis
  proof (cases res0)
    case (Inl err)
    with Some p r(1,2) p0(1) k3 grown_bigs [OF p0(2)] b2 show ?thesis
      by (auto simp: RunTxWithDifferentContext_def Let_def)
  next
    case (Inr ops0)
    obtain ctx1 w4 where q: "probe_context ?ctx w3 = (ctx1, w4)" by fastforce
    have b4: "bigs w4 = bumped (vmContext (b_EVM b)) (bigs w)"
      using q grown_bigs [OF p0(2)] b2 ctx by (auto simp: probe_context_def bumped_def set_big_def Let_def)
    note k4 = kept_cellsD [OF kept_below(2) [OF k3] probe_context_cells [OF q]]
    have ok4: "db_ok E c w4" by (rule kept_db_ok [OF k4 grown_db_ok [OF p0(2) moved_parts(1) [OF m]]])
    obtain res1 t1 w5 where p1: "probe_run E X ctx1 ?cfg ?msg (Keccak_Reset t) c w4 = Some (res1, t1, w5)" "grown E w4 w5"
      using probe_run_ok [OF assms(3) ok4] by blast
    have "kept E w w5" using kept_trans [OF k3 kept_trans [OF k4 grown_kept [OF p1(2)]]] .
    then show ?thesis using Some p r(1,2) p0(1) q p1(1) Inr grown_bigs [OF p1(2)] b4
      by (cases res1) (auto simp: RunTxWithDifferentContext_def Let_def)
  qed
qed

section \<open>Listing storage\<close>

lemma touch_loop_ok:
  assumes "machine_ok X" "tracers_build E X None" "traced_ok E X"
    and "kept E w w1" "db_ok E c w1" "length (heap w) \<le> state c" "tracer a = StateT t"
  shows "\<exists>a' c' w2 t'. touch_loop E X transactions a c w1 = Some (a', c', w2) \<and> same_evm a a' \<and> tracer a' = StateT t' \<and>
    kept E w w2 \<and> db_ok E c' w2 \<and> length (heap w) \<le> state c'"
  using assms(4-)
proof (induction transactions arbitrary: a c w1 t)
  case (Cons tx rest)
  let ?msg = "EVM_TxToMessage X a tx"
  have "call_ok E X a ?msg True c w1" by (rule call_ok_traced [OF assms(3)]) (simp add: Cons.prems(4))
  from DoCall_ok [OF Cons.prems(2) this] obtain res t1 c1 w2 where
    d: "DoCall E X a ?msg True c w1 = Some (res, a\<lparr>tracer := t1\<rparr>, c1, w2)" "moved E (c, w1) (c1, w2)" by blast
  obtain u where u: "t1 = StateT u" using DoCall_kind(3) [OF d(1) Cons.prems(4)] by auto
  obtain rs a2 c2 w3 where e: "ExecuteTxs E X (a\<lparr>tracer := t1\<rparr>) [tx] c1 None w2 = Some (rs, a2, c2, w3)"
    "same_but_gas (a\<lparr>tracer := t1\<rparr>) a2" "moved E (c1, w2) (c2, w3)"
    using ExecuteTxs_ok [OF assms(1,2) moved_parts(1) [OF d(2)], of "a\<lparr>tracer := t1\<rparr>" "[tx]"] by blast
  note m = moved_trans [OF d(2) e(3)]
  have tr: "tracer a2 = StateT u" using arg_cong [OF e(2) [unfolded same_but_gas_def], of tracer] u by simp
  from Cons.IH [OF kept_moved(1) [OF Cons.prems(1) m Cons.prems(3)] moved_parts(1) [OF m]
      kept_moved(2) [OF Cons.prems(1) m Cons.prems(3)] tr]
  obtain a' c' w4 t' where i: "touch_loop E X rest a2 c2 w3 = Some (a', c', w4)" "same_evm a2 a'" "tracer a' = StateT t'"
    "kept E w w4" "db_ok E c' w4" "length (heap w) \<le> state c'" by blast
  have "same_evm a a'" using same_but_gas_evm [OF e(2)] i(2) by (simp add: same_evm_def)
  then show ?case using d(1) e(1) i by auto
qed (auto simp: same_evm_def)

lemma read_slots_ok:
  assumes "db_ok E db w"
  shows "\<exists>w'. read_slots E db a keys w = Some (map (\<lambda>k. (k, slot_of E w db (a, k))) keys, w') \<and> cache_ext w w' \<and> db_ok E db w'"
  using assms
proof (induction keys arbitrary: w)
  case (Cons k keys)
  obtain w1 where 1: "GetState E db a k w = Some (slot_of E w db (a, k), w1)" "cache_ext w w1" "db_ok E db w1"
    using getters_ok(6) [OF Cons.prems] by blast
  from Cons.IH [OF 1(3)] obtain w2 where 2: "read_slots E db a keys w1 = Some (map (\<lambda>k. (k, slot_of E w1 db (a, k))) keys, w2)"
    "cache_ext w1 w2" "db_ok E db w2" by blast
  with 1 shown_cache_ext(5) [OF Cons.prems 1(2)] show ?case by (auto intro: cache_ext_trans)
qed simp

lemma StorageRangeAt_ok:
  assumes "machine_ok X" "tracers_build E X None" "traced_ok E X" "node_ok E b w"
  shows "\<exists>r a' w'. StorageRangeAt E X b ref contract w = Some (r, b\<lparr>b_EVM := a'\<rparr>, w') \<and>
    same_evm (b_EVM b) a' \<and> kept E w w'"
proof (cases "ref_found X ref (fst (GetPoolTxs (b_TxPool b)))")
  case (Some err)
  have "b\<lparr>b_EVM := b_EVM b\<rparr> = b" by simp
  with Some kept_refl [OF node_wf [OF assms(4)]] show ?thesis
    by (intro exI [of _ "Inl (Err err)"] exI [of _ "b_EVM b"] exI [of _ w]) (simp add: StorageRangeAt_def)
next
  case None
  let ?txs = "fst (GetPoolTxs (b_TxPool b))" and ?a = "SetTracer (StateT NewStateTracer) (b_EVM b)"
  obtain db where db: "backend_db b = Some db" "db_ok E db w" using node_db [OF assms(4)] by blast
  obtain c w1 where c: "CloneFromRoot E db w = Some (c, w1)" using CloneFromRoot_ok [OF db(2)] by blast
  note g = CloneFromRoot_grown [OF db(2) c]
  obtain w2 where f: "InitFakeAccounts E c w1 = Some w2" "moved E (c, w1) (c, w2)"
    using InitFakeAccounts_ok [OF g(2)] by blast
  have len: "length (heap w) \<le> state c" using g(3) by simp
  obtain a1 c1 w3 t where l: "touch_loop E X ?txs ?a c w2 = Some (a1, c1, w3)" "same_evm ?a a1" "tracer a1 = StateT t"
    "kept E w w3" "db_ok E c1 w3"
    using touch_loop_ok [OF assms(1-3) kept_moved(1) [OF grown_kept [OF g(1)] f(2) len] moved_parts(1) [OF f(2)] len, of ?a NewStateTracer ?txs]
    by (auto simp: SetTracer_def)
  let ?keys = "map fst (case map_of (State_GetResult t) contract of Some m \<Rightarrow> m | None \<Rightarrow> [])"
  obtain w4 where s: "read_slots E c1 contract ?keys w3 = Some (map (\<lambda>k. (k, slot_of E w3 c1 (contract, k))) ?keys, w4)"
    "cache_ext w3 w4" "db_ok E c1 w4" using read_slots_ok [OF l(5)] by blast
  have "kept E w w4" using kept_trans [OF l(4) kept_cache_ext [OF _ s(2)]] s(3) by (simp add: db_ok_def)
  moreover have "same_evm (b_EVM b) a1" using l(2) by (simp add: same_evm_def SetTracer_def)
  ultimately show ?thesis using None db(1) c f(1) l(1,3) s(1) by (auto simp: StorageRangeAt_def Let_def)
qed

section \<open>Receipts\<close>

lemma receipt_walk_ok:
  assumes "wf_heap (heap w)" "r < length (heap w)"
  shows "\<exists>found. receipt_walk r h w = Some found \<and>
    (\<forall>t rc. found = Some (t, rc) \<longrightarrow> t < length (heap w) \<and> parent (heap w ! t) \<noteq> None)"
  using assms(2)
proof (induction r rule: less_induct)
  case (less r)
  show ?case
  proof (cases "parent (heap w ! r)")
    case None
    then show ?thesis by (subst receipt_walk.simps) (simp add: st_def)
  next
    case (Some p)
    then have "p < r" using wf_heap_parent [OF assms(1) less.prems] by simp
    with less.IH [of p] less.prems Some show ?thesis
      by (subst receipt_walk.simps) (auto simp: st_def split: option.split)
  qed
qed

text \<open>Looking up a receipt stores its current logs in it; every database stays usable.\<close>

definition same_states :: "env \<Rightarrow> world \<Rightarrow> world \<Rightarrow> bool" where
  "same_states E w w' \<longleftrightarrow> (\<forall>db. db_ok E db w \<longrightarrow> db_ok E db w') \<and> length (bigs w') = length (bigs w)"

lemma same_states_trans: "same_states E w w1 \<Longrightarrow> same_states E w1 w2 \<Longrightarrow> same_states E w w2"
  by (auto simp: same_states_def)

lemma kept_states: "kept E w w' \<Longrightarrow> same_states E w w'"
  using kept_db_ok by (auto simp: same_states_def kept_def)

lemma moved_states: "moved E (db, w) (db', w') \<Longrightarrow> db_ok E db w \<Longrightarrow> same_states E w w'"
  using moved_other_ok moved_parts(2) by (fastforce simp: same_states_def only_def)

lemma GetReceipt_states:
  assumes "db_ok E db w"
  shows "\<exists>rc w'. GetReceipt db h w = Some (rc, w') \<and> same_states E w w'"
proof -
  note p = db_ok_parts [OF assms]
  obtain found where f: "receipt_walk (state db) h w = Some found"
    "\<And>t rc. found = Some (t, rc) \<Longrightarrow> t < length (heap w) \<and> parent (heap w ! t) \<noteq> None"
    using receipt_walk_ok [OF p(4,5), of h] by blast
  show ?thesis
  proof (cases found)
    case (Some tr)
    obtain t rc where tr: "tr = (t, rc)" by fastforce
    let ?f = "\<lambda>x. x\<lparr>receipts := AList.update h (rc\<lparr>rcpt_Logs := logs_at (heap w) (state db) h\<rparr>) (receipts x)\<rparr>"
    have t: "t < length (heap w)" "parent (heap w ! t) \<noteq> None" using f(2) Some tr by auto
    have "wf_world E (upd_st t ?f w)"
      by (rule wf_world_layer_update) (use p t in \<open>auto simp: wf_heap_def\<close>)
    then have "same_states E w (upd_st t ?f w)"
      using t by (auto simp: same_states_def db_ok_def heap_upd_st)
    then show ?thesis using f(1) p by (simp add: GetReceipt_def Some tr GetLogs_ok Let_def)
  qed (use f(1) in \<open>simp add: GetReceipt_def same_states_def\<close>)
qed

lemma node_states: "node_ok E b w \<Longrightarrow> same_states E w w' \<Longrightarrow> node_ok E b w'"
  by (auto simp: node_ok_def same_states_def)

lemma Receipt_ok:
  assumes "node_ok E b w"
  shows "\<exists>r w'. Eth_GetTransactionReceipt E X b h w = Some (r, w') \<and> node_ok E b w'"
proof -
  obtain db where db: "backend_db b = Some db" "db_ok E db w" using node_db [OF assms] by blast
  obtain i otx where g: "GetTransactionByHash (te_hash (g_tx X)) h (b_TxPool b) = (i, otx)" by fastforce
  show ?thesis
  proof (cases otx)
    case None
    then show ?thesis using g assms by (simp add: Eth_GetTransactionReceipt_def)
  next
    case (Some tx)
    obtain rc w1 where r: "GetReceipt db h w = Some (rc, w1)" "same_states E w w1" using GetReceipt_states [OF db(2)] by blast
    note ok = node_states [OF assms r(2)]
    obtain bn w2 where n: "Eth_BlockNumber X w1 = (bn, w2)" by fastforce
    have "kept E w1 w2" using n
      by (intro kept_cong [OF node_wf [OF ok]]) (auto simp: Eth_BlockNumber_def ask_def split: sum.splits)
    from node_kept [OF ok this] ok g Some r(1) n db(1) show ?thesis
      by (cases rc) (auto simp: Eth_GetTransactionReceipt_def Let_def)
  qed
qed

section \<open>Tracing blocks\<close>

lemma tx_traces_ok:
  assumes "db_ok E db w"
  shows "\<exists>rs w'. tx_traces X db transactions w = Some (rs, w') \<and> length rs = length transactions \<and> same_states E w w'"
  using assms
proof (induction transactions arbitrary: w)
  case (Cons tx rest)
  obtain rc w1 where r: "GetReceipt db (te_hash (g_tx X) tx) w = Some (rc, w1)" "same_states E w w1"
    using GetReceipt_states [OF Cons.prems] by blast
  then have "db_ok E db w1" using Cons.prems by (simp add: same_states_def)
  from Cons.IH [OF this] r same_states_trans [OF r(2)] show ?case by (auto simp: Let_def)
qed (simp add: same_states_def)

lemma block_loop_ok:
  assumes "machine_ok X" "tracers_build E X config" "db_ok E c w"
  shows "\<exists>results a' c' w'. block_loop E X config blocks a c w = Some (results, a', c', w') \<and>
    map length results = map (length \<circ> blk_Transactions) blocks \<and> same_evm a a' \<and> db_ok E c' w' \<and> same_states E w w'"
  using assms(3)
proof (induction blocks arbitrary: a c w)
  case (Cons blk blocks)
  let ?txs = "blk_Transactions blk"
  obtain a1 w1 where v: "SetVMContextByBlockHeader (Some (blk_Header blk)) a w = Some (a1, w1)" "same_evm a a1" "kept E w w1"
    using SetVMContext_kept [OF db_ok_parts(3) [OF Cons.prems]] by blast
  note ok1 = kept_db_ok [OF v(3) Cons.prems]
  obtain rs a2 c2 w2 where e: "ExecuteTxs E X (AddGasPool a1) ?txs c config w1 = Some (rs, a2, c2, w2)"
    "same_but_gas (AddGasPool a1) a2" "moved E (c, w1) (c2, w2)"
    using ExecuteTxs_ok [OF assms(1,2) ok1, of "AddGasPool a1" ?txs] by blast
  obtain tr w3 where t: "tx_traces X c2 ?txs w2 = Some (tr, w3)" "length tr = length ?txs" "same_states E w2 w3"
    using tx_traces_ok [OF moved_parts(1) [OF e(3)]] by blast
  have "db_ok E c2 w3" using t(3) moved_parts(1) [OF e(3)] by (simp add: same_states_def)
  from Cons.IH [OF this, of a2] obtain more a3 c3 w4 where
    i: "block_loop E X config blocks a2 c2 w3 = Some (more, a3, c3, w4)"
      "map length more = map (length \<circ> blk_Transactions) blocks" "same_evm a2 a3" "db_ok E c3 w4" "same_states E w3 w4" by blast
  have "same_evm a a3" using v(2) same_but_gas_evm [OF e(2)] i(3) by (simp add: same_evm_def AddGasPool_def)
  moreover have "same_states E w w4"
    using kept_states [OF v(3)] moved_states [OF e(3) ok1] t(3) i(5) by (blast intro: same_states_trans)
  ultimately show ?case using v(1) e(1) t(1,2) i(1,2,4) by (auto simp: Let_def)
qed (simp add: same_states_def)

lemma kept_cells_node: "node_ok E b w \<Longrightarrow> kept_cells w w' \<Longrightarrow> node_ok E b w'"
  using kept_cellsD node_kept node_wf by blast

lemma traceBlocks_ok:
  assumes "machine_ok X" "tracers_build E X config" "headers_ok X"
    and "node_ok E b w" "reachable_from E (clock w)" "blocks \<noteq> []"
  shows "\<exists>results b' w'. traceBlocks E X b blocks config w = Some (Inr results, b', w') \<and> node_ok E b' w' \<and>
    b_TxPool b' = b_TxPool b \<and> map length results = map (length \<circ> blk_Transactions) blocks"
proof -
  obtain blk rest where bl: "blocks = blk # rest" using assms(6) by (cases blocks) auto
  obtain err a1 w1 where p: "Prepare E X (b_EVM b) w = Some (err, a1, w1)" "node_ok E (b\<lparr>b_EVM := a1\<rparr>) w1" "clock w \<le> clock w1"
    using Prepare_ok [OF assms(4,5,3)] by blast
  define n where "n = big_Uint64 (hd_Number (blk_Header blk)) - 1"
  obtain header w2 where h: "GetBlockHeader X (''0x'' @ fmt_x (uint n)) w1 = (Some header, w2)" "w2 = w1\<lparr>clock := Suc (clock w1)\<rparr>"
    using GetBlockHeader_ok [OF assms(3)] by blast
  have k2: "kept E w1 w2" by (rule header_kept [OF node_wf [OF p(2)] h(1)])
  obtain a2 w3 where v: "SetVMContextByBlockHeader (Some header) a1 w2 = Some (a2, w3)" "same_evm a1 a2" "kept E w2 w3"
    using SetVMContext_kept [OF kept_below(2) [OF k2]] by blast
  have ok3: "node_ok E (b\<lparr>b_EVM := a2\<rparr>) w3"
    using node_evm [OF node_kept [OF p(2) kept_trans [OF k2 v(3)]], of a2] v(2) by simp
  obtain db where db: "StateDB a2 = Some db" "db_ok E db w3" "stateBN db" "\<not> openfile_err E (cacheFilePath db)"
    using node_db [OF ok3] by (auto simp: backend_db_def)
  let ?w4 = "SetBlockNumber n w3"
  obtain root where r: "getRootState (state db) ?w4 = Some root" "stale_root E ?w4 root"
    using stale_of_ok [OF db(2), of ?w4] by (auto simp: SetBlockNumber_def)
  have "clock w \<le> clock ?w4" using p(3) v(3) by (simp add: SetBlockNumber_def kept_def below_def h(2))
  then have up: "\<forall>t\<ge>clock ?w4. rpc_fail E t = None" using assms(5) by (auto simp: reachable_from_def)
  from InitState_ok [OF db_ok_parts(1) [OF db(2)] up r db(3,4), of False] obtain s w5 where
    i: "InitState E db True False ?w4 = Some (db\<lparr>state := s\<rparr>, w5)" "db_ok E (db\<lparr>state := s\<rparr>) w5" "bigs w5 = bigs ?w4" by blast
  let ?db1 = "db\<lparr>state := s\<rparr>" and ?b1 = "store_db a2 (db\<lparr>state := s\<rparr>) b"
  have ok5: "node_ok E ?b1 w5" using ok3 i(2,3) db(3,4)
    by (simp add: node_ok_def store_db_def backend_db_def SetBlockNumber_def)
  obtain c w6 where c: "CloneFromRoot E ?db1 w5 = Some (c, w6)" using CloneFromRoot_ok [OF i(2)] by blast
  note g = CloneFromRoot_grown [OF i(2) c]
  obtain results a3 c' w7 where l: "block_loop E X config blocks (b_EVM ?b1) c w6 = Some (results, a3, c', w7)"
    "map length results = map (length \<circ> blk_Transactions) blocks" "same_evm (b_EVM ?b1) a3" "db_ok E c' w7" "same_states E w6 w7"
    using block_loop_ok [OF assms(1,2) g(2)] by blast
  obtain size where "CacheSize c' w7 = Some size" using CacheSize_ok [OF l(4)] by blast
  moreover have "node_ok E (?b1\<lparr>b_EVM := a3\<rparr>) w7"
    by (rule node_evm [OF node_states [OF node_kept [OF ok5 grown_kept [OF g(1)]] l(5)] l(3)])
  ultimately have "traceBlocks E X b blocks config w = Some (Inr results, ?b1\<lparr>b_EVM := a3\<rparr>, w7)"
      "node_ok E (?b1\<lparr>b_EVM := a3\<rparr>) w7"
    using p(1) h(1) v(1) db(1) i(1) c l(1) by (simp_all add: traceBlocks_def bl n_def [symmetric] Let_def del: block_loop.simps)
  moreover have "b_TxPool (?b1\<lparr>b_EVM := a3\<rparr>) = b_TxPool b" by (simp add: store_db_def)
  ultimately show ?thesis using l(2) by blast
qed

section \<open>Background updates and settings\<close>

lemma setVMContext_cells:
  assumes "setVMContext X a w = (h, a', w')"
  shows "same_evm a a'" "kept_cells w w'"
  using assms by (auto simp: setVMContext_def GetBlockHeader_def ask_def Let_def same_evm_def cells_def kept_cells_def
      split: prod.splits option.splits sum.splits)

lemma updatePendingBN_ok:
  assumes "node_ok E b w" "updatePendingBN X ev (b_EVM b) w = Some (again, a', w')"
  shows "node_ok E (b\<lparr>b_EVM := a'\<rparr>) w'"
proof -
  have "same_evm (b_EVM b) a' \<and> kept_cells w w'"
  proof (cases ev)
    case CheckMissingTrieNode
    obtain db where db: "StateDB (b_EVM b) = Some db" "stateBN db" using node_db [OF assms(1)] by (auto simp: backend_db_def)
    from CheckMissingTrieNode assms(2) db have "a' = b_EVM b \<and> w' = w\<lparr>clock := Suc (clock w)\<rparr>"
      by (cases "n_BalanceAt X (clock w) 0 (sint (blockNumber w))")
        (auto simp: updatePendingBN_def StateBlockNumber_def bind_eq_Some_conv ask_def split: if_splits)
    then show ?thesis by (auto simp: kept_cells_def)
  qed (use assms(2) setVMContext_cells in \<open>auto simp: updatePendingBN_def bind_eq_Some_conv split: option.splits prod.splits\<close>)
  then show ?thesis using kept_cells_node [OF assms(1)] node_evm by blast
qed

lemma SetBatchSize_ok:
  assumes "node_ok E b w" "0 < n"
  shows "\<exists>w'. Action_SetBatchSize n b w = Some w' \<and> node_ok E b w'"
proof -
  obtain db where db: "backend_db b = Some db" "db_ok E db w" using node_db [OF assms(1)] by blast
  note p = db_ok_parts [OF db(2)]
  obtain root where r: "getRootState (state db) w = Some root" "root \<le> state db" "parent (heap w ! root) = None"
    using getRootState_ok [OF p(4,5)] by blast
  let ?w = "upd_st root (\<lambda>x. x\<lparr>batchSize := n\<rparr>) w"
  have len: "root < length (heap w)" using r(2) p(5) by simp
  have "gomap_wf (scratchPad (heap w ! root))" using p(4) len by (simp add: wf_heap_def)
  then have "wf_heap (heap ?w)" unfolding upd_st_def by (simp add: wf_heap_layer_update [OF p(4) len])
  then have "wf_world E ?w" using p(3) len r(3) assms(2) by (auto simp: wf_world_def heap_upd_st root_ok_def)
  then have "same_states E w ?w" using len by (auto simp: same_states_def db_ok_def heap_upd_st)
  then show ?thesis using node_states [OF assms(1)] db(1) r(1) by (simp add: Action_SetBatchSize_def SetBatchSize_def)
qed

section \<open>Bundles\<close>

lemma bundle_tx: "\<exists>tx. ToTransaction (bundle_args msgArg nonce) = Some tx"
  using toTransaction_total [of "bundle_args msgArg nonce" nonce]
  by (auto simp: ToTransaction_def bundle_args_def split: option.splits)

lemma bundle_loop_ok:
  assumes "machine_ok X" "tracers_build E X None" "db_ok E c w" "None \<notin> set msgs"
  shows "\<exists>r a' c' w'. bundle_loop E X i msgs h a c w = Some (r, a', c', w') \<and> same_evm a a' \<and> db_ok E c' w' \<and> same_states E w w'"
  using assms(3,4)
proof (induction msgs arbitrary: i h a c w)
  case (Cons m msgs)
  obtain msg where m: "m = Some msg" using Cons.prems(2) by (cases m) auto
  have rest: "None \<notin> set msgs" using Cons.prems(2) by simp
  show ?case
  proof (cases "arg_From msg")
    case None
    then show ?thesis using m Cons.prems(1) by (simp add: same_states_def)
  next
    case (Some sender)
    obtain nonce w1 where n: "GetNonce E c sender w = Some (nonce, w1)" "cache_ext w w1" "db_ok E c w1"
      using getters_ok(2) [OF Cons.prems(1)] by blast
    have s1: "same_states E w w1" using kept_states [OF kept_cache_ext [OF _ n(2)]] n(3) by (simp add: db_ok_def)
    obtain tx0 where tx0: "ToTransaction (bundle_args msg nonce) = Some tx0" using bundle_tx by blast
    show ?thesis
    proof (cases "WithSignature (g_setSignature X) (NewSigner (big_Int64 (EVM_ChainID a))) (Address_Bytes sender) tx0")
      case (Inl err)
      from Cons.IH [OF n(3) rest, of "Suc i" h a] obtain r a' c' w' where
        "bundle_loop E X (Suc i) msgs h a c w1 = Some (r, a', c', w')" "same_evm a a'" "db_ok E c' w'" "same_states E w1 w'" by blast
      then show ?thesis using m Some n(1) tx0 Inl same_states_trans [OF s1] by (auto simp: bundle_loop.simps(2))
    next
      case (Inr tx)
      let ?h = "te_hash (g_tx X) tx" and ?msg = "EVM_TxToMessage X a tx"
      obtain res a1 c1 w2 where
        e: "ExecuteMsg E X a c ?msg ?h i None w1 = Some (res, a1, c1, w2)" "same_but_gas a a1" "moved E (c, w1) (c1, w2)"
        using ExecuteMsg_total [OF assms(1) n(3), of ?h i None a ?msg] assms(2) same_but_gas_simps(2) unfolding tracers_build_def by blast
      obtain rc w3 where g: "GetReceipt c1 ?h w2 = Some (rc, w3)" "same_states E w2 w3"
        using GetReceipt_states [OF moved_parts(1) [OF e(3)]] by blast
      have ok3: "db_ok E c1 w3" using g(2) moved_parts(1) [OF e(3)] by (simp add: same_states_def)
      have s3: "same_states E w w3"
        using same_states_trans [OF s1 same_states_trans [OF moved_states [OF e(3) n(3)] g(2)]] .
      note ev = same_but_gas_evm [OF e(2)]
      show ?thesis
      proof (cases rc)
        case None
        then show ?thesis using m Some n(1) tx0 Inr e(1) g(1) ev ok3 s3 by (simp add: bundle_loop.simps(2) Let_def)
      next
        case rc: (Some receipt)
        from Cons.IH [OF ok3 rest, of "Suc i" ?h a1] obtain r a' c' w' where
          i: "bundle_loop E X (Suc i) msgs ?h a1 c1 w3 = Some (r, a', c', w')" "same_evm a1 a'" "db_ok E c' w'" "same_states E w3 w'" by blast
        from same_evm_trans [OF ev i(2)] same_states_trans [OF s3 i(4)] i(1,3) m Some n(1) tx0 Inr e(1) g(1) rc show ?thesis
          by (simp add: bundle_loop.simps(2) Let_def)
      qed
    qed
  qed
qed (simp add: same_states_def)

lemma Bundle_ok:
  assumes "machine_ok X" "tracers_build E X None" "node_ok E b w" "None \<notin> set msgs"
  shows "\<exists>r b' w'. TraceTransactionBundle E X b msgs w = Some (r, b', w') \<and> node_ok E b' w' \<and> b_TxPool b' = b_TxPool b"
proof -
  obtain db where db: "backend_db b = Some db" "db_ok E db w" using node_db [OF assms(3)] by blast
  obtain c w1 where c: "CloneFromRoot E db w = Some (c, w1)" using CloneFromRoot_ok [OF db(2)] by blast
  note g = CloneFromRoot_grown [OF db(2) c]
  obtain r a' c' w2 where l: "bundle_loop E X 0 msgs 0 (AddGasPool (b_EVM b)) c w1 = Some (r, a', c', w2)"
    "same_evm (AddGasPool (b_EVM b)) a'" "db_ok E c' w2" "same_states E w1 w2"
    using bundle_loop_ok [OF assms(1,2) g(2) assms(4)] by blast
  have ev: "same_evm (b_EVM b) a'" using l(2) by (simp add: same_evm_def AddGasPool_def)
  note ok = node_evm [OF node_states [OF node_kept [OF assms(3) grown_kept [OF g(1)]] l(4)] ev]
  obtain diff w3 where d: "GetStateDiff E c' w2 = Some (diff, w3)" "grown E w2 w3" using GetStateDiff_ok [OF l(3)] by blast
  show ?thesis
    using db(1) c l(1) ok d(1) node_kept [OF ok grown_kept [OF d(2)]] by (cases r) (auto simp: TraceTransactionBundle_def)
qed

section \<open>Blocks by number\<close>

lemma reachable_mono: "reachable_from E t \<Longrightarrow> t \<le> t' \<Longrightarrow> reachable_from E t'"
  by (auto simp: reachable_from_def)

lemma fetch_blocks_cells: "fetch_blocks X k n w = (r, w') \<Longrightarrow> kept_cells w w'"
proof (induction k arbitrary: n w r)
  case (Suc k)
  then show ?case by (fastforce simp: ask_def kept_cells_def split: sum.splits prod.splits)
qed (simp add: kept_cells_def)

lemma traceBlocks_total:
  assumes "machine_ok X" "tracers_build E X config" "headers_ok X" "node_ok E b w" "reachable_from E (clock w)"
  shows "\<exists>r b' w'. traceBlocks E X b blocks config w = Some (r, b', w') \<and> node_ok E b' w'"
proof (cases "blocks = []")
  case False
  from traceBlocks_ok [OF assms this] show ?thesis by blast
qed (use assms(4) in \<open>simp add: traceBlocks_def\<close>)

lemma TraceBlock_ok:
  assumes "machine_ok X" "tracers_build E X config" "headers_ok X" "node_ok E b w" "reachable_from E (clock w)"
  shows "\<exists>r b' w'. TraceBlockByNumber E X b number config w = Some (r, b', w') \<and> node_ok E b' w'"
proof -
  obtain res w1 where a: "ask (\<lambda>t. n_BlockByNumber X t (if number = -1 then None else Some number)) w = (res, w1)" by fastforce
  note ok = node_kept [OF assms(4) kept_ask [OF node_wf [OF assms(4)] a]]
  have up: "reachable_from E (clock w1)" using a by (auto simp: ask_def intro: reachable_mono [OF assms(5)])
  show ?thesis
  proof (cases res)
    case (Inr blk)
    from traceBlocks_ok [OF assms(1-3) ok up, of "[blk]"] obtain results b' w' where
      t: "traceBlocks E X b [blk] config w1 = Some (Inr results, b', w')" "node_ok E b' w'" "map length results = map (length \<circ> blk_Transactions) [blk]"
      by blast
    then have "length results = 1" by (metis length_map length_Cons list.size(3) One_nat_def)
    with t a Inr show ?thesis by (simp add: TraceBlockByNumber_def go_index_def)
  qed (use a ok in \<open>simp add: TraceBlockByNumber_def\<close>)
qed

lemma TraceRange_ok:
  assumes "machine_ok X" "tracers_build E X config" "headers_ok X" "node_ok E b w" "reachable_from E (clock w)"
    and "n1 \<noteq> -1" "n2 \<noteq> -1" "0 \<le> sint (n2 - n1 + 1)" "make_ok (nat (sint (n2 - n1 + 1)))"
  shows "\<exists>r b' w'. TraceBlockByNumberRange E X b n1 n2 config w = Some (r, b', w') \<and> node_ok E b' w'"
proof -
  obtain res w1 where f: "fetch_blocks X (nat (sint (n2 - n1 + 1))) n1 w = (res, w1)" by fastforce
  note c = fetch_blocks_cells [OF f]
  note ok = kept_cells_node [OF assms(4) c]
  have up: "reachable_from E (clock w1)" using c by (auto simp: kept_cells_def intro: reachable_mono [OF assms(5)])
  show ?thesis
    by (cases res) (use traceBlocks_total [OF assms(1-3) ok up] ok f assms(6-9) in \<open>auto simp: TraceBlockByNumberRange_def\<close>)
qed

end
