(* ===== verification/NodeSafe.thy ===== *)
theory NodeSafe
  imports NodeMoves
begin

text \<open>
  \<^verbatim>\<open>mfer_simulateSafeExec\<close> and the requests to the Safe contract: the simulation of a Safe transaction works on a
  database of its own and leaves the node in order.
\<close>

section \<open>The simulation\<close>

lemma approve_loop_ok:
  assumes X: "machine_ok X" "tracers_build E X None"
    and "kept E w0 w" "db_ok E c w" "length (heap w0) \<le> state c"
  shows "\<exists>r a' c' w'. approve_loop E X safe (NewSigner n) h owners nonces a c w = Some (r, a', c', w') \<and> same_evm a a' \<and>
    kept E w0 w' \<and> db_ok E c' w' \<and> length (heap w0) \<le> state c' \<and>
    (\<forall>ns. r = Inr ns \<longrightarrow> length ns = length nonces + length owners)"
  using assms(3-)
proof (induction owners arbitrary: nonces a c w)
  case (Cons owner owners)
  obtain r1 w1 where q: "ask (\<lambda>t. n_NonceAt X t owner) w = (r1, w1)" by fastforce
  have k1: "kept E w0 w1" using kept_trans [OF Cons.prems(1) kept_ask [OF _ q]] kept_below(2) [OF Cons.prems(1)] by blast
  have c1: "db_ok E c w1" using kept_db_ok [OF kept_ask [OF _ q] Cons.prems(2)] Cons.prems(2) by (simp add: db_ok_def)
  show ?case
  proof (cases r1)
    case (Inl err)
    with q k1 c1 Cons.prems(3) show ?thesis by simp
  next
    case (Inr nonce)
    obtain w2 where b: "AddBalance E c owner (10 ^ 18) w1 = Some w2" "moved E (c, w1) (c, w2)"
      using AddBalance_fund [OF c1] by blast
    let ?tx0 = "legacy_tx nonce safe 100000 5000000000 (Hex2Bytes ''d4d9bdcd'' @ Hash_Bytes h)"
    obtain tx where tx: "WithSignature (g_setSignature X) (NewSigner n) (Address_Bytes owner) ?tx0 = Inr tx"
      by (simp add: WithSignature_def SignatureValues_def NewSigner_def Signer_ChainID_def)
    note k2 = kept_moved [OF k1 b(2) Cons.prems(3)]
    obtain res a1 c1 w3 where e: "ExecuteTxs E X a [tx] c None w2 = Some (res, a1, c1, w3)" "same_but_gas a a1" "moved E (c, w2) (c1, w3)"
      using ExecuteTxs_ok [OF X moved_parts(1) [OF b(2)]] by blast
    note k3 = kept_moved [OF k2(1) e(3) k2(2)]
    from Cons.IH [OF k3(1) moved_parts(1) [OF e(3)] k3(2), of "nonces @ [nonce]" a1] obtain r a' c' w' where
      i: "approve_loop E X safe (NewSigner n) h owners (nonces @ [nonce]) a1 c1 w3 = Some (r, a', c', w')" "same_evm a1 a'"
        "kept E w0 w'" "db_ok E c' w'" "length (heap w0) \<le> state c'"
        "\<forall>ns. r = Inr ns \<longrightarrow> length ns = length (nonces @ [nonce]) + length owners" by blast
    from i same_evm_trans [OF same_but_gas_evm [OF e(2)] i(2)] q Inr b(1) tx e(1) show ?thesis
      by (simp del: Hex2Bytes.simps)
  qed
qed simp

definition reports :: "'t MferBackend \<Rightarrow> bytes \<Rightarrow> hash \<Rightarrow> MultiSendData \<Rightarrow> bool" where
  "reports b safeTx h md \<longleftrightarrow> md_TxData md = safe_tx_data (fst (GetPoolTxs (b_TxPool b))) \<and> md_MultiSendCallData md = safeTx \<and>
     md_MultiSendTxDataHash md = h \<and> md_ApproveHashCallData md = [0xd4, 0xd9, 0xbd, 0xcd] @ Hash_Bytes h \<and>
     md_To md = b_ImpersonatedAccount b"

text \<open>What the simulation reports: the call data for the Safe, the hash to approve and the call that approves it.\<close>

definition safe_report :: "'t geth \<Rightarrow> 't MferBackend \<Rightarrow> bytes \<Rightarrow> address list \<Rightarrow> MultiSendData \<Rightarrow> bool" where
  "safe_report X b calldata owners md \<longleftrightarrow>
     md_To md = b_ImpersonatedAccount b \<and>
     md_TxData md = safe_tx_data (fst (GetPoolTxs (b_TxPool b))) \<and>
     md_ApproveHashCallData md = [0xd4, 0xd9, 0xbd, 0xcd] @ Hash_Bytes (md_MultiSendTxDataHash md) \<and>
     (\<exists>encoded. md_MultiSendCallData md = Hex2Bytes ''6a761202'' @ encoded \<and>
        be_Pack (g_Bind X) GnosisSafeABI ''execTransaction''
          (exec_args MultiSendCallOnlyContractAddress 0 calldata 1 0 0 0 0 0
             (concat (map sig_block (sort_participants owners)))) = Inr encoded)"

text \<open>A call of the Safe that the virtual machine does not accept: the program reads the missing result.\<close>

definition call_rejected :: "env \<Rightarrow> 't geth \<Rightarrow> address \<Rightarrow> address \<Rightarrow> bool" where
  "call_rejected E X owner safe \<longleftrightarrow> (\<exists>a msg db w err a' db' w'. msg_From msg = owner \<and> msg_To msg = Some safe \<and> msg_Gas msg = 5000000 \<and>
     DoCall E X a msg True db w = Some (Inl err, a', db', w'))"

lemma simulate_call_ok:
  assumes X: "traced_ok E X"
    and t: "g_NewTracer X ''callTracer'' \<lparr>tx_BlockHash = 0, tx_TxHash = 0, tx_TxIndex = 0\<rparr> None = Inr t"
    and "kept E w0 w" "db_ok E db w" "length (heap w0) \<le> state db"
  shows "call_rejected E X owner0 (b_ImpersonatedAccount b) \<or>
    (\<exists>r a' w'. simulate_call E X b owner0 nonce0 safeTx h nonce a db w = Some (r, b\<lparr>b_EVM := a'\<rparr>, w') \<and> same_evm a a' \<and> kept E w0 w' \<and>
      (\<forall>md. r = Inr md \<longrightarrow> reports b safeTx h md))"
proof -
  let ?safe = "b_ImpersonatedAccount b" and ?h = "keccak256 E (str_bytes ''psuedoTransaction'')"
  let ?msg = "\<lparr>msg_From = owner0, msg_To = Some ?safe, msg_Nonce = nonce0, msg_Value = 0, msg_Gas = 5000000, msg_GasPrice = 5000000000,
    msg_GasFeeCap = 0, msg_GasTipCap = 0, msg_Data = safeTx, msg_AccessList = [], msg_IsFake = True\<rparr>"
  let ?a = "SetTracer (External t) a" and ?w1 = "StartLogCollection db ?h (keccak256 E (str_bytes ''blockhash'')) w"
  note m = moved_StartLog [OF assms(4), of ?h "keccak256 E (str_bytes ''blockhash'')"]
  note k1 = kept_moved [OF assms(3) m assms(5)]
  have "call_ok E X ?a ?msg True db ?w1" by (rule call_ok_traced [OF X]) (simp add: SetTracer_def)
  from DoCall_ok [OF moved_parts(1) [OF m] this] obtain res t' db2 w2 where
    d: "DoCall E X ?a ?msg True db ?w1 = Some (res, ?a\<lparr>tracer := t'\<rparr>, db2, w2)" "moved E (db, ?w1) (db2, w2)" by blast
  show ?thesis
  proof (cases res)
    case (Inl err)
    with d(1) show ?thesis unfolding call_rejected_def
      by (intro disjI1 exI [of _ ?a] exI [of _ ?msg] exI [of _ db] exI [of _ ?w1] exI [of _ err]
          exI [of _ "?a\<lparr>tracer := t'\<rparr>"] exI [of _ db2] exI [of _ w2]) simp
  next
    case (Inr result)
    obtain t'' where t'': "t' = External t''" using DoCall_kind(2) [OF d(1)] by (auto simp: SetTracer_def)
    obtain tr te where gr: "g_GetResult X t'' = (tr, te)" by fastforce
    have logs: "GetLogs db2 ?h w2 = Some (logs_at (heap w2) (state db2) ?h)"
      using db_ok_parts [OF moved_parts(1) [OF d(2)]] by (intro GetLogs_ok) auto
    have same: "same_evm a (?a\<lparr>tracer := t'\<rparr>)" by (simp add: same_evm_def SetTracer_def)
    note k2 = kept_moved(1) [OF k1(1) d(2) k1(2)]
    note run = simulate_call_def t d(1) Inr t'' gr logs Let_def reports_def
    show ?thesis
    proof (cases te)
      case None
      show ?thesis by (intro disjI2 exI conjI) (use same k2 None in \<open>auto simp: run\<close>)
    next
      case (Some err)
      show ?thesis by (intro disjI2 exI conjI) (use same k2 Some in \<open>auto simp: run\<close>)
    qed
  qed
qed

lemma simulate_exec_ok:
  assumes X: "machine_ok X" "tracers_build E X None" "traced_ok E X"
    and t: "g_NewTracer X ''callTracer'' \<lparr>tx_BlockHash = 0, tx_TxHash = 0, tx_TxIndex = 0\<rparr> None = Inr t"
    and "kept E w0 w" "db_ok E db w" "backend_db b = Some db" "owners \<noteq> []"
  shows "call_rejected E X (hd owners) (b_ImpersonatedAccount b) \<or>
    (\<exists>r a' w'. simulate_exec E X b owners safeTx h nonce w = Some (r, b\<lparr>b_EVM := a'\<rparr>, w') \<and> same_evm (b_EVM b) a' \<and> kept E w0 w' \<and>
      (\<forall>md. r = Inr md \<longrightarrow> reports b safeTx h md))"
proof -
  obtain cl w1 where c: "CloneFromRoot E db w = Some (cl, w1)" using CloneFromRoot_ok [OF assms(6)] by blast
  note g = CloneFromRoot_grown [OF assms(6) c]
  have k1: "kept E w0 w1" by (rule kept_trans [OF assms(5) grown_kept [OF g(1)]])
  have l1: "length (heap w0) \<le> state cl" using kept_below(3) [OF assms(5)] g(3) by simp
  from approve_loop_ok [OF X(1,2) k1 g(2) l1] obtain r a1 db1 w2 where
    ap: "approve_loop E X (b_ImpersonatedAccount b) (NewSigner (big_Int64 (EVM_ChainID (b_EVM b)))) h owners [] (b_EVM b) cl w1 =
        Some (r, a1, db1, w2)" "same_evm (b_EVM b) a1"
      "kept E w0 w2" "db_ok E db1 w2" "length (heap w0) \<le> state db1" "\<forall>ns. r = Inr ns \<longrightarrow> length ns = length owners"
    by fastforce
  show ?thesis
  proof (cases r)
    case (Inl err)
    with c ap assms(7) show ?thesis by (intro disjI2 exI [of _ "Inl (Err err)"] exI [of _ a1] exI [of _ w2]) (simp add: simulate_exec_def)
  next
    case (Inr ns)
    obtain o0 os where o: "owners = o0 # os" using assms(8) by (cases owners) auto
    obtain n0 ns' where n: "ns = n0 # ns'" using ap(6) Inr o by (cases ns) auto
    have "simulate_exec E X b owners safeTx h nonce w = simulate_call E X b o0 n0 safeTx h nonce a1 db1 w2"
      using c ap(1) Inr assms(7) by (simp add: simulate_exec_def o n go_index_def)
    then show ?thesis using simulate_call_ok [OF X(3) t ap(3-5), of o0 b n0 safeTx h nonce a1] same_evm_trans [OF ap(2)] o by fastforce
  qed
qed

lemma kept_clock: "wf_world E w \<Longrightarrow> kept E w (w\<lparr>clock := Suc (clock w)\<rparr>)"
  by (rule kept_cong) auto

lemma sort_participants_Nil [simp]: "sort_participants owners = [] \<longleftrightarrow> owners = []"
  by (metis length_0_conv length_sort sort_participants_def)

text \<open>Before the simulation proper two requests are sent to the Safe; each step may end in an error.\<close>

lemma SimulateSafeExec_steps:
  assumes B: "typed_answers GnosisSafeABI (g_Bind X)" and "owners \<noteq> []"
    and "BuildTransactions (g_Bind X) (fst (GetPoolTxs (b_TxPool b))) = Some calldata"
  defines "tick \<equiv> \<lambda>w. w\<lparr>clock := Suc (clock w)\<rparr>"
  shows "(\<exists>err. \<exists>w'\<in>{w, tick w, tick (tick w)}. SimulateSafeExec E X b owners w = Some (Inl err, b, w')) \<or>
    (\<exists>h nonce encoded. be_Pack (g_Bind X) GnosisSafeABI ''execTransaction''
        (exec_args MultiSendCallOnlyContractAddress 0 calldata 1 0 0 0 0 0 (genApproveHashSigs (sort_participants owners))) = Inr encoded \<and>
      SimulateSafeExec E X b owners w =
        simulate_exec E X b (sort_participants owners) (Hex2Bytes ''6a761202'' @ encoded) h nonce (tick (tick w)))"
proof -
  let ?B = "g_Bind X" and ?safe = "b_ImpersonatedAccount b"
  obtain ms' where ms': "NewMultisendSafe ?B ?safe MultiSendCallOnlyContractAddress calldata 0 = Some ms'"
    "\<forall>s. ms' = Inr s \<longrightarrow> ms_to s = MultiSendCallOnlyContractAddress \<and> ms_value s = 0 \<and> ms_calldata s = calldata \<and>
       ms_safeABI s = GnosisSafeABI \<and> bc_abi (GnosisSafeCaller (ms_safe s)) = GnosisSafeABI"
    using NewMultisendSafe_ok [of ?B ?safe MultiSendCallOnlyContractAddress calldata 0] by blast
  note start = SimulateSafeExec_def assms(2,3) ms'(1) Let_def participants_def
  show ?thesis
  proof (cases ms')
    case ms: (Inr ms)
    note f = ms'(2) [rule_format, OF ms]
    obtain r1 where n: "MS_GetNonce ?B ms w = Some (r1, tick w)" using Safe_calls_ok(1) [OF B] f unfolding tick_def by blast
    show ?thesis
    proof (cases r1)
      case r1: (Inr nonce)
      obtain r2 where h: "GetTxDataHash E ?B ms (big_Int64 nonce) (tick w) = Some (r2, tick (tick w))"
        using Safe_calls_ok(2) [OF B] f unfolding tick_def by blast
      show ?thesis
      proof (cases r2)
        case r2: (Inr h)
        let ?pack = "be_Pack ?B GnosisSafeABI ''execTransaction''
          (exec_args MultiSendCallOnlyContractAddress 0 calldata 1 0 0 0 0 0 (genApproveHashSigs (sort_participants owners)))"
        have p: "pack_exec ?B ms (genApproveHashSigs (sort_participants owners)) = ?pack"
          using f by (simp add: pack_exec_def op_uint8_def safeTxGas_def baseGas_def safeGasPrice_def gasToken_def refundReceiver_def)
        show ?thesis
          by (cases ?pack) (simp_all add: start ms n r1 h r2 GenSafeCalldataWithApproveHash_def p del: Hex2Bytes.simps, blast)
      qed (simp add: start ms n r1 h)
    qed (simp add: start ms n)
  qed (simp add: start)
qed

lemma SimulateSafeExec_ok:
  assumes X: "machine_ok X" "tracers_build E X None" "traced_ok E X"
    and t: "g_NewTracer X ''callTracer'' \<lparr>tx_BlockHash = 0, tx_TxHash = 0, tx_TxIndex = 0\<rparr> None = Inr t"
    and B: "typed_answers GnosisSafeABI (g_Bind X)"
    and "node_ok E b w" "owners \<noteq> []" "BuildTransactions (g_Bind X) (fst (GetPoolTxs (b_TxPool b))) = Some calldata"
  shows "call_rejected E X (hd (sort_participants owners)) (b_ImpersonatedAccount b) \<or>
    (\<exists>r a' w'. SimulateSafeExec E X b owners w = Some (r, b\<lparr>b_EVM := a'\<rparr>, w') \<and> same_evm (b_EVM b) a' \<and>
       node_ok E (b\<lparr>b_EVM := a'\<rparr>) w' \<and> kept E w w' \<and> (\<forall>md. r = Inr md \<longrightarrow> safe_report X b calldata owners md))"
proof -
  let ?safe = "b_ImpersonatedAccount b" and ?tick = "\<lambda>w. w\<lparr>clock := Suc (clock w)\<rparr>"
  let ?ends = "\<lambda>r a' w'. SimulateSafeExec E X b owners w = Some (r, b\<lparr>b_EVM := a'\<rparr>, w') \<and> same_evm (b_EVM b) a' \<and>
    kept E w w' \<and> (\<forall>md. r = Inr md \<longrightarrow> safe_report X b calldata owners md)"
  obtain db where db: "backend_db b = Some db" "db_ok E db w" using node_db [OF assms(6)] by blast
  note k1 = kept_clock [OF node_wf [OF assms(6)]]
  note k2 = kept_trans [OF k1 kept_clock [OF kept_below(2) [OF k1]]]
  have unit: "b = b\<lparr>b_EVM := b_EVM b\<rparr>" by simp
  have "call_rejected E X (hd (sort_participants owners)) ?safe \<or> (\<exists>r a' w'. ?ends r a' w')"
    using SimulateSafeExec_steps [OF B assms(7,8), of w E]
  proof (elim disjE exE bexE conjE)
    fix err w' assume "w' \<in> {w, ?tick w, ?tick (?tick w)}" "SimulateSafeExec E X b owners w = Some (Inl err, b, w')"
    then have "?ends (Inl err) (b_EVM b) w'" using kept_refl [OF node_wf [OF assms(6)]] k1 k2 by auto
    then show ?thesis by blast
  next
    fix h nonce encoded
    assume p: "be_Pack (g_Bind X) GnosisSafeABI ''execTransaction''
        (exec_args MultiSendCallOnlyContractAddress 0 calldata 1 0 0 0 0 0 (genApproveHashSigs (sort_participants owners))) = Inr encoded"
      and sim: "SimulateSafeExec E X b owners w =
        simulate_exec E X b (sort_participants owners) (Hex2Bytes ''6a761202'' @ encoded) h nonce (?tick (?tick w))"
    have "genApproveHashSigs (sort_participants owners) = concat (map sig_block (sort_participants owners))"
      using sig_loop_eq [of "[]" 0] by (simp add: genApproveHashSigs_def)
    then have "safe_report X b calldata owners md" if "reports b (Hex2Bytes ''6a761202'' @ encoded) h md" for md
      using that p by (simp add: safe_report_def reports_def del: Hex2Bytes.simps)
    then show ?thesis
      using simulate_exec_ok [OF X t k2 kept_db_ok [OF k2 db(2)] db(1), of "sort_participants owners"
          "Hex2Bytes ''6a761202'' @ encoded" h nonce] assms(7)
      unfolding sim sort_participants_Nil by blast
  qed
  then show ?thesis using node_kept_evm [OF assms(6)] by blast
qed

text \<open>When the simulation is served: the client answers in the types of the interface, the tracer exists, the request names owners, and neither the packing
  of the pool nor the call of the Safe is refused.\<close>

definition safe_ready :: "env \<Rightarrow> 't geth \<Rightarrow> address list \<Rightarrow> 't MferBackend \<Rightarrow> bool" where
  "safe_ready E X owners b \<longleftrightarrow> typed_answers GnosisSafeABI (g_Bind X) \<and> owners \<noteq> [] \<and>
     (\<exists>t. g_NewTracer X ''callTracer'' \<lparr>tx_BlockHash = 0, tx_TxHash = 0, tx_TxIndex = 0\<rparr> None = Inr t) \<and>
     BuildTransactions (g_Bind X) (fst (GetPoolTxs (b_TxPool b))) \<noteq> None \<and>
     \<not> call_rejected E X (hd (sort_participants owners)) (b_ImpersonatedAccount b)"

lemma SimulateSafeExec_served:
  assumes "machine_ok X" "tracers_build E X None" "traced_ok E X" "node_ok E b w" "safe_ready E X owners b"
  shows "\<exists>r a' w'. SimulateSafeExec E X b owners w = Some (r, b\<lparr>b_EVM := a'\<rparr>, w') \<and> same_evm (b_EVM b) a' \<and> kept E w w'"
proof -
  from assms(5) obtain t calldata where
    t: "g_NewTracer X ''callTracer'' \<lparr>tx_BlockHash = 0, tx_TxHash = 0, tx_TxIndex = 0\<rparr> None = Inr t"
    and c: "BuildTransactions (g_Bind X) (fst (GetPoolTxs (b_TxPool b))) = Some calldata"
    and r: "typed_answers GnosisSafeABI (g_Bind X)" "owners \<noteq> []"
      "\<not> call_rejected E X (hd (sort_participants owners)) (b_ImpersonatedAccount b)"
    unfolding safe_ready_def by blast
  from SimulateSafeExec_ok [OF assms(1-3) t r(1) assms(4) r(2) c] r(3) show ?thesis by blast
qed

lemma GetSafeOwners_ok:
  assumes "typed_answers GnosisSafeABI (g_SelfBind X)" "wf_world E w"
  shows "\<exists>r w'. GetSafeOwnersAndThreshold X b w = Some (r, w') \<and> kept E w w'"
proof (cases "NewGnosisSafe (g_SelfBind X) (b_ImpersonatedAccount b)")
  case (Inl err)
  then show ?thesis using kept_refl [OF assms(2)] by (simp add: GetSafeOwnersAndThreshold_def getSafeOwnersAndThreshold_def)
next
  case (Inr safe)
  let ?B = "g_SelfBind X" and ?c = "GnosisSafeCaller safe"
  note t = GnosisSafe_calls_return [OF assms(1), of ?c None] NewGnosisSafe_contract [OF Inr]
  obtain r1 w1 where r1: "GnosisSafe_GetThreshold ?B ?c None w = Some (r1, w1)" using t by fastforce
  obtain r2 w2 where r2: "GnosisSafe_GetOwners ?B ?c None w1 = Some (r2, w2)" using t by fastforce
  have w1: "w1 = w\<lparr>clock := Suc (clock w)\<rparr>" using call_with_asks r1 by (fastforce simp: GnosisSafe_GetThreshold_def)
  have w2: "w2 = w1\<lparr>clock := Suc (clock w1)\<rparr>" using call_with_asks r2 by (fastforce simp: GnosisSafe_GetOwners_def)
  have k: "kept E w w1" "kept E w w2" unfolding w2 w1 by (rule kept_cong [OF assms(2)]; simp)+
  show ?thesis using Inr r1 r2 k
    by (auto simp: GetSafeOwnersAndThreshold_def getSafeOwnersAndThreshold_def split: sum.split)
qed

end
