(* ===== verification/NodeMain.thy ===== *)
theory NodeMain
  imports RpcApi
begin

text \<open>
  \<^verbatim>\<open>cmd/mfer-node/main.go\<close>: the flags, the path of the key cache, and how the node is put together and started. The
  operating system, the log file and go-ethereum's HTTP server are parameters: what they answer is the record \<open>os_env\<close>.
\<close>

section \<open>The key cache\<close>

record os_env =
  os_UserCacheDir :: "string + string"
  os_MkdirAll :: "string \<Rightarrow> string option"
  os_rotatelogs :: "string \<Rightarrow> string option"
  os_node :: "string \<Rightarrow> int \<Rightarrow> string option"
  os_Start :: "string option"
  os_Attach :: "string option"

text \<open>\<^verbatim>\<open>path.Clean\<close>: empty and dot elements go, a double dot takes off the element before it.\<close>

fun clean_elems :: "bool \<Rightarrow> string list \<Rightarrow> string list \<Rightarrow> string list" where
  "clean_elems rooted done [] = rev done"
| "clean_elems rooted done (e # es) =
     (if e \<in> {[], ''.''} then clean_elems rooted done es
      else if e = ''..'' then
        (case done of
           d # ds \<Rightarrow> if d = ''..'' then clean_elems rooted (e # done) es else clean_elems rooted ds es
         | [] \<Rightarrow> if rooted then clean_elems rooted [] es else clean_elems rooted [e] es)
      else clean_elems rooted (e # done) es)"

fun join_elems :: "string list \<Rightarrow> string" where
  "join_elems [] = []"
| "join_elems [e] = e"
| "join_elems (e # es) = e @ ''/'' @ join_elems es"

definition path_Clean :: "string \<Rightarrow> string" where
  "path_Clean p =
     (let rooted = (take 1 p = ''/'');
          body = join_elems (clean_elems rooted [] (split_on (CHR ''/'') p))
      in if rooted then ''/'' @ body else if body = [] then ''.'' else body)"

text \<open>\<^verbatim>\<open>path.Join\<close> of two elements, of which empty ones are left out.\<close>

definition path_Join :: "string \<Rightarrow> string \<Rightarrow> string" where
  "path_Join a b = (case filter (\<lambda>e. e \<noteq> []) [a, b] of [] \<Rightarrow> [] | es \<Rightarrow> path_Clean (join_elems es))"

definition defaultKeyCacheFilePath :: "os_env \<Rightarrow> string option" where
  "defaultKeyCacheFilePath OS = (case os_UserCacheDir OS of
     Inl err \<Rightarrow> None
   | Inr dir \<Rightarrow>
       (let cacheDir = path_Join dir ''MferSafe'' in
        case os_MkdirAll OS cacheDir of
          Some err \<Rightarrow> None
        | None \<Rightarrow> Some (path_Join cacheDir ''scratchPadKeyCache.txt'')))"

section \<open>Flags\<close>

record Flags =
  fl_account :: string
  fl_rand :: bool
  fl_passthrough :: bool
  fl_upstream :: string
  fl_listen :: string
  fl_keycache :: string
  fl_maxkeys :: u64
  fl_batchsize :: int
  fl_logpath :: string
  fl_chainid :: u64
  fl_debug :: string
  fl_version :: bool

definition default_flags :: "string \<Rightarrow> Flags" where
  "default_flags keyCache =
     \<lparr>fl_account = ''0xaaaaaaaaaaaaaaaaaaaaaaaaaaaaaaaaaaaaaaaa'', fl_rand = False, fl_passthrough = True,
      fl_upstream = ''http://localhost:8545'', fl_listen = ''127.0.0.1:10545'',
      fl_keycache = keyCache, fl_maxkeys = 100, fl_batchsize = 100, fl_logpath = ''./mfer-node.log'', fl_chainid = 0,
      fl_debug = ''info'', fl_version = False\<rparr>"

text \<open>\<^verbatim>\<open>common.HexToAddress\<close>: an optional prefix, and a leading zero when the number of digits is odd.\<close>

definition HexToAddress :: "string \<Rightarrow> address" where
  "HexToAddress s =
     (let s = (if take 2 s \<in> {''0x'', ''0X''} then drop 2 s else s);
          s = (if odd (length s) then CHR ''0'' # s else s)
      in BytesToAddress (Hex2Bytes s))"

text \<open>The host and the port to listen on; a missing port panics, one that is no number (\<^const>\<open>Inl\<close>) ends the program.\<close>

definition parse_listen :: "string \<Rightarrow> (unit + string \<times> int) option" where
  "parse_listen listenURL = do {
     let splittedListen = split_on (CHR '':'') listenURL;
     listenAddr \<leftarrow> go_index splittedListen 0;
     portText \<leftarrow> go_index splittedListen 1;
     Some (case go_Atoi portText of None \<Rightarrow> Inl () | Some listenPort \<Rightarrow> Inr (listenAddr, listenPort))
   }"

section \<open>The node that is started\<close>

definition start_node :: "env \<Rightarrow> 't geth \<Rightarrow> Flags \<Rightarrow> world \<Rightarrow> ('t MferBackend \<times> world) option" where
  "start_node E X fl w = do {
     let impersonatedAccount = HexToAddress (fl_account fl);
     (mferEVM, w1) \<leftarrow> NewMferEVM E X (fl_upstream fl) impersonatedAccount (fl_keycache fl) (fl_maxkeys fl) (fl_batchsize fl) w;
     let txPool = NewMferTxPool;
     let b = NewMferBackend mferEVM txPool impersonatedAccount (fl_rand fl);
     let b = b\<lparr>b_Passthrough := fl_passthrough fl\<rparr>;
     let b = (if fl_chainid fl \<noteq> 0 then b\<lparr>b_OverrideChainID := Some (sint (fl_chainid fl))\<rparr> else b);
     Some (b, w1)
   }"

section \<open>The program\<close>

text \<open>How \<^verbatim>\<open>main\<close> goes on: it has shown its version, it has ended with a message, or it serves requests for ever.\<close>

datatype 't main_end = ShownVersion | Fatal | Serving "'t MferBackend" world

text \<open>\<open>flag_Parse\<close> is what the command line makes of the defaults, which include the path of the key cache.\<close>

definition mfer_main ::
  "os_env \<Rightarrow> env \<Rightarrow> 't geth \<Rightarrow> (Flags \<Rightarrow> Flags) \<Rightarrow> world \<Rightarrow> 't main_end option" where
  "mfer_main OS E X flag_Parse w = do {
     keyCache \<leftarrow> defaultKeyCacheFilePath OS;
     let fl = flag_Parse (default_flags keyCache);
     (if fl_version fl then Some ShownVersion
      else (case os_rotatelogs OS (fl_logpath fl) of
          Some err \<Rightarrow> Some Fatal
        | None \<Rightarrow> do {
            listen \<leftarrow> parse_listen (fl_listen fl);
            (case listen of
               Inl _ \<Rightarrow> Some Fatal
             | Inr (listenAddr, listenPort) \<Rightarrow>
                 (case os_node OS listenAddr listenPort of
                    Some err \<Rightarrow> None
                  | None \<Rightarrow> do {
                      (b, w1) \<leftarrow> start_node E X fl w;
                      (case (os_Start OS, os_Attach OS) of
                         (None, None) \<Rightarrow> Some (Serving b w1)
                       | _ \<Rightarrow> None)
                    }))
          }))
   }"

text \<open>
  When nothing outside gets in the way: the cache directory and the log can be opened, and the address of the
  flags is one that a server can be started on.
\<close>

definition os_ready :: "os_env \<Rightarrow> (Flags \<Rightarrow> Flags) \<Rightarrow> Flags \<Rightarrow> bool" where
  "os_ready OS flag_Parse fl \<longleftrightarrow> (\<exists>keys host port. defaultKeyCacheFilePath OS = Some keys \<and> fl = flag_Parse (default_flags keys) \<and>
     \<not> fl_version fl \<and> os_rotatelogs OS (fl_logpath fl) = None \<and> parse_listen (fl_listen fl) = Some (Inr (host, port)) \<and>
     os_node OS host port = None \<and> os_Start OS = None \<and> os_Attach OS = None)"

lemma mfer_main_serves:
  "os_ready OS flag_Parse fl \<Longrightarrow> mfer_main OS E X flag_Parse w = map_option (\<lambda>(b, w1). Serving b w1) (start_node E X fl w)"
  by (cases "start_node E X fl w") (auto simp: os_ready_def mfer_main_def Let_def)

end
