(* ===== verification/Node.thy ===== *)
theory Node
  imports NodeTraces NodeSafe NodeMain
begin

text \<open>
  The node from start-up on: the start-up loop returns a node whose state is in order, every request
  to its services is served and keeps it so.
\<close>

section \<open>Starting up\<close>

lemma new_db_stale:
  assumes "heap w = []" "0 < n" "NewOverlayStateDB E path maxKeys n w = (db, w')"
  shows "getRootState (state db) w' = Some 0" "stale_root E w' 0" "stateBN db" "cacheFilePath db = path"
    "clock w' = clock w" "bigs w' = bigs w" "blockNumber w' = blockNumber w"
proof -
  from assms have w': "heap w' = [\<lparr>parent = None, bn = True, scratchPad = [], batchSize = n, accessedAccounts = [],
      txLogs = [], receipts = [], currentTxHash = 0, currentBlockHash = 0, deriveCnt = 0, rpcCnt = 0, reason = [], stateID = 0\<rparr>,
      \<lparr>parent = Some 0, bn = False, scratchPad = [], batchSize = 0, accessedAccounts = [],
       txLogs = [], receipts = [], currentTxHash = 0, currentBlockHash = 0, deriveCnt = 1, rpcCnt = 0,
       reason = ''protect underlying'', stateID = rand_Uint64 E 1\<rparr>]" and s: "state db = Suc 0"
    by (auto simp: NewOverlayStateDB_def NewOverlayState_def Derive_def st_def)
  show "getRootState (state db) w' = Some 0" unfolding s
    by (subst getRootState.simps, subst getRootState.simps) (simp add: st_def w')
  show "stale_root E w' 0" using assms(2)
    by (auto simp: stale_root_def w' wf_heap_def accounts_tracked_def keyed_def less_Suc_eq)
  show "stateBN db" "cacheFilePath db = path" "clock w' = clock w" "bigs w' = bigs w" "blockNumber w' = blockNumber w"
    using assms(3) by (auto simp: NewOverlayStateDB_def NewOverlayState_def Derive_def)
qed

lemma Prepare_first:
  assumes "upstream_ok E" "reachable_from E (clock w)" "headers_ok X" "n_ChainID X (clock w) = Inr chain"
    and "StateDB a = None" "heap w = []" "0 < evm_batchSize a" "\<not> openfile_err E (keyCacheFilePath a)"
  shows "\<exists>a' w' db'. Prepare E X a w = Some (None, a', w') \<and> node_ok E (NewMferBackend a' NewMferTxPool acc rnd) w' \<and>
    pinBlock a' = pinBlock a \<and> StateDB a' = Some db' \<and> view E w' (state db') = funded E (uval E (blockNumber w'))"
proof -
  let ?n = "length (bigs w)"
  define w2 where "w2 = w\<lparr>clock := Suc (clock w), bigs := bigs w @ [0, 0, 0, 0]\<rparr>"
  define a2 where "a2 = a\<lparr>chainConfig := \<lparr>cc_ChainID = chain, cc_ByzantiumBlock = 0, cc_ConstantinopleBlock = 0\<rparr>,
      vmContext := \<lparr>bc_Coinbase = 0xaabbccddaabbccddaabbccddaabbccddaabbccdd, bc_GasLimit = 0,
        bc_BaseFee = ?n, bc_BlockNumber = ?n + 1, bc_Time = ?n + 2, bc_Difficulty = ?n + 3\<rparr>\<rparr>"
  obtain header a3 w3 where v: "setVMContext X a2 w2 = (Some header, a3, w3)" "same_evm a2 a3" "kept_cells w2 w3"
    "keyCacheFilePath a3 = keyCacheFilePath a" "evm_batchSize a3 = evm_batchSize a"
    using setVMContext_ok [OF assms(3), of a2 w2] by (auto simp: a2_def)
  have pin: "pinBlock a3 = pinBlock a" using v(1)
    by (auto simp: setVMContext_def a2_def Let_def split: prod.splits option.splits)
  let ?w4 = "SetBlockNumber (big_Uint64 (hd_Number header)) w3"
  obtain db w5 where d: "NewOverlayStateDB E (keyCacheFilePath a3) (evm_maxKeyCache a3) (evm_batchSize a3) ?w4 = (db, w5)" by fastforce
  have h4: "heap ?w4 = []" "clock w \<le> clock ?w4" "length (bigs ?w4) = ?n + 4"
    using v(3) assms(6) by (simp_all add: SetBlockNumber_def kept_cells_def w2_def)
  have bs: "0 < evm_batchSize a3" using v(5) assms(7) by simp
  note n = new_db_stale [OF h4(1) bs d]
  have up: "\<forall>t\<ge>clock w5. rpc_fail E t = None" using assms(2) h4(2) n(5) by (auto simp: reachable_from_def)
  have nf: "\<not> openfile_err E (cacheFilePath db)" using n(4) v(4) assms(8) by simp
  obtain s w6 w7 where i: "InitState E db True False w5 = Some (db\<lparr>state := s\<rparr>, w6)" "InitFakeAccounts E (db\<lparr>state := s\<rparr>) w6 = Some w7"
      "db_ok E (db\<lparr>state := s\<rparr>) w7" "bigs w7 = bigs w5" "blockNumber w7 = blockNumber w5"
      "view E w7 s = funded E (uval E (blockNumber w5))"
    using InitState_funded [OF assms(1) up n(1,2,3) nf] by blast
  let ?db' = "db\<lparr>state := s\<rparr>"
  let ?a' = "AddGasPool (a3\<lparr>StateDB := Some ?db'\<rparr>)"
  have "StateDB a3 = None" using v(2) assms(5) by (simp add: same_evm_def a2_def)
  then have "Prepare E X a w = Some (None, ?a', w7)"
    using assms(4) v(1) d i(1,2) by (simp add: Prepare_def ask_def a2_def w2_def Let_def)
  moreover have "cells (vmContext ?a') = [?n, ?n + 1, ?n + 2, ?n + 3]"
    using v(2) by (simp add: same_evm_def a2_def cells_def AddGasPool_def)
  then have "node_ok E (NewMferBackend ?a' NewMferTxPool acc rnd) w7"
    using i(3) n(3,6) nf h4(3)
    by (simp add: node_ok_def NewMferBackend_def backend_db_def i(4) pool_ok_def NewMferTxPool_def)
  moreover have "pinBlock ?a' = pinBlock a" using pin by (simp add: AddGasPool_def)
  moreover have "view E w7 s = funded E (uval E (blockNumber w7))" by (simp add: i(5,6))
  ultimately show ?thesis by auto
qed

lemma dial_loop_ok:
  assumes "\<forall>t\<ge>T. n_Dial X t url = None"
  shows "\<exists>c>clock w. dial_loop X url w = Some (w\<lparr>clock := c\<rparr>)"
proof (induction "T - clock w" arbitrary: w rule: less_induct)
  case less
  show ?case
  proof (cases "n_Dial X (clock w) url")
    case None
    then show ?thesis by (intro exI [of _ "Suc (clock w)"], subst dial_loop.simps) (simp add: ask_def)
  next
    case (Some err)
    then have "clock w < T" using assms by (metis not_less option.distinct(1))
    then have "T - clock (w\<lparr>clock := Suc (clock w)\<rparr>) < T - clock w" by simp
    from less [OF this] obtain c where
      "c > Suc (clock w)" "dial_loop X url (w\<lparr>clock := Suc (clock w)\<rparr>) = Some (w\<lparr>clock := c\<rparr>)" by auto
    then show ?thesis using Some by (intro exI [of _ c], subst dial_loop.simps) (simp add: ask_def)
  qed
qed

lemma start_loop_ok:
  assumes "upstream_ok E" "headers_ok X" "\<forall>t\<ge>T. n_Dial X t url = None \<and> (\<exists>c. n_ChainID X t = Inr c)"
    and "reachable_from E (clock w)" "StateDB a = None" "heap w = []" "0 < evm_batchSize a"
      "\<not> openfile_err E (keyCacheFilePath a)" "pinBlock a \<longrightarrow> spec \<noteq> None"
  shows "\<exists>a' w' db'. start_loop E X url spec a w = Some (a', w') \<and>
    node_ok E (NewMferBackend a' NewMferTxPool acc rnd) w' \<and> pinBlock a' = (spec \<noteq> None) \<and>
    StateDB a' = Some db' \<and> view E w' (state db') = funded E (uval E (blockNumber w'))"
  using assms(4-)
proof (induction "T - clock w" arbitrary: w a rule: less_induct)
  case less
  note pr = less.prems
  have dial: "\<forall>t\<ge>T. n_Dial X t url = None" using assms(3) by blast
  obtain c where c: "c > clock w" "dial_loop X url w = Some (w\<lparr>clock := c\<rparr>)"
    using dial_loop_ok [OF dial] by blast
  define w2 where "w2 = SetBlockNumber (case spec of Some n \<Rightarrow> n | None \<Rightarrow> 0) (w\<lparr>clock := c\<rparr>)"
  define a1 where "a1 = a\<lparr>pinBlock := pinBlock a \<or> spec \<noteq> None\<rparr>"
  have w2: "heap w2 = []" "clock w2 = c" "reachable_from E (clock w2)"
    using pr(1,3) c(1) by (auto simp: w2_def SetBlockNumber_def reachable_from_def)
  have a1: "StateDB a1 = None" "0 < evm_batchSize a1" "\<not> openfile_err E (keyCacheFilePath a1)" "pinBlock a1 = (spec \<noteq> None)"
    using pr by (auto simp: a1_def)
  have run: "start_loop E X url spec a w = do {
       (err, a2, w3) \<leftarrow> Prepare E X a1 w2;
       (case err of None \<Rightarrow> Some (a2, w3) | Some e \<Rightarrow> start_loop E X url spec a2 w3) }"
    using c(2) by (subst start_loop.simps) (simp add: w2_def a1_def)
  show ?case
  proof (cases "n_ChainID X (clock w2)")
    case (Inr chain)
    from Prepare_first [OF assms(1) w2(3) assms(2) Inr a1(1) w2(1) a1(2,3), of acc rnd] a1(4) show ?thesis
      unfolding run by auto
  next
    case (Inl err)
    then have "c < T" using assms(3) w2(2) by (metis not_less sum.distinct(1))
    have p: "Prepare E X a1 w2 = Some (Some err, a1, w2\<lparr>clock := Suc c\<rparr>)"
      using Inl w2(2) by (simp add: Prepare_def ask_def)
    have "\<exists>a' w' db'. start_loop E X url spec a1 (w2\<lparr>clock := Suc c\<rparr>) = Some (a', w') \<and>
        node_ok E (NewMferBackend a' NewMferTxPool acc rnd) w' \<and> pinBlock a' = (spec \<noteq> None) \<and>
        StateDB a' = Some db' \<and> view E w' (state db') = funded E (uval E (blockNumber w'))"
      by (rule less.hyps) (use \<open>c < T\<close> c(1) w2 a1 in \<open>auto simp: reachable_from_def\<close>)
    then show ?thesis unfolding run p by simp
  qed
qed

lemma NewMferEVM_ok:
  assumes "parse_upstream rawurl = Some (url, height)" "upstream_ok E" "headers_ok X"
    and "\<forall>t\<ge>T. n_Dial X t url = None \<and> (\<exists>c. n_ChainID X t = Inr c)" "reachable_from E (clock w)"
    and "heap w = []" "0 < bsize" "\<not> openfile_err E path"
  shows "\<exists>a' w' db. NewMferEVM E X rawurl account path maxKeys bsize w = Some (a', w') \<and>
    node_ok E (NewMferBackend a' NewMferTxPool account rnd) w' \<and> pinBlock a' = (height \<noteq> None) \<and>
    StateDB a' = Some db \<and> view E w' (state db) = funded E (uval E (blockNumber w'))"
  using start_loop_ok [OF assms(2-5) _ assms(6)] assms(1,7,8) by (simp add: NewMferEVM_def)

text \<open>What is relied on of go-ethereum and of the upstream node's headers.\<close>

definition geth_ok :: "env \<Rightarrow> 't geth \<Rightarrow> bool" where
  "geth_ok E X \<longleftrightarrow> machine_ok X \<and> tracers_build E X None \<and> traced_ok E X \<and> headers_ok X"

lemma node_settings:
  "node_ok E (Action_SetTimeDelta d b) w = node_ok E b w" "node_ok E (Action_SetBlockNumberDelta d b) w = node_ok E b w"
  "node_ok E (OverrideChainID i b) w = node_ok E b w" "node_ok E (Impersonate account b) w = node_ok E b w"
  "node_ok E (ToggleRandAddr e b) w = node_ok E b w" "node_ok E (TogglePassthrough e b) w = node_ok E b w"
  by (simp_all add: node_ok_def backend_db_def Action_SetTimeDelta_def SetTimeDelta_def Action_SetBlockNumberDelta_def
      SetBlockNumberDelta_def OverrideChainID_def Impersonate_def ToggleRandAddr_def TogglePassthrough_def)

lemma node_reads:
  assumes "node_ok E b w"
  shows "\<exists>v w'. Eth_GetBalance E b a w = Some (v, w') \<and> kept E w w'"
    and "\<exists>v w'. Eth_GetCode E b a w = Some (v, w') \<and> kept E w w'"
    and "\<exists>v w'. Eth_GetTransactionCount E b a w = Some (v, w') \<and> kept E w w'"
proof -
  obtain db where db: "backend_db b = Some db" "db_ok E db w" using node_db [OF assms] by blast
  have k: "kept E w w'" if "cache_ext w w'" "db_ok E db w'" for w'
    using kept_cache_ext [OF _ that(1)] that(2) by (simp add: db_ok_def)
  obtain v1 w1 where "GetBalance E db a w = Some (v1, w1)" "cache_ext w w1" "db_ok E db w1"
    using getters_ok(1) [OF db(2), of a] by blast
  with k db(1) show "\<exists>v w'. Eth_GetBalance E b a w = Some (v, w') \<and> kept E w w'" by (simp add: Eth_GetBalance_def)
  obtain v2 w2 where "GetCode E db a w = Some (v2, w2)" "cache_ext w w2" "db_ok E db w2"
    using getters_ok(4) [OF db(2), of a] by blast
  with k db(1) show "\<exists>v w'. Eth_GetCode E b a w = Some (v, w') \<and> kept E w w'" by (simp add: Eth_GetCode_def)
  obtain v3 w3 where "GetNonce E db a w = Some (v3, w3)" "cache_ext w w3" "db_ok E db w3"
    using getters_ok(2) [OF db(2), of a] by blast
  with k db(1) show "\<exists>v w'. Eth_GetTransactionCount E b a w = Some (v, w') \<and> kept E w w'"
    by (simp add: Eth_GetTransactionCount_def)
qed

section \<open>The node as a state machine\<close>

text \<open>
  A request to one of the services, or one turn of the background loop, and the handler that serves
  it. The reply is dropped here; \<^const>\<open>None\<close> is a panic or a handler that does not return.
\<close>

datatype request =
    rpc_eth_call TransactionArgs "int option" "StateOverride option"
  | rpc_eth_estimateGas TransactionArgs
  | rpc_eth_getBalance address
  | rpc_eth_getCode address
  | rpc_eth_getTransactionCount address
  | rpc_eth_sendTransaction TransactionArgs
  | rpc_eth_sendRawTransaction bytes
  | rpc_eth_getTransactionReceipt hash
  | rpc_eth_getTransactionByHash hash
  | rpc_eth_getBlockByNumber int bool
  | rpc_eth_getBlockByHash hash bool
  | rpc_eth_getLogs FilterCriteria
  | rpc_mfer_printMoney address
  | rpc_mfer_clearTxPool
  | rpc_mfer_clearKeyCache
  | rpc_mfer_resetState
  | rpc_mfer_reExecTxPool
  | rpc_mfer_setTimeDelta u64
  | rpc_mfer_setBlockNumberDelta u64
  | rpc_mfer_overrideChainID u64
  | rpc_mfer_impersonate address
  | rpc_mfer_toggleRandAddr bool
  | rpc_mfer_togglePassthrough bool
  | rpc_mfer_setBatchSize int
  | rpc_mfer_getStateDiff
  | rpc_mfer_traceBlockByNumber int "TraceConfig option"
  | rpc_mfer_traceBlockByNumberRange "64 word" "64 word" "TraceConfig option"
  | rpc_mfer_traceTransactionBundle "TransactionArgs option list"
  | rpc_mfer_getSafeOwnersAndThreshold
  | rpc_mfer_simulateSafeExec "address list"
  | rpc_debug_traceTransaction hash "TraceConfig option"
  | rpc_debug_storageRangeAt tx_ref address
  | rpc_probe_runTxWithDifferentContext hash
  | wake_up wakeup

fun serve ::
  "env \<Rightarrow> 't geth \<Rightarrow> request \<Rightarrow> 't MferBackend \<Rightarrow> world \<Rightarrow> ('t MferBackend \<times> world) option" where
  "serve E X (rpc_eth_call args n ov) b w = map_option snd (Eth_Call E X b args n ov w)"
| "serve E X (rpc_eth_estimateGas args) b w = map_option snd (EstimateGas E X b args w)"
| "serve E X (rpc_eth_getBalance a) b w = map_option (Pair b \<circ> snd) (Eth_GetBalance E b a w)"
| "serve E X (rpc_eth_getCode a) b w = map_option (Pair b \<circ> snd) (Eth_GetCode E b a w)"
| "serve E X (rpc_eth_getTransactionCount a) b w = map_option (Pair b \<circ> snd) (Eth_GetTransactionCount E b a w)"
| "serve E X (rpc_eth_sendTransaction args) b w = map_option snd (SendTransaction E X b args w)"
| "serve E X (rpc_eth_sendRawTransaction input) b w = map_option snd (SendRawTransaction E X b input w)"
| "serve E X (rpc_eth_getTransactionReceipt h) b w = map_option (Pair b \<circ> snd) (Eth_GetTransactionReceipt E X b h w)"
| "serve E X (rpc_eth_getTransactionByHash h) b w = Some (b, snd (Eth_GetTransactionByHash E X b h w))"
| "serve E X (rpc_eth_getBlockByNumber n full) b w = map_option (Pair b \<circ> snd) (GetBlockByNumber X b n full w)"
| "serve E X (rpc_eth_getBlockByHash h full) b w = map_option (Pair b \<circ> snd) (GetBlockByHash X b h full w)"
| "serve E X (rpc_eth_getLogs crit) b w = map_option (Pair b \<circ> snd) (Eth_GetLogs E X b crit w)"
| "serve E X (rpc_mfer_printMoney a) b w = PrintMoney E X b a w"
| "serve E X rpc_mfer_clearTxPool b w = ClearTxPool E b w"
| "serve E X rpc_mfer_clearKeyCache b w = ClearKeyCache E b w"
| "serve E X rpc_mfer_resetState b w = ResetState E X b w"
| "serve E X rpc_mfer_reExecTxPool b w = ReExecTxPool E X b w"
| "serve E X (rpc_mfer_setTimeDelta d) b w = Some (Action_SetTimeDelta d b, w)"
| "serve E X (rpc_mfer_setBlockNumberDelta d) b w = Some (Action_SetBlockNumberDelta d b, w)"
| "serve E X (rpc_mfer_overrideChainID i) b w = Some (OverrideChainID i b, w)"
| "serve E X (rpc_mfer_impersonate a) b w = Some (Impersonate a b, w)"
| "serve E X (rpc_mfer_toggleRandAddr e) b w = Some (ToggleRandAddr e b, w)"
| "serve E X (rpc_mfer_togglePassthrough e) b w = Some (TogglePassthrough e b, w)"
| "serve E X (rpc_mfer_setBatchSize m) b w = map_option (Pair b) (Action_SetBatchSize m b w)"
| "serve E X rpc_mfer_getStateDiff b w = map_option (Pair b \<circ> snd) (Action_GetStateDiff E b w)"
| "serve E X (rpc_mfer_traceBlockByNumber n config) b w = map_option snd (TraceBlockByNumber E X b n config w)"
| "serve E X (rpc_mfer_traceBlockByNumberRange n1 n2 config) b w =
     map_option snd (TraceBlockByNumberRange E X b n1 n2 config w)"
| "serve E X (rpc_mfer_traceTransactionBundle msgs) b w = map_option snd (TraceTransactionBundle E X b msgs w)"
| "serve E X rpc_mfer_getSafeOwnersAndThreshold b w = map_option (Pair b \<circ> snd) (GetSafeOwnersAndThreshold X b w)"
| "serve E X (rpc_mfer_simulateSafeExec owners) b w = map_option snd (SimulateSafeExec E X b owners w)"
| "serve E X (rpc_debug_traceTransaction h config) b w = map_option snd (TraceTransaction E X b h config w)"
| "serve E X (rpc_debug_storageRangeAt r a) b w = map_option snd (StorageRangeAt E X b r a w)"
| "serve E X (rpc_probe_runTxWithDifferentContext h) b w = map_option snd (RunTxWithDifferentContext E X b h w)"
| "serve E X (wake_up ev) b w =
     map_option (\<lambda>(again, a', w'). (b\<lparr>b_EVM := a'\<rparr>, w')) (updatePendingBN X ev (b_EVM b) w)"

text \<open>
  What a request needs to be served: the ones that fetch a new state need the upstream node, a batch
  size is positive, a trace configuration names a tracer or has the logger's settings, a range of
  blocks is given by two numbers in order, no message of a bundle is null, and what is asked of the Safe contract is answered in its types.
\<close>

fun served :: "env \<Rightarrow> 't geth \<Rightarrow> request \<Rightarrow> 't MferBackend \<Rightarrow> world \<Rightarrow> bool" where
  "served E X rpc_mfer_clearKeyCache b w \<longleftrightarrow> reachable_from E (clock w)"
| "served E X rpc_mfer_resetState b w \<longleftrightarrow> reachable_from E (clock w)"
| "served E X rpc_mfer_reExecTxPool b w \<longleftrightarrow> reachable_from E (clock w)"
| "served E X (rpc_mfer_setBatchSize m) b w \<longleftrightarrow> 0 < m"
| "served E X (rpc_mfer_traceBlockByNumber n config) b w \<longleftrightarrow> reachable_from E (clock w) \<and> tracers_build E X config"
| "served E X (rpc_mfer_traceBlockByNumberRange n1 n2 config) b w \<longleftrightarrow>
     reachable_from E (clock w) \<and> tracers_build E X config \<and> n1 \<noteq> -1 \<and> n2 \<noteq> -1 \<and>
     0 \<le> sint (n2 - n1 + 1) \<and> make_ok (nat (sint (n2 - n1 + 1)))"
| "served E X (rpc_mfer_traceTransactionBundle msgs) b w \<longleftrightarrow> None \<notin> set msgs"
| "served E X rpc_mfer_getSafeOwnersAndThreshold b w \<longleftrightarrow> typed_answers GnosisSafeABI (g_SelfBind X)"
| "served E X (rpc_mfer_simulateSafeExec owners) b w \<longleftrightarrow> safe_ready E X owners b"
| "served E X (rpc_debug_traceTransaction h config) b w \<longleftrightarrow> config_ok config"
| "served E X (wake_up ev) b w \<longleftrightarrow> (ev = CheckMissingTrieNode \<longrightarrow> (\<forall>t a n. \<exists>v. n_BalanceAt X t a n = Inr v))"
| "served E X _ b w \<longleftrightarrow> True"

inductive node_step ::
  "env \<Rightarrow> 't geth \<Rightarrow> 't MferBackend \<times> world \<Rightarrow> ('t MferBackend \<times> world) option \<Rightarrow> bool" for E X where
  request: "served E X req b w \<Longrightarrow> node_step E X (b, w) (serve E X req b w)"

inductive_cases node_stepE: "node_step E X (b, w) n"

lemma same_kept_ok:
  assumes "node_ok E b w" "\<exists>r a' w'. f = Some (r, b\<lparr>b_EVM := a'\<rparr>, w') \<and> same_evm (b_EVM b) a' \<and> kept E w w'"
  shows "\<exists>b' w'. map_option snd f = Some (b', w') \<and> node_ok E b' w'"
proof -
  from assms(2) obtain r a' w' where "f = Some (r, b\<lparr>b_EVM := a'\<rparr>, w')" "same_evm (b_EVM b) a'" "kept E w w'" by blast
  with node_kept_evm [OF assms(1)] show ?thesis by simp
qed

lemma same_backend_ok:
  assumes "\<exists>r w'. f = Some (r, w') \<and> node_ok E b w'"
  shows "\<exists>b' w'. map_option (Pair b \<circ> snd) f = Some (b', w') \<and> node_ok E b' w'"
  using assms by auto

lemma read_backend_ok:
  assumes "node_ok E b w" "\<exists>r w'. f = Some (r, w') \<and> kept E w w'"
  shows "\<exists>b' w'. map_option (Pair b \<circ> snd) f = Some (b', w') \<and> node_ok E b' w'"
  using assms node_kept by auto

lemma RunTx_same:
  assumes "machine_ok X" "tracers_build E X None" "traced_ok E X" "node_ok E b w"
  shows "\<exists>r a' w'. RunTxWithDifferentContext E X b h w = Some (r, b\<lparr>b_EVM := a'\<rparr>, w') \<and>
    same_evm (b_EVM b) a' \<and> kept E w w'"
proof -
  from RunTx_ok [OF assms, of h] obtain r a' w' where
    "RunTxWithDifferentContext E X b h w = Some (r, b\<lparr>b_EVM := a'\<rparr>, w')" "same_but_gas (b_EVM b) a'" "kept E w w'" by blast
  then show ?thesis using same_but_gas_evm by blast
qed

lemma SendRaw_ok:
  assumes "machine_ok X" "tracers_build E X None" "node_ok E b w"
  shows "\<exists>r b' w'. SendRawTransaction E X b input w = Some (r, b', w') \<and> node_ok E b' w'"
proof (cases "g_UnmarshalBinary X input")
  case (Inr tx)
  from execute_one_ok [OF assms, of tx] obtain b' w' where
    "execute_one E X b tx w = Some (te_hash (g_tx X) tx, b', w')" "node_ok E b' w'" by blast
  then show ?thesis using Inr by (simp add: SendRawTransaction_def)
qed (use assms(3) in \<open>simp add: SendRawTransaction_def\<close>)

lemma statistics_ok:
  assumes "db_ok E db w"
  shows "\<exists>n. CacheSize db w = Some n" "\<exists>n. RPCRequestCount db w = Some n"
  using CacheSize_ok [OF assms] getRootState_ok [OF db_ok_parts(4,5) [OF assms]] by (auto simp: RPCRequestCount_def)

lemma updatePendingBN_returns:
  assumes "node_ok E b w" "ev = CheckMissingTrieNode \<longrightarrow> (\<forall>t a n. \<exists>v. n_BalanceAt X t a n = Inr v)"
  shows "\<exists>again a' w'. updatePendingBN X ev (b_EVM b) w = Some (again, a', w')"
proof -
  obtain db where db: "StateDB (b_EVM b) = Some db" "db_ok E db w" "stateBN db"
    using node_db [OF assms(1)] by (auto simp: backend_db_def)
  have rest: "(\<exists>n. CacheSize db w' = Some n) \<and> (\<exists>n. RPCRequestCount db w' = Some n)" if "kept_cells w w'" for w'
    using statistics_ok kept_db_ok [OF kept_cellsD [OF node_wf [OF assms(1)] that] db(2)] by blast
  show ?thesis
  proof (cases "ev = CheckMissingTrieNode")
    case True
    obtain v where v: "n_BalanceAt X (clock w) 0 (sint (blockNumber w)) = Inr v" using assms(2) True by blast
    have "kept_cells w (w\<lparr>clock := Suc (clock w)\<rparr>)" by (simp add: kept_cells_def)
    from rest [OF this] v db(1,3) True show ?thesis by (auto simp: updatePendingBN_def StateBlockNumber_def ask_def)
  next
    case False
    obtain h a1 w1 where s: "setVMContext X (b_EVM b) w = (h, a1, w1)" by (metis prod_cases3)
    note c = setVMContext_cells [OF s]
    have "StateDB a1 = Some db" using c(1) db(1) by (simp add: same_evm_def)
    with rest [OF c(2)] s db(3) False show ?thesis
      by (cases ev) (auto simp: updatePendingBN_def StateBlockNumber_def)
  qed
qed

text \<open>Requests that read: the backend stays, and the world only grows.\<close>

lemma serve_reads:
  assumes "node_ok E b w"
  shows "\<exists>b' w'. serve E X (rpc_eth_getBalance a) b w = Some (b', w') \<and> node_ok E b' w'"
    and "\<exists>b' w'. serve E X (rpc_eth_getCode a) b w = Some (b', w') \<and> node_ok E b' w'"
    and "\<exists>b' w'. serve E X (rpc_eth_getTransactionCount a) b w = Some (b', w') \<and> node_ok E b' w'"
    and "\<exists>b' w'. serve E X (rpc_eth_getLogs crit) b w = Some (b', w') \<and> node_ok E b' w'"
    and "\<exists>b' w'. serve E X (rpc_eth_getBlockByNumber n full) b w = Some (b', w') \<and> node_ok E b' w'"
    and "\<exists>b' w'. serve E X (rpc_eth_getBlockByHash h full) b w = Some (b', w') \<and> node_ok E b' w'"
    and "\<exists>b' w'. serve E X (rpc_eth_getTransactionReceipt h) b w = Some (b', w') \<and> node_ok E b' w'"
    and "\<exists>b' w'. serve E X (rpc_eth_getTransactionByHash h) b w = Some (b', w') \<and> node_ok E b' w'"
    and "\<exists>b' w'. serve E X rpc_mfer_getStateDiff b w = Some (b', w') \<and> node_ok E b' w'"
    and "served E X rpc_mfer_getSafeOwnersAndThreshold b w \<Longrightarrow>
      \<exists>b' w'. serve E X rpc_mfer_getSafeOwnersAndThreshold b w = Some (b', w') \<and> node_ok E b' w'"
proof -
  note wf = node_wf [OF assms] and r = read_backend_ok [OF assms]
  show "\<exists>b' w'. serve E X (rpc_eth_getBalance a) b w = Some (b', w') \<and> node_ok E b' w'"
    "\<exists>b' w'. serve E X (rpc_eth_getCode a) b w = Some (b', w') \<and> node_ok E b' w'"
    "\<exists>b' w'. serve E X (rpc_eth_getTransactionCount a) b w = Some (b', w') \<and> node_ok E b' w'"
    using r [OF node_reads(1) [OF assms]] r [OF node_reads(2) [OF assms]] r [OF node_reads(3) [OF assms]]
    by (simp_all del: map_option_eq_Some)
  show "\<exists>b' w'. serve E X (rpc_eth_getLogs crit) b w = Some (b', w') \<and> node_ok E b' w'"
    "\<exists>b' w'. serve E X (rpc_eth_getBlockByNumber n full) b w = Some (b', w') \<and> node_ok E b' w'"
    "\<exists>b' w'. serve E X (rpc_eth_getBlockByHash h full) b w = Some (b', w') \<and> node_ok E b' w'"
    "\<exists>b' w'. serve E X (rpc_eth_getTransactionReceipt h) b w = Some (b', w') \<and> node_ok E b' w'"
    using r [OF GetLogs_kept [OF assms]] r [OF BlockByNumber_kept [OF wf]] r [OF BlockByHash_kept [OF wf]]
      same_backend_ok [OF Receipt_ok [OF assms]] by (simp_all del: map_option_eq_Some)
  show "\<exists>b' w'. serve E X (rpc_eth_getTransactionByHash h) b w = Some (b', w') \<and> node_ok E b' w'"
    using node_kept [OF assms TransactionByHash_kept [OF wf prod.collapse [symmetric]]] by simp
  obtain db where db: "backend_db b = Some db" "db_ok E db w" using node_db [OF assms] by blast
  obtain diff w' where "GetStateDiff E db w = Some (diff, w')" "grown E w w'" using GetStateDiff_ok [OF db(2)] by blast
  with node_kept [OF assms grown_kept] db(1) show "\<exists>b' w'. serve E X rpc_mfer_getStateDiff b w = Some (b', w') \<and> node_ok E b' w'"
    by (simp add: Action_GetStateDiff_def)
  show "\<exists>b' w'. serve E X rpc_mfer_getSafeOwnersAndThreshold b w = Some (b', w') \<and> node_ok E b' w'"
    if "served E X rpc_mfer_getSafeOwnersAndThreshold b w"
    using r [OF GetSafeOwners_ok [OF _ wf]] that by (simp del: map_option_eq_Some)
qed

text \<open>Requests that work on copies: the machine may have changed its settings, the world only grows.\<close>

lemma serve_simulations:
  assumes "geth_ok E X" "node_ok E b w"
  shows "\<exists>b' w'. serve E X (rpc_eth_call args num ov) b w = Some (b', w') \<and> node_ok E b' w'"
    and "\<exists>b' w'. serve E X (rpc_eth_estimateGas args) b w = Some (b', w') \<and> node_ok E b' w'"
    and "served E X (rpc_debug_traceTransaction h config) b w \<Longrightarrow>
      \<exists>b' w'. serve E X (rpc_debug_traceTransaction h config) b w = Some (b', w') \<and> node_ok E b' w'"
    and "\<exists>b' w'. serve E X (rpc_debug_storageRangeAt r a) b w = Some (b', w') \<and> node_ok E b' w'"
    and "\<exists>b' w'. serve E X (rpc_probe_runTxWithDifferentContext h) b w = Some (b', w') \<and> node_ok E b' w'"
    and "served E X (rpc_mfer_simulateSafeExec owners) b w \<Longrightarrow>
      \<exists>b' w'. serve E X (rpc_mfer_simulateSafeExec owners) b w = Some (b', w') \<and> node_ok E b' w'"
proof -
  have g: "machine_ok X" "tracers_build E X None" "traced_ok E X" "headers_ok X" using assms(1) by (simp_all add: geth_ok_def)
  note k = same_kept_ok [OF assms(2)]
  show "\<exists>b' w'. serve E X (rpc_eth_call args num ov) b w = Some (b', w') \<and> node_ok E b' w'"
    "\<exists>b' w'. serve E X (rpc_eth_estimateGas args) b w = Some (b', w') \<and> node_ok E b' w'"
    using k [OF Eth_Call_ok [OF g(1) assms(2)]] k [OF EstimateGas_ok [OF g(3) assms(2)]] by (simp_all del: map_option_eq_Some)
  show "\<exists>b' w'. serve E X (rpc_debug_storageRangeAt r a) b w = Some (b', w') \<and> node_ok E b' w'"
    "\<exists>b' w'. serve E X (rpc_probe_runTxWithDifferentContext h) b w = Some (b', w') \<and> node_ok E b' w'"
    using k [OF StorageRangeAt_ok [OF g(1-3) assms(2)]] k [OF RunTx_same [OF g(1-3) assms(2)]] by (simp_all del: map_option_eq_Some)
  show "\<exists>b' w'. serve E X (rpc_debug_traceTransaction h config) b w = Some (b', w') \<and> node_ok E b' w'"
    if "served E X (rpc_debug_traceTransaction h config) b w"
    using k [OF TraceTransaction_ok [OF g _ assms(2)]] that by (simp del: map_option_eq_Some)
  show "\<exists>b' w'. serve E X (rpc_mfer_simulateSafeExec owners) b w = Some (b', w') \<and> node_ok E b' w'"
    if "served E X (rpc_mfer_simulateSafeExec owners) b w"
    using k [OF SimulateSafeExec_served [OF g(1-3) assms(2)]] that by (simp del: map_option_eq_Some)
qed

text \<open>Requests that change the node's own state or its pool.\<close>

lemma serve_changes:
  assumes "geth_ok E X" "node_ok E b w"
  shows "\<exists>b' w'. serve E X (rpc_eth_sendTransaction args) b w = Some (b', w') \<and> node_ok E b' w'"
    and "\<exists>b' w'. serve E X (rpc_mfer_printMoney a) b w = Some (b', w') \<and> node_ok E b' w'"
    and "\<exists>b' w'. serve E X (rpc_eth_sendRawTransaction input) b w = Some (b', w') \<and> node_ok E b' w'"
    and "\<exists>b' w'. serve E X rpc_mfer_clearTxPool b w = Some (b', w') \<and> node_ok E b' w'"
    and "served E X (rpc_mfer_setBatchSize m) b w \<Longrightarrow>
      \<exists>b' w'. serve E X (rpc_mfer_setBatchSize m) b w = Some (b', w') \<and> node_ok E b' w'"
    and "served E X (rpc_mfer_traceTransactionBundle msgs) b w \<Longrightarrow>
      \<exists>b' w'. serve E X (rpc_mfer_traceTransactionBundle msgs) b w = Some (b', w') \<and> node_ok E b' w'"
    and "served E X (wake_up ev) b w \<Longrightarrow> \<exists>b' w'. serve E X (wake_up ev) b w = Some (b', w') \<and> node_ok E b' w'"
proof -
  have g: "machine_ok X" "tracers_build E X None" using assms(1) by (simp_all add: geth_ok_def)
  obtain db where db: "backend_db b = Some db" using node_db [OF assms(2)] by blast
  have sent: "\<exists>h b' w'. SendTransaction E X b args w = Some (h, b', w') \<and> node_ok E b' w'" for args
    using SendTransaction_ok [OF g assms(2) db, of args] by blast
  show "\<exists>b' w'. serve E X (rpc_eth_sendTransaction args) b w = Some (b', w') \<and> node_ok E b' w'" using sent [of args] by auto
  show "\<exists>b' w'. serve E X (rpc_mfer_printMoney a) b w = Some (b', w') \<and> node_ok E b' w'"
    using sent [of "no_args\<lparr>arg_From := Some (FAKE_ACCOUNT_RICH E), arg_To := Some a, arg_Value := Some (10 ^ 18 * 1000)\<rparr>"]
    by (auto simp: PrintMoney_def)
  show "\<exists>b' w'. serve E X (rpc_eth_sendRawTransaction input) b w = Some (b', w') \<and> node_ok E b' w'"
    using SendRaw_ok [OF g assms(2), of input] by auto
  show "\<exists>b' w'. serve E X rpc_mfer_clearTxPool b w = Some (b', w') \<and> node_ok E b' w'" using ClearTxPool_ok [OF assms(2)] by auto
  show "\<exists>b' w'. serve E X (rpc_mfer_setBatchSize m) b w = Some (b', w') \<and> node_ok E b' w'"
    if "served E X (rpc_mfer_setBatchSize m) b w" using SetBatchSize_ok [OF assms(2)] that by auto
  show "\<exists>b' w'. serve E X (rpc_mfer_traceTransactionBundle msgs) b w = Some (b', w') \<and> node_ok E b' w'"
    if "served E X (rpc_mfer_traceTransactionBundle msgs) b w" using Bundle_ok [OF g assms(2)] that by fastforce
  show "\<exists>b' w'. serve E X (wake_up ev) b w = Some (b', w') \<and> node_ok E b' w'" if s: "served E X (wake_up ev) b w"
  proof -
    obtain again a' w' where u: "updatePendingBN X ev (b_EVM b) w = Some (again, a', w')"
      using updatePendingBN_returns [OF assms(2), of ev X] s by auto
    from updatePendingBN_ok [OF assms(2) u] u show ?thesis by simp
  qed
qed

text \<open>Requests that fetch a new state, which need the upstream node.\<close>

lemma serve_moves:
  assumes "geth_ok E X" "node_ok E b w"
  shows "served E X rpc_mfer_clearKeyCache b w \<Longrightarrow> \<exists>b' w'. serve E X rpc_mfer_clearKeyCache b w = Some (b', w') \<and> node_ok E b' w'"
    and "served E X rpc_mfer_resetState b w \<Longrightarrow> \<exists>b' w'. serve E X rpc_mfer_resetState b w = Some (b', w') \<and> node_ok E b' w'"
    and "served E X rpc_mfer_reExecTxPool b w \<Longrightarrow> \<exists>b' w'. serve E X rpc_mfer_reExecTxPool b w = Some (b', w') \<and> node_ok E b' w'"
    and "served E X (rpc_mfer_traceBlockByNumber n config) b w \<Longrightarrow>
      \<exists>b' w'. serve E X (rpc_mfer_traceBlockByNumber n config) b w = Some (b', w') \<and> node_ok E b' w'"
    and "served E X (rpc_mfer_traceBlockByNumberRange n1 n2 config) b w \<Longrightarrow>
      \<exists>b' w'. serve E X (rpc_mfer_traceBlockByNumberRange n1 n2 config) b w = Some (b', w') \<and> node_ok E b' w'"
proof -
  have g: "machine_ok X" "tracers_build E X None" "headers_ok X" using assms(1) by (simp_all add: geth_ok_def)
  show "\<exists>b' w'. serve E X rpc_mfer_clearKeyCache b w = Some (b', w') \<and> node_ok E b' w'" if "served E X rpc_mfer_clearKeyCache b w"
    using ClearKeyCache_ok [OF assms(2)] that by auto
  show "\<exists>b' w'. serve E X rpc_mfer_resetState b w = Some (b', w') \<and> node_ok E b' w'" if "served E X rpc_mfer_resetState b w"
    using ResetState_ok [OF assms(2) _ g(3)] that by auto
  show "\<exists>b' w'. serve E X rpc_mfer_reExecTxPool b w = Some (b', w') \<and> node_ok E b' w'" if "served E X rpc_mfer_reExecTxPool b w"
    using ReExecTxPool_ok [OF g(1,2) assms(2) _ g(3)] that by auto
  show "\<exists>b' w'. serve E X (rpc_mfer_traceBlockByNumber n config) b w = Some (b', w') \<and> node_ok E b' w'"
    if "served E X (rpc_mfer_traceBlockByNumber n config) b w"
    using TraceBlock_ok [OF g(1) _ g(3) assms(2), of config n] that by auto
  show "\<exists>b' w'. serve E X (rpc_mfer_traceBlockByNumberRange n1 n2 config) b w = Some (b', w') \<and> node_ok E b' w'"
    if "served E X (rpc_mfer_traceBlockByNumberRange n1 n2 config) b w"
    using TraceRange_ok [OF g(1) _ g(3) assms(2), of config n1 n2] that by auto
qed

lemma serve_ok:
  assumes "geth_ok E X" "node_ok E b w" "served E X req b w"
  shows "\<exists>b' w'. serve E X req b w = Some (b', w') \<and> node_ok E b' w'"
  using assms(3) serve_reads [OF assms(2)] serve_simulations [OF assms(1,2)] serve_changes [OF assms(1,2)] serve_moves [OF assms(1,2)]
  by (cases req) (simp_all only:, simp_all add: node_settings assms(2))

interpretation node_machine: safe_machine "node_step E X" "\<lambda>(b, w). geth_ok E X \<and> node_ok E b w" for E X
proof
  fix s n
  assume s: "case s of (b, w) \<Rightarrow> geth_ok E X \<and> node_ok E b w" and step: "node_step E X s n"
  obtain b w where bw: "s = (b, w)" by fastforce
  from step obtain req where "served E X req b w" "n = serve E X req b w" unfolding bw by (elim node_stepE) blast
  with serve_ok [of E X b w req] s bw show "\<exists>s'. n = Some s' \<and> (case s' of (b, w) \<Rightarrow> geth_ok E X \<and> node_ok E b w)" by auto
qed

end
