(* ===== verification/NodeSpec.thy ===== *)
theory NodeSpec
  imports Node
begin

text \<open>
  What the node as a whole promises: its invariant along every sequence of requests, that requests
  are served and start-up ends, and what each kind of handler does to the pool and the state.
\<close>

section \<open>A node to try things on\<close>

definition demo_node :: "nat MferBackend" where
  "demo_node = NewMferBackend demo_evm (AddTx demo_tx None NewMferTxPool) 5 False"

definition node_world :: world where
  "node_world = demo_world\<lparr>bigs := [0, 8, 1000, 2], clock := 5\<rparr>"

lemma demo_wf_cong: "heap w = heap demo_world \<Longrightarrow> blockNumber w = blockNumber demo_world \<Longrightarrow> db_ok demo_env demo_db w"
  using demo_db_ok wf_world_cong [of w demo_world] by (simp add: db_ok_def)

lemma demo_node_ok: "node_ok demo_env demo_node node_world"
proof -
  have "db_ok demo_env demo_db node_world" by (rule demo_wf_cong) (simp_all add: node_world_def)
  then show ?thesis
    by (simp add: node_ok_def demo_node_def NewMferBackend_def backend_db_def demo_evm_def demo_db_def demo_env_def
        pool_ok_def AddTx_def NewMferTxPool_def cells_def node_world_def)
qed

lemma demo_node_db: "backend_db demo_node = Some demo_db"
  by (simp add: demo_node_def NewMferBackend_def backend_db_def demo_evm_def)

lemma demo_reachable: "reachable_from demo_env (clock node_world)"
  by (simp add: reachable_from_def demo_env_def node_world_def)

lemma demo_headers: "headers_ok demo_geth"
  by (simp add: headers_ok_def demo_geth_def)

lemma demo_traced: "traced_ok demo_env demo_geth"
proof -
  have "run_traced jstep (capture_any demo_env demo_geth) (g_ApplyMessage demo_geth b c m g) t j \<noteq> None"
    if "t \<noteq> NoTracer" for b c m g t and j :: journal
    using that by (cases t) (simp_all add: demo_geth_def demo_apply_def write_view_saved)
  then show ?thesis by (simp add: traced_ok_def)
qed

lemma demo_geth_ok: "geth_ok demo_env demo_geth"
  by (simp add: geth_ok_def demo_machine demo_tracers demo_traced demo_headers)

section \<open>The state machine\<close>

lemma tx_data_ok:
  "i + length transactions \<le> length results \<Longrightarrow> \<exists>ds. tx_data X a i transactions results = Some ds \<and>
     map td_PseudoTxHash ds = map (te_hash (g_tx X)) transactions"
proof (induction transactions arbitrary: i)
  case (Cons tx rest)
  from Cons.IH [of "Suc i"] Cons.prems obtain ds where "tx_data X a (Suc i) rest results = Some ds"
    "map td_PseudoTxHash ds = map (te_hash (g_tx X)) rest" by auto
  with Cons.prems show ?case by (simp add: go_index_def Let_def)
qed simp

text \<open>C3.
  Whatever requests are served, in whatever order and interleaved with turns of the background loop,
  the node stays in order: its state database is on a derived layer of a well-formed heap whose
  cached values are the upstream node's, the pool has one result per transaction (so that listing it
  does not panic and gives the transactions in order), and the block context's numbers are four
  different existing cells.
\<close>

theorem node_stays_in_order:
  assumes "geth_ok E X" "node_ok E b w" "outcomes (node_step E X) (b, w) n"
  shows "\<exists>b' w' ds. n = Some (b', w') \<and> node_ok E b' w' \<and> GetTxs X b' = Some ds \<and>
    map td_PseudoTxHash ds = map (te_hash (g_tx X)) (txs (b_TxPool b'))"
proof -
  obtain b' w' where n: "n = Some (b', w')" "node_ok E b' w'"
    using node_machine.outcome_ok [OF assms(3)] assms(1,2) by auto
  then have "length (txs (b_TxPool b')) = length (execResults (b_TxPool b'))" by (simp add: node_ok_def pool_ok_def)
  with tx_data_ok [of 0 "txs (b_TxPool b')" "execResults (b_TxPool b')" X "b_EVM b'"] n show ?thesis
    by (auto simp: GetTxs_def GetPoolTxs_def)
qed

theorem node_stays_in_order_witness:
  "geth_ok demo_env demo_geth \<and> node_ok demo_env demo_node node_world \<and>
   (let b1 = Action_SetTimeDelta 60 demo_node in
    outcomes (node_step demo_env demo_geth) (demo_node, node_world) (ReExecTxPool demo_env demo_geth b1 node_world) \<and>
    (\<exists>b' w'. ReExecTxPool demo_env demo_geth b1 node_world = Some (b', w') \<and> node_ok demo_env b' w'))"
proof -
  let ?b = "Action_SetTimeDelta 60 demo_node"
  have "node_step demo_env demo_geth (demo_node, node_world) (Some (?b, node_world))"
    using node_step.request [of demo_env demo_geth "rpc_mfer_setTimeDelta 60" demo_node node_world] by simp
  moreover have "node_step demo_env demo_geth (?b, node_world) (ReExecTxPool demo_env demo_geth ?b node_world)"
    using node_step.request [of demo_env demo_geth rpc_mfer_reExecTxPool ?b node_world] demo_reachable by simp
  ultimately have s: "outcomes (node_step demo_env demo_geth) (demo_node, node_world) (ReExecTxPool demo_env demo_geth ?b node_world)"
    by (blast intro: outcomes.intros)
  from node_stays_in_order [OF demo_geth_ok demo_node_ok s] s demo_geth_ok demo_node_ok show ?thesis by (auto simp: Let_def)
qed

text \<open>C12.
  The node never gets stuck: after any sequence of requests, every further request whose outside
  conditions hold (\<^const>\<open>served\<close>) is served, that is, its handler returns without a panic.
\<close>

theorem requests_are_served:
  assumes "geth_ok E X" "node_ok E b w" "outcomes (node_step E X) (b, w) (Some (b', w'))" "served E X req b' w'"
  shows "\<exists>b'' w''. serve E X req b' w' = Some (b'', w'') \<and> outcomes (node_step E X) (b, w) (Some (b'', w''))"
proof -
  have "node_ok E b' w'" using node_machine.outcome_state [OF assms(3)] assms(1,2) by simp
  from serve_ok [OF assms(1) this assms(4)] outcomes.further [OF assms(3) node_step.request [OF assms(4)]] show ?thesis by auto
qed

theorem requests_are_served_witness:
  "geth_ok demo_env demo_geth \<and> served demo_env demo_geth rpc_mfer_reExecTxPool demo_node node_world \<and>
   (\<exists>b' w'. serve demo_env demo_geth rpc_mfer_reExecTxPool demo_node node_world = Some (b', w'))"
  using requests_are_served [OF demo_geth_ok demo_node_ok outcomes.here, of rpc_mfer_reExecTxPool]
    demo_reachable demo_geth_ok by auto

text \<open>C14.
  Starting up ends. Once the upstream node can be dialled and tells its chain id, whatever failures
  came before, the program has built its node: the node is in order, its pool is empty, its state is the
  upstream state at the block it chose with the five funded accounts, it stays on that block
  exactly when the URL named a height, passthrough and chain id are as the flags say, and \<^verbatim>\<open>main\<close> serves requests.
\<close>

theorem start_up_returns:
  assumes "os_ready OS flag_Parse fl" "parse_upstream (fl_upstream fl) = Some (url, height)"
    and "upstream_ok E" "headers_ok X" "\<forall>t\<ge>T. n_Dial X t url = None \<and> (\<exists>c. n_ChainID X t = Inr c)"
    and "reachable_from E (clock w)" "heap w = []" "0 < fl_batchsize fl" "\<not> openfile_err E (fl_keycache fl)"
  shows "\<exists>b w' db. mfer_main OS E X flag_Parse w = Some (Serving b w') \<and> node_ok E b w' \<and> GetPoolTxs (b_TxPool b) = ([], []) \<and>
    pinBlock (b_EVM b) = (height \<noteq> None) \<and> b_Passthrough b = fl_passthrough fl \<and>
    (fl_chainid fl \<noteq> 0 \<longrightarrow> Eth_ChainId b = sint (fl_chainid fl)) \<and>
    backend_db b = Some db \<and> view E w' (state db) = funded E (uval E (blockNumber w'))"
proof -
  let ?acc = "HexToAddress (fl_account fl)"
  obtain a' w' db where s: "NewMferEVM E X (fl_upstream fl) ?acc (fl_keycache fl) (fl_maxkeys fl) (fl_batchsize fl) w = Some (a', w')"
    "node_ok E (NewMferBackend a' NewMferTxPool ?acc (fl_rand fl)) w'" "pinBlock a' = (height \<noteq> None)"
    "StateDB a' = Some db" "view E w' (state db) = funded E (uval E (blockNumber w'))"
    using NewMferEVM_ok [OF assms(2-9)] by blast
  then show ?thesis
    by (simp add: mfer_main_serves [OF assms(1)] start_node_def Let_def node_ok_def NewMferBackend_def backend_db_def GetPoolTxs_def
        NewMferTxPool_def Eth_ChainId_def)
qed

definition demo_os :: os_env where
  "demo_os = \<lparr>os_UserCacheDir = Inr ''/home/me/.cache/'', os_MkdirAll = (\<lambda>_. None), os_rotatelogs = (\<lambda>_. None),
     os_node = (\<lambda>_ _. None), os_Start = None, os_Attach = None\<rparr>"

lemma demo_keys: "defaultKeyCacheFilePath demo_os = Some ''/home/me/.cache/MferSafe/scratchPadKeyCache.txt''"
  by code_simp

theorem start_up_returns_witness:
  "let flag_Parse = (\<lambda>fl. fl\<lparr>fl_upstream := ''http://node@7''\<rparr>) in
   \<exists>b w' db. mfer_main demo_os demo_env demo_geth flag_Parse (node_world\<lparr>heap := []\<rparr>) = Some (Serving b w') \<and>
      pinBlock (b_EVM b) \<and> b_Passthrough b \<and> backend_db b = Some db"
proof -
  let ?parse = "\<lambda>fl. fl\<lparr>fl_upstream := ''http://node@7''\<rparr>"
  let ?fl = "?parse (default_flags ''/home/me/.cache/MferSafe/scratchPadKeyCache.txt'')"
  have u: "parse_upstream (fl_upstream ?fl) = Some (''http://node'', Some 7)" by code_simp
  have "parse_listen (fl_listen ?fl) = Some (Inr (''127.0.0.1'', 10545))" by code_simp
  then have o: "os_ready demo_os ?parse ?fl" using demo_keys unfolding os_ready_def
    by (intro exI [of _ "''/home/me/.cache/MferSafe/scratchPadKeyCache.txt''"] exI [of _ "''127.0.0.1''"] exI [of _ 10545])
      (simp add: demo_os_def default_flags_def)
  have d: "\<forall>t\<ge>3. n_Dial demo_geth t ''http://node'' = None \<and> (\<exists>c. n_ChainID demo_geth t = Inr c)"
    by (simp add: demo_geth_def)
  have r: "reachable_from demo_env (clock (node_world\<lparr>heap := []\<rparr>))" using demo_reachable by simp
  have "0 < fl_batchsize ?fl" "fl_passthrough ?fl" "\<not> openfile_err demo_env (fl_keycache ?fl)"
    by (simp_all add: default_flags_def demo_env_def)
  with start_up_returns [OF o u upstream_ok_demo demo_headers d r] show ?thesis by (auto simp: Let_def)
qed

section \<open>Reading without writing\<close>

lemma view_clock [simp]: "view E (w\<lparr>clock := c\<rparr>) = view E w"
  by (simp add: fun_eq_iff view_def split: option.split)

lemma kept_everything:
  assumes "kept E w w'" "wf_world E w" "l < length (heap w)"
  shows "view E w' l = view E w l" "logs_at (heap w') l = logs_at (heap w) l" "receipts (st w' l) = receipts (st w l)"
proof -
  have "shown_at E w' l = shown_at E w l" by (rule kept_shown [OF assms(1) _ assms(3)]) (use assms(2) in \<open>simp add: wf_world_def\<close>)
  then show "view E w' l = view E w l" "logs_at (heap w') l = logs_at (heap w) l" by (auto simp: shown_at_def)
  show "receipts (st w' l) = receipts (st w l)" using kept_receipts [OF assms(1,3)] by (simp add: st_def)
qed



text \<open>C10.
  A call that is passed on sees the simulated state: the overrides that go with it, applied to the
  upstream state at the state's block, give every account the balance, nonce and code and every slot
  the value that the node's own database shows. The call is forwarded once, with the address
  replaced in its arguments, for the block \<^verbatim>\<open>latest\<close>; its answer comes back as it is, and nothing that existed
  has changed.
\<close>

theorem passthrough_sees_local_state:
  assumes "node_ok E b w" "backend_db b = Some db"
  shows "\<exists>diff w1. CallPassthrough E X b args None w =
      Some (case n_eth_call X (clock w1) (toCallArg (preprocessArgs E b args)) ''latest'' diff of
              Inl err \<Rightarrow> Inl (Err err) | Inr hex \<Rightarrow> Inr hex, b, w1\<lparr>clock := Suc (clock w1)\<rparr>) \<and>
    (\<forall>a k. overridden E (blockNumber w) diff a k =
       (balance_of E w db a, nonce_of E w db a, code_of E w db a, slot_of E w db (a, k))) \<and>
    (\<forall>l<length (heap w). view E w1 l = view E w l)"
proof -
  from CallPassthrough_ok [OF assms, of X args] obtain diff w1 where
    c: "CallPassthrough E X b args None w =
      Some (case n_eth_call X (clock w1) (toCallArg (preprocessArgs E b args)) ''latest'' diff of
              Inl err \<Rightarrow> Inl (Err err) | Inr hex \<Rightarrow> Inr hex, b, w1\<lparr>clock := Suc (clock w1)\<rparr>)"
    "kept E w (w1\<lparr>clock := Suc (clock w1)\<rparr>)"
    "\<forall>a k. overridden E (blockNumber w) diff a k =
       (balance_of E w db a, nonce_of E w db a, code_of E w db a, slot_of E w db (a, k))" by blast
  have "view E w1 l = view E w l" if "l < length (heap w)" for l
    using kept_everything(1) [OF c(2) node_wf [OF assms(1)] that] by simp
  with c show ?thesis by blast
qed

theorem passthrough_sees_local_state_witness:
  "node_ok demo_env demo_node node_world \<and> backend_db demo_node = Some demo_db \<and>
   (\<exists>diff w1. CallPassthrough demo_env demo_geth demo_node no_args None node_world =
      Some (Inr [], demo_node, w1\<lparr>clock := Suc (clock w1)\<rparr>) \<and>
      (\<forall>a k. overridden demo_env (blockNumber node_world) diff a k =
         (balance_of demo_env node_world demo_db a, nonce_of demo_env node_world demo_db a,
          code_of demo_env node_world demo_db a, slot_of demo_env node_world demo_db (a, k))))"
proof -
  have "n_eth_call demo_geth t m tag d = Inr []" for t m tag d by (simp add: demo_geth_def)
  with passthrough_sees_local_state [OF demo_node_ok demo_node_db, of demo_geth no_args] demo_node_ok demo_node_db
  show ?thesis by auto
qed

section \<open>Sending\<close>

text \<open>C20.
  \<^verbatim>\<open>eth_sendTransaction\<close> always appends exactly one transaction, with one result, to the pool and
  returns its hash. The transaction has the sender's current nonce, gas price zero, the receiver of
  the request, and when it is executed its message is sent from the account that the request names,
  or else from the impersonated account.
\<close>

theorem send_appends_transaction:
  assumes "geth_ok E X" "stores_signature (g_setSignature X)" "reports_sender (g_AsMessage X)"
    and "node_ok E b w" "backend_db b = Some db"
  shows "let args' = preprocessArgs E b args;
             who = (case arg_From args' of Some a \<Rightarrow> if a = 0 then b_ImpersonatedAccount b else a
                    | None \<Rightarrow> b_ImpersonatedAccount b)
    in \<exists>tx r b' w'. SendTransaction E X b args w = Some (te_hash (g_tx X) tx, b', w') \<and>
      GetPoolTxs (b_TxPool b') = (txs (b_TxPool b) @ [tx], execResults (b_TxPool b) @ [r]) \<and>
      tx_Nonce tx = nonce_of E w db who \<and> tx_GasPrice tx = 0 \<and> tx_To tx = arg_To args' \<and>
      msg_From (EVM_TxToMessage X (b_EVM b') tx) = who"
proof -
  let ?args = "preprocessArgs E b args"
  let ?who = "case arg_From ?args of Some a \<Rightarrow> if a = 0 then b_ImpersonatedAccount b else a | None \<Rightarrow> b_ImpersonatedAccount b"
  have who: "send_sender b ?args = ?who" by (simp add: send_sender_def split: option.split)
  let ?n = "nonce_of E w db ?who"
  have g: "machine_ok X" "tracers_build E X None" using assms(1) by (simp_all add: geth_ok_def)
  from SendTransaction_ok [OF g assms(4,5), of args] obtain tx r b' w' where
    s: "sent_tx X b ?who ?n ?args = Some tx" "SendTransaction E X b args w = Some (te_hash (g_tx X) tx, b', w')"
      "b_TxPool b' = AddTx tx r (b_TxPool b)" unfolding who by blast
  from s(1) obtain tx0 where t0: "toTransaction (sent_args b ?n ?args) = Some tx0"
    "tx = g_setSignature X (sint (big_Int64 (EVM_ChainID (b_EVM b)))) 1 (big_SetBytes (Address_Bytes ?who)) MFERSIGNER_S tx0"
    by (auto simp: sent_tx_def)
  have f0: "tx_Nonce tx0 = ?n" "tx_To tx0 = arg_To ?args" "tx_GasPrice tx0 = 0"
    using t0(1) by (auto simp: toTransaction_def sent_args_def opt_else_def Let_def split: option.splits)
  have sig: "WithSignature (g_setSignature X) (NewSigner (big_Int64 (EVM_ChainID (b_EVM b)))) (Address_Bytes ?who) tx0 = Inr tx"
    by (simp add: WithSignature_def SignatureValues_def NewSigner_def Signer_ChainID_def t0(2))
  then have "msg_From (EVM_TxToMessage X (b_EVM b') tx) = ?who"
    using signed_recognised [OF assms(2,3)] by (simp add: EVM_TxToMessage_def)
  moreover obtain c where "tx = tx0\<lparr>tx_ChainID := c, tx_V := 1, tx_R := big_SetBytes (Address_Bytes ?who), tx_S := MFERSIGNER_S\<rparr>"
    unfolding t0(2) using assms(2) [unfolded stores_signature_def] by blast
  ultimately show ?thesis using s(2,3) f0 by (simp add: Let_def AddTx_def GetPoolTxs_def)
qed

theorem send_appends_transaction_witness:
  "stores_signature (g_setSignature demo_geth) \<and> reports_sender (g_AsMessage demo_geth) \<and>
   (\<exists>tx r b' w'. SendTransaction demo_env demo_geth demo_node (no_args\<lparr>arg_From := Some 4, arg_To := Some 1\<rparr>) node_world =
      Some (te_hash (g_tx demo_geth) tx, b', w') \<and> GetPoolTxs (b_TxPool b') = ([demo_tx, tx], [None, r]) \<and>
      msg_From (EVM_TxToMessage demo_geth (b_EVM b') tx) = 4)"
proof -
  have s: "stores_signature (g_setSignature demo_geth)" "reports_sender (g_AsMessage demo_geth)"
    using demo_signing by (simp_all add: demo_geth_def)
  have p: "preprocessArgs demo_env demo_node (no_args\<lparr>arg_From := Some 4, arg_To := Some 1\<rparr>) =
      no_args\<lparr>arg_From := Some 4, arg_To := Some 1\<rparr>"
    by (simp add: preprocessArgs_def demo_node_def NewMferBackend_def)
  have q: "txs (b_TxPool demo_node) = [demo_tx]" "execResults (b_TxPool demo_node) = [None]"
    by (simp_all add: demo_node_def NewMferBackend_def AddTx_def NewMferTxPool_def)
  from send_appends_transaction [OF demo_geth_ok s demo_node_ok demo_node_db, of "no_args\<lparr>arg_From := Some 4, arg_To := Some 1\<rparr>"]
  show ?thesis using s unfolding p q by (auto simp: Let_def)
qed

section \<open>Clearing and re-executing the pool\<close>

text \<open>C21.
  \<^verbatim>\<open>mfer_clearTxPool\<close> forgets everything that was simulated: the pool is empty afterwards, and every
  value that can be read is the upstream node's at the state's block, but for the five funded
  accounts, whose balances are raised by 1000 and, for the rich one, by a billion ether.
\<close>

theorem clear_pool_forgets:
  assumes "node_ok E b w"
  shows "\<exists>b' w' db'. ClearTxPool E b w = Some (b', w') \<and> GetPoolTxs (b_TxPool b') = ([], []) \<and>
    backend_db b' = Some db' \<and> db_ok E db' w' \<and> blockNumber w' = blockNumber w \<and>
    (\<forall>action a k. action \<noteq> GET_BALANCE \<or> a \<notin> {FAKE_ACCOUNT_0, FAKE_ACCOUNT_1, FAKE_ACCOUNT_2, FAKE_ACCOUNT_3, FAKE_ACCOUNT_RICH E} \<longrightarrow>
       view E w' (state db') action a k = uval E (blockNumber w) action a k) \<and>
    view E w' (state db') = funded E (uval E (blockNumber w))"
proof -
  from ClearTxPool_ok [OF assms] obtain b' w' db' where c: "ClearTxPool E b w = Some (b', w')" "node_ok E b' w'"
    "b_TxPool b' = NewMferTxPool" "backend_db b' = Some db'" "blockNumber w' = blockNumber w"
    "view E w' (state db') = funded E (uval E (blockNumber w))" by blast
  have "db_ok E db' w'" using node_db [OF c(2)] c(4) by auto
  moreover have "fst ` set (fund_list E) = {FAKE_ACCOUNT_0, FAKE_ACCOUNT_1, FAKE_ACCOUNT_2, FAKE_ACCOUNT_3, FAKE_ACCOUNT_RICH E}"
    by (simp add: fund_list_def)
  ultimately show ?thesis using c funded_others [of _ _ E "uval E (blockNumber w)"]
    by (simp add: GetPoolTxs_def NewMferTxPool_def)
qed

theorem clear_pool_forgets_witness:
  "node_ok demo_env demo_node node_world \<and> (\<exists>b' w' db'. ClearTxPool demo_env demo_node node_world = Some (b', w') \<and>
     GetPoolTxs (b_TxPool b') = ([], []) \<and> backend_db b' = Some db' \<and>
     view demo_env w' (state db') GET_STATE 1 2 = uval demo_env (blockNumber node_world) GET_STATE 1 2)"
  using clear_pool_forgets [OF demo_node_ok] demo_node_ok by fastforce

text \<open>C8.
  \<^verbatim>\<open>mfer_reExecTxPool\<close> returns. The pool's transactions and their order stay; the results are
  those of executing exactly these transactions, one each, on the state that \<^verbatim>\<open>Prepare\<close> leaves, and the node
  works on the state they lead to. Unless the chain id could not be read, that state is the upstream
  state at the number of the header just fetched, with the funded accounts.
\<close>

theorem reexec_on_new_block:
  assumes "geth_ok E X" "node_ok E b w" "reachable_from E (clock w)"
  shows "\<exists>err a1 w1 db1 results a2 db2 b' w'. Prepare E X (b_EVM b) w = Some (err, a1, w1) \<and> StateDB a1 = Some db1 \<and>
    ExecuteTxs E X a1 (txs (b_TxPool b)) db1 None w1 = Some (results, a2, db2, w') \<and>
    ReExecTxPool E X b w = Some (b', w') \<and> backend_db b' = Some db2 \<and> db_ok E db2 w' \<and>
    GetPoolTxs (b_TxPool b') = (txs (b_TxPool b), results) \<and> length results = length (txs (b_TxPool b)) \<and>
    (err = None \<longrightarrow> view E w1 (state db1) = funded E (uval E (blockNumber w1)) \<and>
       (\<exists>header. n_getBlockByNumber X (Suc (clock w)) (header_tag (b_EVM b) w) = Inr (Some (Some header)) \<and>
          blockNumber w1 = big_Uint64 (hd_Number header)))"
proof -
  have g: "machine_ok X" "tracers_build E X None" "headers_ok X" using assms(1) by (simp_all add: geth_ok_def)
  from Prepare_ok [OF assms(2,3) g(3)] obtain err a1 w1 where p: "Prepare E X (b_EVM b) w = Some (err, a1, w1)"
    "err = None \<longrightarrow> (\<exists>header db'. StateDB a1 = Some db' \<and>
       n_getBlockByNumber X (Suc (clock w)) (header_tag (b_EVM b) w) = Inr (Some (Some header)) \<and>
       blockNumber w1 = big_Uint64 (hd_Number header) \<and> view E w1 (state db') = funded E (uval E (blockNumber w1)))" by blast
  from ReExecTxPool_ok [OF g(1,2) assms(2,3) g(3)] p(1) obtain db1 results a2 db2 w2 where
    r: "StateDB a1 = Some db1" "ExecuteTxs E X a1 (txs (b_TxPool b)) db1 None w1 = Some (results, a2, db2, w2)"
      "moved E (db1, w1) (db2, w2)" "length results = length (txs (b_TxPool b))"
      "ReExecTxPool E X b w = Some (store_db a2 db2 (b\<lparr>b_TxPool := SetResults results (b_TxPool b)\<rparr>), w2)" by auto
  let ?b = "store_db a2 db2 (b\<lparr>b_TxPool := SetResults results (b_TxPool b)\<rparr>)"
  have "GetPoolTxs (b_TxPool ?b) = (txs (b_TxPool b), results)" "backend_db ?b = Some db2"
    by (simp_all add: store_db_def backend_db_def GetPoolTxs_def SetResults_def)
  with p r moved_parts(1) [OF r(3)] show ?thesis
    by (intro exI [of _ err] exI [of _ a1] exI [of _ w1] exI [of _ db1] exI [of _ results] exI [of _ a2]
        exI [of _ db2] exI [of _ ?b] exI [of _ w2]) auto
qed

theorem reexec_on_new_block_witness:
  "geth_ok demo_env demo_geth \<and> reachable_from demo_env (clock node_world) \<and>
   (\<exists>r b' w'. ReExecTxPool demo_env demo_geth demo_node node_world = Some (b', w') \<and>
      GetPoolTxs (b_TxPool b') = ([demo_tx], [r]))"
proof -
  have q: "txs (b_TxPool demo_node) = [demo_tx]" by (simp add: demo_node_def NewMferBackend_def AddTx_def NewMferTxPool_def)
  from reexec_on_new_block [OF demo_geth_ok demo_node_ok demo_reachable, unfolded q] obtain results b' w' where
    "ReExecTxPool demo_env demo_geth demo_node node_world = Some (b', w')" "GetPoolTxs (b_TxPool b') = ([demo_tx], results)"
    "length results = length [demo_tx]" by blast
  then show ?thesis using demo_geth_ok demo_reachable by (auto simp: length_Suc_conv)
qed

section \<open>Replaying\<close>



section \<open>The probe\<close>

text \<open>C33.
  \<^verbatim>\<open>probe_runTxWithDifferentContext\<close> leaves every layer as it is, but when it succeeds it has moved the node's
  own block context: the machine keeps pointing to the same number cells, and the time and the
  difficulty in them have become one larger, for every later call and transaction.
\<close>

theorem probe_moves_block_context:
  assumes "geth_ok E X" "node_ok E b w"
    and "RunTxWithDifferentContext E X b h w = Some (Inr ops, b', w')"
  shows "vmContext (b_EVM b') = vmContext (b_EVM b) \<and> b_TxPool b' = b_TxPool b \<and> backend_db b' = backend_db b \<and>
    be_Time (block_env (vmContext (b_EVM b')) w') = be_Time (block_env (vmContext (b_EVM b)) w) + 1 \<and>
    be_Difficulty (block_env (vmContext (b_EVM b')) w') = be_Difficulty (block_env (vmContext (b_EVM b)) w) + 1 \<and>
    be_BlockNumber (block_env (vmContext (b_EVM b')) w') = be_BlockNumber (block_env (vmContext (b_EVM b)) w) \<and>
    (\<forall>l<length (heap w). view E w' l = view E w l)"
proof -
  let ?c = "vmContext (b_EVM b)"
  have g: "machine_ok X" "tracers_build E X None" "traced_ok E X" using assms(1) by (simp_all add: geth_ok_def)
  from RunTx_ok [OF g assms(2), of h] assms(3) obtain a' where r: "b' = b\<lparr>b_EVM := a'\<rparr>" "same_but_gas (b_EVM b) a'"
    "kept E w w'" "bigs w' = bumped ?c (bigs w)" by auto
  have c: "vmContext a' = ?c" "StateDB a' = StateDB (b_EVM b)"
    using arg_cong [OF r(2) [unfolded same_but_gas_def], of vmContext] same_but_gas_evm [OF r(2)]
    by (simp_all add: same_evm_def)
  have d: "distinct (cells ?c)" "\<forall>i\<in>set (cells ?c). i < length (bigs w)" using assms(2) by (simp_all add: node_ok_def)
  then have "bigs w' ! bc_Time ?c = bigs w ! bc_Time ?c + 1" "bigs w' ! bc_Difficulty ?c = bigs w ! bc_Difficulty ?c + 1"
    "bigs w' ! bc_BlockNumber ?c = bigs w ! bc_BlockNumber ?c"
    unfolding r(4) by (auto simp: cells_def bumped_def Let_def)
  with c r(1) kept_everything(1) [OF r(3) node_wf [OF assms(2)]] show ?thesis by (simp add: block_env_def backend_db_def)
qed

lemma demo_apply_rejects:
  "run_traced step cap (demo_apply b c m g) t s = Some ((Inl err, gp), t', s') \<Longrightarrow> msg_Gas m < 21000"
  by (auto simp: demo_apply_def bind_eq_Some_conv split: if_splits)

lemma demo_probe_run:
  "probe_run demo_env demo_geth ctx cfg (EVM_TxToMessage demo_geth a demo_tx) t db w \<noteq> Some (Inl err, t', w')"
proof -
  have "\<not> msg_Gas (EVM_TxToMessage demo_geth a demo_tx) < 21000"
    by (simp add: EVM_TxToMessage_def TxToMessage_def demo_geth_def demo_message_def demo_tx_def)
  moreover have "g_ApplyMessage demo_geth = demo_apply" by (simp add: demo_geth_def)
  ultimately show ?thesis
    by (auto simp: probe_run_def Let_def bind_eq_Some_conv split: prod.splits sum.splits dest: demo_apply_rejects)
qed

lemma demo_probe: "\<exists>ops b' w'. RunTxWithDifferentContext demo_env demo_geth demo_node 1 node_world = Some (Inr ops, b', w')"
proof -
  let ?run = "RunTxWithDifferentContext demo_env demo_geth demo_node 1 node_world"
  obtain r b' w' where r: "?run = Some (r, b', w')"
    using RunTx_ok [OF demo_machine demo_tracers demo_traced demo_node_ok] by blast
  have s: "split_pool demo_geth 1 (b_TxPool demo_node) = Some ([], demo_tx)"
    by (simp add: split_pool_def demo_geth_def demo_node_def NewMferBackend_def AddTx_def NewMferTxPool_def GetPoolTxs_def
      demo_tx_def)
  have "r \<noteq> Inl err" for err
    using r s demo_probe_run
    by (auto simp: RunTxWithDifferentContext_def bind_eq_Some_conv Let_def split: sum.splits prod.splits) (metis sum.exhaust)
  with r show ?thesis by (cases r) auto
qed

theorem probe_moves_block_context_witness:
  "geth_ok demo_env demo_geth \<and> node_ok demo_env demo_node node_world \<and>
   (\<exists>ops b' w'. RunTxWithDifferentContext demo_env demo_geth demo_node 1 node_world = Some (Inr ops, b', w') \<and>
      be_Time (block_env (vmContext (b_EVM b')) w') = be_Time (block_env (vmContext (b_EVM demo_node)) node_world) + 1)"
proof -
  obtain ops b' w' where r: "RunTxWithDifferentContext demo_env demo_geth demo_node 1 node_world = Some (Inr ops, b', w')"
    using demo_probe by blast
  from probe_moves_block_context [OF demo_geth_ok demo_node_ok r] r demo_geth_ok demo_node_ok show ?thesis by blast
qed

section \<open>The Safe\<close>


lemma demo_accepts: "\<not> call_rejected demo_env demo_geth owner safe"
proof
  assume "call_rejected demo_env demo_geth owner safe"
  then obtain a msg db w err a' db' w' where "msg_Gas msg = 5000000"
    "DoCall demo_env demo_geth a msg True db w = Some (Inl err, a', db', w')" unfolding call_rejected_def by blast
  then show False
    by (auto simp: DoCall_def Let_def demo_geth_def demo_apply_def bind_eq_Some_conv split: if_splits sum.splits)
qed


end
