(* ===== verification/Mutex.thy ===== *)
theory Mutex
  imports Prelude
begin

text \<open>
  A \<^verbatim>\<open>sync.Mutex\<close> and the goroutines that run between its \<^verbatim>\<open>Lock\<close> and \<^verbatim>\<open>Unlock\<close>: each goroutine is at some
  point of its code, which says what it does next, and the steps of all of them interleave in any
  order. The locale states what handlers have to keep to so that they can be explained by one serial
  order; the handlers of the node are put into it in \<^verbatim>\<open>NodeLocks\<close>.
\<close>

section \<open>Goroutines around a mutex\<close>

text \<open>What a goroutine does next: lock the mutex or unlock it and go on, act on the shared state, or nothing any more.\<close>

datatype 'p turn = Acquire 'p | Release 'p | Act | Stopped

record ('p, 's) locked =
  lk_holder :: "nat option"
  lk_threads :: "'p list"
  lk_shared :: 's

text \<open>
  One step of the goroutine \<open>i\<close>: \<^const>\<open>None\<close> when it cannot move, because it has ended or waits for the mutex;
  \<^term>\<open>Some None\<close> when its action panics, or when it unlocks a mutex that nobody holds.
\<close>

definition thread_step ::
  "('p \<Rightarrow> 'p turn) \<Rightarrow> ('p \<Rightarrow> 's \<Rightarrow> ('p \<times> 's) option) \<Rightarrow> nat \<Rightarrow> ('p, 's) locked \<Rightarrow> ('p, 's) locked option option" where
  "thread_step turn act i r =
     (if i < length (lk_threads r) then
        (case turn (lk_threads r ! i) of
           Acquire p \<Rightarrow>
             if lk_holder r = None then Some (Some (r\<lparr>lk_holder := Some i, lk_threads := (lk_threads r)[i := p]\<rparr>)) else None
         | Release p \<Rightarrow>
             Some (if lk_holder r = None then None else Some (r\<lparr>lk_holder := None, lk_threads := (lk_threads r)[i := p]\<rparr>))
         | Act \<Rightarrow>
             Some (map_option (\<lambda>(p, s). r\<lparr>lk_threads := (lk_threads r)[i := p], lk_shared := s\<rparr>) (act (lk_threads r ! i) (lk_shared r)))
         | Stopped \<Rightarrow> None)
      else None)"

inductive interleaved ::
  "('p \<Rightarrow> 'p turn) \<Rightarrow> ('p \<Rightarrow> 's \<Rightarrow> ('p \<times> 's) option) \<Rightarrow> ('p, 's) locked \<Rightarrow> ('p, 's) locked option \<Rightarrow> bool"
  for turn act where
  moves: "thread_step turn act i r = Some n \<Longrightarrow> interleaved turn act r n"

inductive_cases interleavedE: "interleaved turn act r n"

text \<open>A schedule: who moves next, step by step.\<close>

fun follow ::
  "('p \<Rightarrow> 'p turn) \<Rightarrow> ('p \<Rightarrow> 's \<Rightarrow> ('p \<times> 's) option) \<Rightarrow> nat list \<Rightarrow> ('p, 's) locked \<Rightarrow> ('p, 's) locked option" where
  "follow turn act [] r = Some r"
| "follow turn act (i # schedule) r = (case thread_step turn act i r of Some (Some r1) \<Rightarrow> follow turn act schedule r1 | _ \<Rightarrow> None)"

lemma follow_outcome: "follow turn act schedule r = Some r' \<Longrightarrow> outcomes (interleaved turn act) r (Some r')"
proof (induction schedule arbitrary: r)
  case (Cons i schedule)
  then obtain r1 where r1: "thread_step turn act i r = Some (Some r1)" "follow turn act schedule r1 = Some r'"
    by (auto split: option.splits)
  from outcomes_first [of "interleaved turn act", OF interleaved.moves [of turn act, OF r1(1)] Cons.IH [OF r1(2)]] show ?case .
qed (simp add: outcomes.here)

lemma moves_act:
  "i < length (lk_threads r) \<Longrightarrow> turn (lk_threads r ! i) = Act \<Longrightarrow> act (lk_threads r ! i) (lk_shared r) = Some (p, s) \<Longrightarrow>
   interleaved turn act r (Some (r\<lparr>lk_threads := (lk_threads r)[i := p], lk_shared := s\<rparr>))"
  by (rule interleaved.moves [of turn act i]) (simp add: thread_step_def)

lemma moves_acquire:
  "i < length (lk_threads r) \<Longrightarrow> turn (lk_threads r ! i) = Acquire p \<Longrightarrow> lk_holder r = None \<Longrightarrow>
   interleaved turn act r (Some (r\<lparr>lk_holder := Some i, lk_threads := (lk_threads r)[i := p]\<rparr>))"
  by (rule interleaved.moves [of turn act i]) (simp add: thread_step_def)

lemma moves_release:
  "i < length (lk_threads r) \<Longrightarrow> turn (lk_threads r ! i) = Release p \<Longrightarrow> lk_holder r \<noteq> None \<Longrightarrow>
   interleaved turn act r (Some (r\<lparr>lk_holder := None, lk_threads := (lk_threads r)[i := p]\<rparr>))"
  by (rule interleaved.moves [of turn act i]) (simp add: thread_step_def)

text \<open>One request after the other, with the answers.\<close>

fun serially :: "('q \<Rightarrow> 's \<Rightarrow> ('r \<times> 's) option) \<Rightarrow> 'q list \<Rightarrow> 's \<Rightarrow> ('r list \<times> 's) option" where
  "serially whole [] s = Some ([], s)"
| "serially whole (q # qs) s = do { (r, s1) \<leftarrow> whole q s; (rs, s2) \<leftarrow> serially whole qs s1; Some (r # rs, s2) }"

lemma serially_snoc:
  "serially whole qs s = Some (rs, s1) \<Longrightarrow> whole q s1 = Some (r, s2) \<Longrightarrow> serially whole (qs @ [q]) s = Some (rs @ [r], s2)"
  by (induction qs arbitrary: s rs) (auto simp: bind_eq_Some_conv)

lemma serially_length: "serially whole qs s = Some (rs, s') \<Longrightarrow> length rs = length qs"
  by (induction qs arbitrary: s rs) (auto simp: bind_eq_Some_conv)

text \<open>Replacing the point of one goroutine.\<close>

lemma nth_update: "xs[i := x] ! j = (if i = j \<and> j < length xs then x else xs ! j)"
  by (cases "i = j") (simp_all add: list_update_beyond)

lemma map_nth_update: "i \<notin> set order \<Longrightarrow> map ((!) (xs[i := x])) order = map ((!) xs) order"
  by (rule map_cong) (auto simp: nth_update)

lemma sum_update_less:
  assumes "i < length xs" "f x < (f (xs ! i) :: nat)"
  shows "sum_list (map f (xs[i := x])) < sum_list (map f xs)"
  using assms by (induction xs arbitrary: i) (auto simp: nth_Cons split: nat.splits)

section \<open>Handlers that lock\<close>

text \<open>
  Handlers that take the mutex once: before it they only look at what nobody changes (\<open>same\<close>), inside
  it the points know what is left to do (\<open>rest\<close>), and after it they only return. \<open>whole\<close> is the handler
  run alone.
\<close>

locale locked_handlers =
  fixes turn :: "'p \<Rightarrow> 'p turn" and act :: "'p \<Rightarrow> 's \<Rightarrow> ('p \<times> 's) option"
    and whole :: "'q \<Rightarrow> 's \<Rightarrow> ('r \<times> 's) option" and takes :: "'q \<Rightarrow> bool" and start :: "'q \<Rightarrow> 'p"
    and before :: "'q \<Rightarrow> 's \<Rightarrow> 'p \<Rightarrow> bool" and inside :: "'p \<Rightarrow> bool" and rest :: "'p \<Rightarrow> 's \<Rightarrow> ('r \<times> 's) option"
    and returned :: "'r \<Rightarrow> 'p" and same :: "'s \<Rightarrow> 's \<Rightarrow> bool" and good :: "'s \<Rightarrow> bool" and work :: "'p \<Rightarrow> nat"
  assumes whole_good: "takes q \<Longrightarrow> good s \<Longrightarrow> \<exists>r s'. whole q s = Some (r, s') \<and> good s'"
    and start_before: "takes q \<Longrightarrow> before q s (start q)"
    and before_same: "before q s p \<Longrightarrow> same s s' \<Longrightarrow> before q s' p"
    and before_turn: "before q s p \<Longrightarrow> turn p = Act \<or> (\<exists>p'. turn p = Acquire p')"
    and before_act: "before q s p \<Longrightarrow> turn p = Act \<Longrightarrow> \<exists>p'. act p s = Some (p', s) \<and> before q s p' \<and> work p' < work p"
    and before_enter: "before q s p \<Longrightarrow> turn p = Acquire p' \<Longrightarrow> inside p' \<and> rest p' s = whole q s \<and> work p' < work p"
    and inside_turn: "inside p \<Longrightarrow> turn p = Act \<or> (\<exists>p'. turn p = Release p')"
    and inside_act: "inside p \<Longrightarrow> turn p = Act \<Longrightarrow> act p s = Some (p', s') \<Longrightarrow>
      inside p' \<and> rest p s = rest p' s' \<and> same s s' \<and> work p' < work p"
    and inside_panic: "inside p \<Longrightarrow> turn p = Act \<Longrightarrow> act p s = None \<Longrightarrow> rest p s = None"
    and inside_leave: "inside p \<Longrightarrow> turn p = Release p' \<Longrightarrow> \<exists>r. p' = returned r \<and> rest p s = Some (r, s) \<and> 0 < work p"
    and returned_turn: "turn (returned r) = Stopped" and returned_work: "work (returned r) = 0"
    and same_refl: "same s s" and same_trans: "same s1 s2 \<Longrightarrow> same s2 s3 \<Longrightarrow> same s1 s3" and same_sym: "same s1 s2 \<Longrightarrow> same s2 s1"
begin

text \<open>
  The goroutines of the requests \<open>qs\<close>, explained: those in \<open>order\<close> have returned, with the answers of the serial
  run in that order; the state is the one that run ends in, or the holder of the mutex is on its way from
  it; and everybody else is still before the mutex.
\<close>

definition serves :: "'q list \<Rightarrow> 's \<Rightarrow> ('p, 's) locked \<Rightarrow> nat list \<Rightarrow> 'r list \<Rightarrow> 's \<Rightarrow> bool" where
  "serves qs s0 r order rs s \<longleftrightarrow>
     length (lk_threads r) = length qs \<and> same s0 (lk_shared r) \<and> good s \<and>
     distinct order \<and> set order \<subseteq> {..<length qs} \<and> serially whole (map ((!) qs) order) s0 = Some (rs, s) \<and>
     map ((!) (lk_threads r)) order = map returned rs \<and>
     (\<forall>i<length qs. i \<notin> set order \<longrightarrow> lk_holder r \<noteq> Some i \<longrightarrow> before (qs ! i) s0 (lk_threads r ! i)) \<and>
     (case lk_holder r of
        None \<Rightarrow> lk_shared r = s
      | Some h \<Rightarrow> h < length qs \<and> h \<notin> set order \<and> inside (lk_threads r ! h) \<and>
          rest (lk_threads r ! h) (lk_shared r) = whole (qs ! h) s)"

definition explained :: "'q list \<Rightarrow> 's \<Rightarrow> ('p, 's) locked \<Rightarrow> bool" where
  "explained qs s0 r \<longleftrightarrow> (\<forall>q\<in>set qs. takes q) \<and> (\<exists>order rs s. serves qs s0 r order rs s)"

definition left :: "('p, 's) locked \<Rightarrow> nat" where
  "left r = sum_list (map work (lk_threads r))"

lemma explained_start:
  assumes "\<forall>q\<in>set qs. takes q" "good s"
  shows "explained qs s \<lparr>lk_holder = None, lk_threads = map start qs, lk_shared = s\<rparr>"
proof -
  have "serves qs s \<lparr>lk_holder = None, lk_threads = map start qs, lk_shared = s\<rparr> [] [] s"
    using assms start_before by (simp add: serves_def same_refl)
  then show ?thesis using assms(1) unfolding explained_def by blast
qed

lemma stopped_returned:
  assumes "serves qs s0 r order rs s" "i \<in> set order"
  shows "turn (lk_threads r ! i) = Stopped"
proof -
  have "map ((!) (lk_threads r)) order = map returned rs" using assms(1) by (simp add: serves_def)
  then have "(!) (lk_threads r) ` set order = returned ` set rs" by (metis set_map)
  then have "lk_threads r ! i \<in> returned ` set rs" using assms(2) by blast
  then show ?thesis using returned_turn by auto
qed

text \<open>A step of a goroutine before the mutex, of the one that gets it, and of the one that holds it.\<close>

lemma step_before:
  assumes "serves qs s0 r order rs s" "i < length qs" "i \<notin> set order" "lk_holder r \<noteq> Some i" "turn (lk_threads r ! i) = Act"
  shows "\<exists>p. act (lk_threads r ! i) (lk_shared r) = Some (p, lk_shared r) \<and> work p < work (lk_threads r ! i) \<and>
    serves qs s0 (r\<lparr>lk_threads := (lk_threads r)[i := p]\<rparr>) order rs s"
proof -
  note a = assms(1) [unfolded serves_def]
  have b: "before (qs ! i) s0 (lk_threads r ! i)" and same: "same s0 (lk_shared r)" using a assms(2-4) by blast+
  obtain p where p: "act (lk_threads r ! i) (lk_shared r) = Some (p, lk_shared r)" "before (qs ! i) (lk_shared r) p"
    "work p < work (lk_threads r ! i)" using before_act [OF before_same [OF b same] assms(5)] by blast
  have "before (qs ! i) s0 p" by (rule before_same [OF p(2) same_sym [OF same]])
  with a assms(3,4) p(1,3) show ?thesis
    unfolding serves_def by (auto simp: map_nth_update nth_update split: option.splits)
qed

lemma step_acquire:
  assumes "serves qs s0 r order rs s" "i < length qs" "turn (lk_threads r ! i) = Acquire p" "lk_holder r = None"
  shows "work p < work (lk_threads r ! i)"
    and "serves qs s0 (r\<lparr>lk_holder := Some i, lk_threads := (lk_threads r)[i := p]\<rparr>) order rs s"
proof -
  note a = assms(1) [unfolded serves_def]
  have out: "i \<notin> set order" using stopped_returned [OF assms(1), of i] assms(3) by auto
  then have "before (qs ! i) s0 (lk_threads r ! i)" "same s0 (lk_shared r)" using a assms(2,4) by auto
  from before_enter [OF before_same [OF this] assms(3)]
  have e: "inside p" "rest p (lk_shared r) = whole (qs ! i) (lk_shared r)" "work p < work (lk_threads r ! i)" by blast+
  then show "work p < work (lk_threads r ! i)" by blast
  show "serves qs s0 (r\<lparr>lk_holder := Some i, lk_threads := (lk_threads r)[i := p]\<rparr>) order rs s"
    using a assms(2,4) e(1,2) out unfolding serves_def by (auto simp: map_nth_update nth_update)
qed

lemma step_inside:
  assumes "serves qs s0 r order rs s" "\<forall>q\<in>set qs. takes q" "lk_holder r = Some h" "turn (lk_threads r ! h) = Act"
  shows "\<exists>p s'. act (lk_threads r ! h) (lk_shared r) = Some (p, s') \<and> work p < work (lk_threads r ! h) \<and>
    serves qs s0 (r\<lparr>lk_threads := (lk_threads r)[h := p], lk_shared := s'\<rparr>) order rs s"
proof -
  note a = assms(1) [unfolded serves_def]
  have h: "h < length qs" "h \<notin> set order" "inside (lk_threads r ! h)"
    "rest (lk_threads r ! h) (lk_shared r) = whole (qs ! h) s" "good s" using a assms(3) by auto
  have "takes (qs ! h)" using assms(2) h(1) by simp
  then have "rest (lk_threads r ! h) (lk_shared r) \<noteq> None" using whole_good [OF _ h(5)] h(4) by force
  then obtain p s' where p: "act (lk_threads r ! h) (lk_shared r) = Some (p, s')"
    using inside_panic [OF h(3) assms(4)] by fastforce
  note i = inside_act [OF h(3) assms(4) p]
  have "same s0 s'" using same_trans a i by blast
  with a assms(3) h p i show ?thesis unfolding serves_def by (auto simp: map_nth_update nth_update)
qed

lemma step_release:
  assumes "serves qs s0 r order rs s" "\<forall>q\<in>set qs. takes q" "lk_holder r = Some h" "turn (lk_threads r ! h) = Release p"
  shows "work p < work (lk_threads r ! h)"
    and "\<exists>v. serves qs s0 (r\<lparr>lk_holder := None, lk_threads := (lk_threads r)[h := p]\<rparr>) (order @ [h]) (rs @ [v]) (lk_shared r)"
proof -
  note a = assms(1) [unfolded serves_def]
  have h: "h < length qs" "h \<notin> set order" "inside (lk_threads r ! h)"
    "rest (lk_threads r ! h) (lk_shared r) = whole (qs ! h) s" "good s" using a assms(3) by auto
  obtain v where v: "p = returned v" "rest (lk_threads r ! h) (lk_shared r) = Some (v, lk_shared r)" "0 < work (lk_threads r ! h)"
    using inside_leave [OF h(3) assms(4)] by blast
  then show "work p < work (lk_threads r ! h)" by (simp add: returned_work)
  have w: "whole (qs ! h) s = Some (v, lk_shared r)" using v(2) h(4) by simp
  have "good (lk_shared r)" using whole_good [OF _ h(5), of "qs ! h"] assms(2) h(1) w by auto
  moreover have "serially whole (map ((!) qs) (order @ [h])) s0 = Some (rs @ [v], lk_shared r)"
    using a w by (auto intro: serially_snoc)
  ultimately show "\<exists>v. serves qs s0 (r\<lparr>lk_holder := None, lk_threads := (lk_threads r)[h := p]\<rparr>) (order @ [h]) (rs @ [v]) (lk_shared r)"
    using a assms(3) h v(1) unfolding serves_def by (intro exI [of _ v]) (auto simp: map_nth_update nth_update)
qed

text \<open>Every step of whoever moves is explained, and leaves less to do.\<close>

lemma thread_step_explained:
  assumes "explained qs s0 r" "thread_step turn act i r = Some n"
  shows "\<exists>r'. n = Some r' \<and> explained qs s0 r' \<and> left r' < left r"
proof -
  from assms(1) obtain order rs s where t: "\<forall>q\<in>set qs. takes q" and e: "serves qs s0 r order rs s" unfolding explained_def by blast
  have len: "length (lk_threads r) = length qs" using e by (simp add: serves_def)
  have i: "i < length qs" using assms(2) len by (auto simp: thread_step_def split: if_splits)
  have less: "left (r\<lparr>lk_holder := l, lk_threads := (lk_threads r)[i := p], lk_shared := s'\<rparr>) < left r"
    if "work p < work (lk_threads r ! i)" for p l s'
    using sum_update_less [of i "lk_threads r" work p] that i len by (simp add: left_def)
  show ?thesis
  proof (cases "turn (lk_threads r ! i)")
    case Act
    then have out: "i \<notin> set order" using stopped_returned [OF e, of i] by auto
    obtain p s' where "act (lk_threads r ! i) (lk_shared r) = Some (p, s')" "work p < work (lk_threads r ! i)"
      "serves qs s0 (r\<lparr>lk_threads := (lk_threads r)[i := p], lk_shared := s'\<rparr>) order rs s"
    proof (cases "lk_holder r = Some i")
      case True
      with step_inside [OF e t _ Act] that show thesis by blast
    next
      case False
      have same: "r\<lparr>lk_threads := x, lk_shared := lk_shared r\<rparr> = r\<lparr>lk_threads := x\<rparr>" for x by simp
      from step_before [OF e i out False Act] that same show thesis by metis
    qed
    with assms(2) i len Act t less [where p = p and l = "lk_holder r" and s' = s'] show ?thesis unfolding explained_def by (auto simp: thread_step_def)
  next
    case (Acquire p)
    then have free: "lk_holder r = None" using assms(2) by (auto simp: thread_step_def split: if_splits)
    from step_acquire [OF e i Acquire free] assms(2) i len Acquire free t less [where p = p and l = "Some i" and s' = "lk_shared r"]
    show ?thesis unfolding explained_def by (auto simp: thread_step_def)
  next
    case (Release p)
    then have out: "i \<notin> set order" using stopped_returned [OF e, of i] by auto
    have "lk_holder r = Some i"
    proof (rule ccontr)
      assume "lk_holder r \<noteq> Some i"
      then have "before (qs ! i) s0 (lk_threads r ! i)" using e i out by (simp add: serves_def)
      from before_turn [OF this] Release show False by simp
    qed
    from step_release [OF e t this Release] assms(2) i len Release this t less [where p = p and l = None and s' = "lk_shared r"]
    show ?thesis unfolding explained_def by (auto simp: thread_step_def)
  next
    case Stopped
    with assms(2) show ?thesis by (auto simp: thread_step_def split: if_splits)
  qed
qed

text \<open>As long as somebody has not returned, somebody can move.\<close>

lemma somebody_moves:
  assumes "explained qs s0 r" "\<exists>p\<in>set (lk_threads r). turn p \<noteq> Stopped"
  shows "\<exists>i n. thread_step turn act i r = Some n"
proof -
  from assms(1) obtain order rs s where t: "\<forall>q\<in>set qs. takes q" and e: "serves qs s0 r order rs s" unfolding explained_def by blast
  have len: "length (lk_threads r) = length qs" using e by (simp add: serves_def)
  show ?thesis
  proof (cases "lk_holder r")
    case (Some h)
    then have h: "h < length qs" "inside (lk_threads r ! h)" using e by (auto simp: serves_def)
    from inside_turn [OF h(2)] show ?thesis
      using h(1) len by (intro exI [of _ h]) (auto simp: thread_step_def)
  next
    case None
    from assms(2) len obtain i where i: "i < length qs" "turn (lk_threads r ! i) \<noteq> Stopped" by (metis in_set_conv_nth)
    then have "i \<notin> set order" using stopped_returned [OF e, of i] by auto
    then have "before (qs ! i) s0 (lk_threads r ! i)" using e i(1) None by (simp add: serves_def)
    from before_turn [OF this] show ?thesis
      using i(1) len None by (intro exI [of _ i]) (auto simp: thread_step_def)
  qed
qed

text \<open>A goroutine that holds the mutex, or finds it free, can run to its end while the others rest.\<close>

lemma runs_inside:
  assumes "inside (lk_threads r ! i)" "i < length (lk_threads r)" "lk_holder r = Some i"
    "rest (lk_threads r ! i) (lk_shared r) = Some (v, s)"
  shows "outcomes (interleaved turn act) r (Some (r\<lparr>lk_holder := None, lk_threads := (lk_threads r)[i := returned v], lk_shared := s\<rparr>))"
  using assms
proof (induction "work (lk_threads r ! i)" arbitrary: r rule: less_induct)
  case less
  from inside_turn [OF less.prems(1)] show ?case
  proof
    assume a: "turn (lk_threads r ! i) = Act"
    obtain p s' where p: "act (lk_threads r ! i) (lk_shared r) = Some (p, s')"
      using inside_panic [OF less.prems(1) a, of "lk_shared r"] less.prems(4) by fastforce
    note i = inside_act [OF less.prems(1) a p]
    let ?r = "r\<lparr>lk_threads := (lk_threads r)[i := p], lk_shared := s'\<rparr>"
    have "outcomes (interleaved turn act) ?r (Some (?r\<lparr>lk_holder := None, lk_threads := (lk_threads ?r)[i := returned v], lk_shared := s\<rparr>))"
      by (rule less.hyps) (use i less.prems in simp_all)
    then show ?case using outcomes_first [of "interleaved turn act", OF moves_act [of i r turn act p s', OF less.prems(2) a p]] by simp
  next
    assume "\<exists>p'. turn (lk_threads r ! i) = Release p'"
    then obtain p where p: "turn (lk_threads r ! i) = Release p" by blast
    from inside_leave [OF less.prems(1) p, of "lk_shared r"] less.prems(4) have "p = returned v" "s = lk_shared r" by auto
    with outcomes_one [of "interleaved turn act", OF moves_release [of i r turn p act, OF less.prems(2) p]] less.prems(3) show ?case by simp
  qed
qed

lemma runs_alone:
  assumes "before q (lk_shared r) (lk_threads r ! i)" "i < length (lk_threads r)" "lk_holder r = None" "whole q (lk_shared r) = Some (v, s)"
  shows "outcomes (interleaved turn act) r (Some (r\<lparr>lk_threads := (lk_threads r)[i := returned v], lk_shared := s\<rparr>))"
  using assms
proof (induction "work (lk_threads r ! i)" arbitrary: r rule: less_induct)
  case less
  from before_turn [OF less.prems(1)] show ?case
  proof
    assume a: "turn (lk_threads r ! i) = Act"
    obtain p where p: "act (lk_threads r ! i) (lk_shared r) = Some (p, lk_shared r)" "before q (lk_shared r) p"
      "work p < work (lk_threads r ! i)" using before_act [OF less.prems(1) a] by blast
    let ?r = "r\<lparr>lk_threads := (lk_threads r)[i := p], lk_shared := lk_shared r\<rparr>"
    have "outcomes (interleaved turn act) ?r (Some (?r\<lparr>lk_threads := (lk_threads ?r)[i := returned v], lk_shared := s\<rparr>))"
      by (rule less.hyps) (use p less.prems in simp_all)
    then show ?case using outcomes_first [of "interleaved turn act", OF moves_act [of i r turn act p "lk_shared r", OF less.prems(2) a p(1)]] by simp
  next
    assume "\<exists>p'. turn (lk_threads r ! i) = Acquire p'"
    then obtain p where p: "turn (lk_threads r ! i) = Acquire p" by blast
    note e = before_enter [OF less.prems(1) p]
    let ?r = "r\<lparr>lk_holder := Some i, lk_threads := (lk_threads r)[i := p]\<rparr>"
    have "outcomes (interleaved turn act) ?r (Some (?r\<lparr>lk_holder := None, lk_threads := (lk_threads ?r)[i := returned v], lk_shared := s\<rparr>))"
      by (rule runs_inside) (use e less.prems in simp_all)
    moreover have "r\<lparr>lk_holder := None, lk_threads := x, lk_shared := s\<rparr> = r\<lparr>lk_threads := x, lk_shared := s\<rparr>" for x
      using less.prems(3) by (cases r) simp
    ultimately show ?case using outcomes_first [of "interleaved turn act", OF moves_acquire [of i r turn p act, OF less.prems(2) p less.prems(3)]] by simp
  qed
qed

text \<open>When all have returned, one serial order explains all answers and the state.\<close>

lemma all_returned_serial:
  assumes "explained qs s0 r" "\<forall>p\<in>set (lk_threads r). turn p = Stopped"
  shows "\<exists>order rs. distinct order \<and> set order = {..<length qs} \<and>
    serially whole (map ((!) qs) order) s0 = Some (rs, lk_shared r) \<and> map ((!) (lk_threads r)) order = map returned rs \<and>
    good (lk_shared r)"
proof -
  from assms(1) obtain order rs s where e: "serves qs s0 r order rs s" unfolding explained_def by blast
  have len: "length (lk_threads r) = length qs" using e by (simp add: serves_def)
  have free: "lk_holder r = None"
  proof (cases "lk_holder r")
    case (Some h)
    then have "h < length qs" "inside (lk_threads r ! h)" using e by (auto simp: serves_def)
    with inside_turn [OF this(2)] assms(2) len show ?thesis by (metis nth_mem turn.distinct(9,11))
  qed
  have "i \<in> set order" if i: "i < length qs" for i
  proof (rule ccontr)
    assume "i \<notin> set order"
    then have "before (qs ! i) s0 (lk_threads r ! i)" using e i free by (simp add: serves_def)
    from before_turn [OF this] assms(2) i len show False by (metis nth_mem turn.distinct(5,11))
  qed
  with e free show ?thesis unfolding serves_def by (intro exI [of _ order] exI [of _ rs]) auto
qed

lemma nothing_left:
  assumes "explained qs s0 r"
  shows "left r = 0 \<longleftrightarrow> (\<forall>p\<in>set (lk_threads r). turn p = Stopped)"
proof
  assume "left r = 0"
  then show "\<forall>p\<in>set (lk_threads r). turn p = Stopped"
    using somebody_moves [OF assms] thread_step_explained [OF assms] by force
next
  assume a: "\<forall>p\<in>set (lk_threads r). turn p = Stopped"
  from all_returned_serial [OF assms a] obtain order rs where o: "set order = {..<length qs}"
    "map ((!) (lk_threads r)) order = map returned rs" by blast
  have "length (lk_threads r) = length qs" using assms by (auto simp: explained_def serves_def)
  then have "set (lk_threads r) = (!) (lk_threads r) ` set order" unfolding o(1) by (auto simp: in_set_conv_nth image_iff)
  also have "\<dots> = returned ` set rs" using o(2) by (metis set_map)
  finally show "left r = 0" by (auto simp: left_def returned_work)
qed

end

text \<open>The goroutines are a machine that never panics and can always finish.\<close>

sublocale locked_handlers \<subseteq> run: live_machine "interleaved turn act" "explained qs s0" left for qs s0
proof
  fix r n
  assume e: "explained qs s0 r"
  then show "interleaved turn act r n \<Longrightarrow> \<exists>r'. n = Some r' \<and> explained qs s0 r'"
    using thread_step_explained by (blast elim: interleavedE)
  assume "0 < left r"
  then obtain i n where "thread_step turn act i r = Some n" using nothing_left [OF e] somebody_moves [OF e] by auto
  with thread_step_explained [OF e] show "\<exists>r'. outcomes (interleaved turn act) r (Some r') \<and> left r' < left r"
    by (blast intro: outcomes_one interleaved.moves)
qed

context locked_handlers
begin

lemma run_bounded:
  assumes "((\<lambda>r r'. interleaved turn act r (Some r')) ^^ k) r r'" "explained qs s0 r"
  shows "k + left r' \<le> left r \<and> explained qs s0 r'"
  using assms
proof (induction k arbitrary: r')
  case (Suc k)
  then obtain r1 where "((\<lambda>r r'. interleaved turn act r (Some r')) ^^ k) r r1" "interleaved turn act r1 (Some r')" by auto
  with Suc.IH [of r1] Suc.prems(2) thread_step_explained [of qs s0 r1] show ?case
    by (fastforce elim: interleavedE)
qed simp

end

end
