(* ===== verification/NodeLocks.thy ===== *)
theory NodeLocks
  imports NodeSpec Mutex
begin

text \<open>
  The handlers that change the node, cut at the points where another goroutine can come between: the
  machine's state lock (\<^verbatim>\<open>StateLock\<close> and \<^verbatim>\<open>StateUnlock\<close> of \<^verbatim>\<open>mferevm/evm.go\<close>) and the calls that act on the
  node. The handlers that do all their work under the lock are explained by a serial order; those that
  change the pool outside it are not, and two such interleavings are shown.
\<close>

section \<open>The handlers in stages\<close>

type_synonym 't node = "'t MferBackend \<times> world"

text \<open>
  Where a goroutine that serves a request is, with its local variables. The stages up to \<open>Unlock\<close> are
  named after what comes next; \<open>Unlock\<close> is the deferred \<^verbatim>\<open>StateUnlock\<close>. The reply is the hash that
  \<^verbatim>\<open>SendTransaction\<close> returns (for \<^verbatim>\<open>PrintMoney\<close> the one it drops), and nothing for the others.
\<close>

datatype stage =
    Called request
  | Send_lock TransactionArgs address
  | Send_sign TransactionArgs address
  | Send_exec Transaction
  | Send_add Transaction "string option list"
  | Raw_exec Transaction
  | Raw_add Transaction "string option list"
  | Clear_lock
  | Clear_reset
  | Reset_prepare
  | ReExec_prepare
  | ReExec_run
  | ReExec_results "string option list"
  | Unlock "hash option"
  | Returned "hash option"

text \<open>What \<^verbatim>\<open>SendTransaction\<close> does before it takes the lock.\<close>

definition send_prepared :: "env \<Rightarrow> 't MferBackend \<Rightarrow> TransactionArgs \<Rightarrow> stage" where
  "send_prepared E b args0 =
     (let args1 = preprocessArgs E b args0
      in Send_lock (args1\<lparr>arg_GasPrice := Some 0, arg_MaxFeePerGas := None, arg_MaxPriorityFeePerGas := None\<rparr>)
           (send_sender b args1))"

text \<open>Under the lock: the gas, the nonce and the signature.\<close>

definition send_signed ::
  "env \<Rightarrow> 't geth \<Rightarrow> TransactionArgs \<Rightarrow> address \<Rightarrow> 't node \<Rightarrow> (Transaction \<times> world) option" where
  "send_signed E X args2 from = (\<lambda>(b, w). do {
     let args3 = (if arg_Gas args2 = None
                  then args2\<lparr>arg_Gas := Some (bc_GasLimit (GetVMContext (b_EVM b)) div 3)\<rparr> else args2);
     db \<leftarrow> backend_db b;
     (nonce, w1) \<leftarrow> GetNonce E db from w;
     let signer = NewSigner (big_Int64 (EVM_ChainID (b_EVM b)));
     tx0 \<leftarrow> ToTransaction (args3\<lparr>arg_Nonce := Some nonce\<rparr>);
     tx \<leftarrow> (case WithSignature (g_setSignature X) signer (Address_Bytes from) tx0 of
              Inl err \<Rightarrow> None | Inr tx \<Rightarrow> Some tx);
     Some (tx, w1)
   })"

text \<open>Transactions run on the node's own state.\<close>

definition run_own ::
  "env \<Rightarrow> 't geth \<Rightarrow> Transaction list \<Rightarrow> 't node \<Rightarrow> (string option list \<times> 't node) option" where
  "run_own E X transactions = (\<lambda>(b, w). do {
     db \<leftarrow> backend_db b;
     (results, a1, db1, w1) \<leftarrow> ExecuteTxs E X (b_EVM b) transactions db None w;
     Some (results, store_db a1 db1 b, w1)
   })"

definition pool_added :: "Transaction \<Rightarrow> string option list \<Rightarrow> 't node \<Rightarrow> 't node option" where
  "pool_added tx res = (\<lambda>(b, w). do {
     res0 \<leftarrow> go_index res 0;
     Some (b\<lparr>b_TxPool := AddTx tx res0 (b_TxPool b)\<rparr>, w)
   })"

definition print_args :: "env \<Rightarrow> address \<Rightarrow> TransactionArgs" where
  "print_args E account = no_args\<lparr>arg_From := Some (FAKE_ACCOUNT_RICH E), arg_To := Some account,
     arg_Value := Some (10 ^ 18 * 1000)\<rparr>"

text \<open>Where the state lock is taken and given back.\<close>

fun stage_turn :: "stage \<Rightarrow> stage turn" where
  "stage_turn (Called req) =
     (case req of rpc_mfer_resetState \<Rightarrow> Acquire Reset_prepare | rpc_mfer_reExecTxPool \<Rightarrow> Acquire ReExec_prepare | _ \<Rightarrow> Act)"
| "stage_turn (Send_lock args from) = Acquire (Send_sign args from)"
| "stage_turn Clear_lock = Acquire Clear_reset"
| "stage_turn (Unlock v) = Release (Returned v)"
| "stage_turn (Returned v) = Stopped"
| "stage_turn _ = Act"

text \<open>
  The action at a stage; \<^const>\<open>None\<close> is a panic. Requests that are not cut into stages act in one step.
\<close>

fun called_act :: "env \<Rightarrow> 't geth \<Rightarrow> request \<Rightarrow> 't node \<Rightarrow> (stage \<times> 't node) option" where
  "called_act E X (rpc_eth_sendTransaction args) n = Some (send_prepared E (fst n) args, n)"
| "called_act E X (rpc_mfer_printMoney account) n = Some (Called (rpc_eth_sendTransaction (print_args E account)), n)"
| "called_act E X (rpc_eth_sendRawTransaction input) n =
     Some (case g_UnmarshalBinary X input of Inl err \<Rightarrow> Returned None | Inr tx \<Rightarrow> Raw_exec tx, n)"
| "called_act E X rpc_mfer_clearTxPool n =
     Some (Clear_lock, (fst n)\<lparr>b_TxPool := snd (TxPool.Reset (b_TxPool (fst n)))\<rparr>, snd n)"
| "called_act E X req n = map_option (Pair (Returned None)) (serve E X req (fst n) (snd n))"

fun stage_act :: "env \<Rightarrow> 't geth \<Rightarrow> stage \<Rightarrow> 't node \<Rightarrow> (stage \<times> 't node) option" where
  "stage_act E X (Called req) n = called_act E X req n"
| "stage_act E X (Send_sign args from) n = do { (tx, w1) \<leftarrow> send_signed E X args from n; Some (Send_exec tx, fst n, w1) }"
| "stage_act E X (Send_exec tx) n = do { (res, n1) \<leftarrow> run_own E X [tx] n; Some (Send_add tx res, n1) }"
| "stage_act E X (Send_add tx res) n = do { n1 \<leftarrow> pool_added tx res n; Some (Unlock (Some (te_hash (g_tx X) tx)), n1) }"
| "stage_act E X (Raw_exec tx) n = do { (res, n1) \<leftarrow> run_own E X [tx] n; Some (Raw_add tx res, n1) }"
| "stage_act E X (Raw_add tx res) n = do { n1 \<leftarrow> pool_added tx res n; Some (Returned (Some (te_hash (g_tx X) tx)), n1) }"
| "stage_act E X Clear_reset (b, w) = do { (a1, w1) \<leftarrow> ResetToRoot E (b_EVM b) w; Some (Unlock None, b\<lparr>b_EVM := a1\<rparr>, w1) }"
| "stage_act E X Reset_prepare (b, w) = do { (err, a1, w1) \<leftarrow> Prepare E X (b_EVM b) w; Some (Unlock None, b\<lparr>b_EVM := a1\<rparr>, w1) }"
| "stage_act E X ReExec_prepare (b, w) = do { (err, a1, w1) \<leftarrow> Prepare E X (b_EVM b) w; Some (ReExec_run, b\<lparr>b_EVM := a1\<rparr>, w1) }"
| "stage_act E X ReExec_run n = do {
     (results, n1) \<leftarrow> run_own E X (fst (GetPoolTxs (b_TxPool (fst n)))) n;
     Some (ReExec_results results, n1)
   }"
| "stage_act E X (ReExec_results results) n =
     Some (Unlock None, (fst n)\<lparr>b_TxPool := SetResults results (b_TxPool (fst n))\<rparr>, snd n)"
| "stage_act E X p n = Some (p, n)"

text \<open>The requests have arrived, nobody has done anything yet; then the goroutines run in any order.\<close>

definition arrived :: "request list \<Rightarrow> 't node \<Rightarrow> (stage, 't node) locked" where
  "arrived reqs n = \<lparr>lk_holder = None, lk_threads = map Called reqs, lk_shared = n\<rparr>"

abbreviation handlers_run ::
  "env \<Rightarrow> 't geth \<Rightarrow> (stage, 't node) locked \<Rightarrow> (stage, 't node) locked option \<Rightarrow> bool" where
  "handlers_run E X \<equiv> interleaved stage_turn (stage_act E X)"

text \<open>The handler alone, with its reply.\<close>

fun answer :: "env \<Rightarrow> 't geth \<Rightarrow> request \<Rightarrow> 't node \<Rightarrow> (hash option \<times> 't node) option" where
  "answer E X (rpc_eth_sendTransaction args) n = map_option (apfst Some) (SendTransaction E X (fst n) args (snd n))"
| "answer E X (rpc_mfer_printMoney account) n =
     map_option (apfst Some) (SendTransaction E X (fst n) (print_args E account) (snd n))"
| "answer E X req n = map_option (Pair None) (serve E X req (fst n) (snd n))"

lemma answer_serve: "map_option snd (answer E X req n) = serve E X req (fst n) (snd n)"
proof (cases req)
  case (rpc_mfer_printMoney account)
  have "PrintMoney E X b account w = map_option snd (SendTransaction E X b (print_args E account) w)" for b w
    unfolding PrintMoney_def print_args_def by (cases "SendTransaction E X b (no_args\<lparr>arg_From := Some (FAKE_ACCOUNT_RICH E), arg_To := Some account,
     arg_Value := Some (10 ^ 18 * 1000)\<rparr>) w") auto
  then show ?thesis unfolding rpc_mfer_printMoney by (simp add: option.map_comp comp_def)
next
  case (rpc_eth_sendTransaction args)
  then show ?thesis by (simp add: option.map_comp comp_def)
qed (simp_all only: answer.simps option.map_comp comp_def snd_conv option.map_ident)

section \<open>What the locking handlers keep to\<close>

text \<open>
  The handlers that do all their work under the lock; the stages before it, which depend on settings
  that they do not change; the stages inside it, with what is left to do at each.
\<close>

fun takes_lock :: "request \<Rightarrow> bool" where
  "takes_lock (rpc_eth_sendTransaction args) \<longleftrightarrow> True"
| "takes_lock (rpc_mfer_printMoney account) \<longleftrightarrow> True"
| "takes_lock rpc_mfer_resetState \<longleftrightarrow> True"
| "takes_lock rpc_mfer_reExecTxPool \<longleftrightarrow> True"
| "takes_lock _ \<longleftrightarrow> False"

definition send_before :: "env \<Rightarrow> TransactionArgs \<Rightarrow> 't node \<Rightarrow> stage \<Rightarrow> bool" where
  "send_before E args n p \<longleftrightarrow> p = Called (rpc_eth_sendTransaction args) \<or> p = send_prepared E (fst n) args"

fun stage_before :: "env \<Rightarrow> request \<Rightarrow> 't node \<Rightarrow> stage \<Rightarrow> bool" where
  "stage_before E (rpc_eth_sendTransaction args) n p \<longleftrightarrow> send_before E args n p"
| "stage_before E (rpc_mfer_printMoney account) n p \<longleftrightarrow>
     p = Called (rpc_mfer_printMoney account) \<or> send_before E (print_args E account) n p"
| "stage_before E rpc_mfer_resetState n p \<longleftrightarrow> p = Called rpc_mfer_resetState"
| "stage_before E rpc_mfer_reExecTxPool n p \<longleftrightarrow> p = Called rpc_mfer_reExecTxPool"
| "stage_before E _ n p \<longleftrightarrow> False"

fun stage_inside :: "stage \<Rightarrow> bool" where
  "stage_inside (Send_sign args from) \<longleftrightarrow> True"
| "stage_inside (Send_exec tx) \<longleftrightarrow> True"
| "stage_inside (Send_add tx res) \<longleftrightarrow> True"
| "stage_inside Reset_prepare \<longleftrightarrow> True"
| "stage_inside ReExec_prepare \<longleftrightarrow> True"
| "stage_inside ReExec_run \<longleftrightarrow> True"
| "stage_inside (ReExec_results results) \<longleftrightarrow> True"
| "stage_inside (Unlock v) \<longleftrightarrow> True"
| "stage_inside _ \<longleftrightarrow> False"

definition sent_rest :: "'t geth \<Rightarrow> Transaction \<Rightarrow> (string option list \<times> 't node) \<Rightarrow> (hash option \<times> 't node) option" where
  "sent_rest X tx = (\<lambda>(res, n). map_option (Pair (Some (te_hash (g_tx X) tx))) (pool_added tx res n))"

definition rerun_rest :: "env \<Rightarrow> 't geth \<Rightarrow> 't node \<Rightarrow> (hash option \<times> 't node) option" where
  "rerun_rest E X n = map_option (\<lambda>(results, b, w). (None, b\<lparr>b_TxPool := SetResults results (b_TxPool b)\<rparr>, w))
     (run_own E X (fst (GetPoolTxs (b_TxPool (fst n)))) n)"

fun stage_rest :: "env \<Rightarrow> 't geth \<Rightarrow> stage \<Rightarrow> 't node \<Rightarrow> (hash option \<times> 't node) option" where
  "stage_rest E X (Send_sign args from) n = do {
     (tx, w1) \<leftarrow> send_signed E X args from n; run_own E X [tx] (fst n, w1) \<bind> sent_rest X tx }"
| "stage_rest E X (Send_exec tx) n = run_own E X [tx] n \<bind> sent_rest X tx"
| "stage_rest E X (Send_add tx res) n = sent_rest X tx (res, n)"
| "stage_rest E X Reset_prepare (b, w) = map_option (Pair None) (ResetState E X b w)"
| "stage_rest E X ReExec_prepare (b, w) = do { (err, a1, w1) \<leftarrow> Prepare E X (b_EVM b) w; rerun_rest E X (b\<lparr>b_EVM := a1\<rparr>, w1) }"
| "stage_rest E X ReExec_run n = rerun_rest E X n"
| "stage_rest E X (ReExec_results results) n =
     Some (None, (fst n)\<lparr>b_TxPool := SetResults results (b_TxPool (fst n))\<rparr>, snd n)"
| "stage_rest E X (Unlock v) n = Some (v, n)"
| "stage_rest E X _ n = None"

fun stage_work :: "stage \<Rightarrow> nat" where
  "stage_work (Called req) = (case req of rpc_mfer_printMoney account \<Rightarrow> 7 | _ \<Rightarrow> 6)"
| "stage_work (Send_lock args from) = 5"
| "stage_work (Send_sign args from) = 4"
| "stage_work (Send_exec tx) = 3"
| "stage_work (Send_add tx res) = 2"
| "stage_work Reset_prepare = 2"
| "stage_work ReExec_prepare = 4"
| "stage_work ReExec_run = 3"
| "stage_work (ReExec_results results) = 2"
| "stage_work (Unlock v) = 1"
| "stage_work _ = 0"

definition same_settings :: "'t node \<Rightarrow> 't node \<Rightarrow> bool" where
  "same_settings = (\<lambda>(b, w) (b', w'). b_Randomized b' = b_Randomized b \<and> b_ImpersonatedAccount b' = b_ImpersonatedAccount b)"

definition node_ready :: "env \<Rightarrow> 't geth \<Rightarrow> 't node \<Rightarrow> bool" where
  "node_ready E X = (\<lambda>(b, w). geth_ok E X \<and> node_ok E b w \<and> reachable_from E (clock w))"

lemma settings_prepared:
  assumes "same_settings n n'"
  shows "send_prepared E (fst n') args = send_prepared E (fst n) args"
proof -
  have s: "b_Randomized (fst n') = b_Randomized (fst n)" "b_ImpersonatedAccount (fst n') = b_ImpersonatedAccount (fst n)"
    using assms by (simp_all add: same_settings_def case_prod_unfold)
  have "preprocessArgs E (fst n') args = preprocessArgs E (fst n) args" "send_sender (fst n') a = send_sender (fst n) a" for a
    by (simp_all only: preprocessArgs_def send_sender_def s)
  then show ?thesis by (simp only: send_prepared_def)
qed

lemma settings_kept [simp]:
  "same_settings n (fst n, w)" "same_settings (b, v) (b\<lparr>b_EVM := a\<rparr>, w)" "same_settings n ((fst n)\<lparr>b_TxPool := pool\<rparr>, w)"
  by (simp_all add: same_settings_def case_prod_unfold)

lemma run_own_settings: "run_own E X transactions n = Some (res, n') \<Longrightarrow> same_settings n n'"
  by (auto simp: run_own_def same_settings_def store_db_def bind_eq_Some_conv split: prod.splits)

lemma pool_added_settings: "pool_added tx res n = Some n' \<Longrightarrow> same_settings n n'"
  by (auto simp: pool_added_def same_settings_def bind_eq_Some_conv split: prod.splits)

text \<open>The stages of a handler, run one after the other, are the handler.\<close>

lemma send_in_stages:
  "SendTransaction E X b args w = (case send_prepared E b args of Send_lock args2 from \<Rightarrow>
     do { (tx, w1) \<leftarrow> send_signed E X args2 from (b, w); execute_one E X b tx w1 })"
  by (simp add: SendTransaction_def send_prepared_def send_signed_def Let_def bind_assoc case_prod_unfold split: sum.splits)

lemma execute_in_stages:
  "map_option (apfst Some) (execute_one E X b tx w) = run_own E X [tx] (b, w) \<bind> sent_rest X tx"
  by (simp add: execute_one_def run_own_def sent_rest_def pool_added_def Let_def map_option_bind bind_assoc case_prod_unfold
      comp_def bind_map_option)

lemma send_rest:
  assumes "send_prepared E (fst n) args = Send_lock args2 from"
  shows "stage_rest E X (Send_sign args2 from) n = map_option (apfst Some) (SendTransaction E X (fst n) args (snd n))"
  using assms by (cases n) (simp add: send_in_stages map_option_bind comp_def case_prod_unfold execute_in_stages)

lemma reexec_rest: "stage_rest E X ReExec_prepare n = map_option (Pair None) (ReExecTxPool E X (fst n) (snd n))"
  by (cases n) (simp add: ReExecTxPool_def rerun_rest_def run_own_def Let_def map_option_bind comp_def case_prod_unfold
      backend_db_def store_db_def GetPoolTxs_def)

lemma handlers_good:
  assumes "takes_lock req" "node_ready E X n"
  shows "\<exists>v n'. answer E X req n = Some (v, n') \<and> node_ready E X n'"
proof -
  obtain b w where n: "n = (b, w)" by fastforce
  have g: "geth_ok E X" "machine_ok X" "tracers_build E X None" "headers_ok X" "node_ok E b w" "reachable_from E (clock w)"
    using assms(2) by (simp_all add: n node_ready_def geth_ok_def)
  obtain db where db: "backend_db b = Some db" using node_db [OF g(5)] by blast
  have ready: "node_ready E X (b', w')" if "node_ok E b' w'" "clock w \<le> clock w'" for b' w'
    using that g(1,6) by (auto simp: node_ready_def reachable_from_def)
  have send: "\<exists>h b' w'. SendTransaction E X b args w = Some (h, b', w') \<and> node_ready E X (b', w')" for args
    using SendTransaction_ok [OF g(2,3,5) db, of args] ready by blast
  have "\<exists>b' w'. ReExecTxPool E X b w = Some (b', w') \<and> node_ready E X (b', w')"
    using ReExecTxPool_ok [OF g(2,3,5,6,4)] ready by blast
  moreover have "\<exists>b' w'. ResetState E X b w = Some (b', w') \<and> node_ready E X (b', w')"
    using ResetState_ok [OF g(5,6,4)] ready by blast
  ultimately show ?thesis using assms(1) send unfolding n by (cases req) (simp_all, blast+)
qed

lemma handlers_inside:
  assumes "stage_inside p" "stage_turn p = Act" "stage_act E X p n = Some (p', n')"
  shows "stage_inside p' \<and> stage_rest E X p n = stage_rest E X p' n' \<and> same_settings n n' \<and> stage_work p' < stage_work p"
proof (cases p)
  case (Send_sign args who)
  with assms(3) show ?thesis by (cases "send_signed E X args who n") auto
next
  case (Send_exec tx)
  with assms(3) run_own_settings [of E X "[tx]" n] show ?thesis by (cases "run_own E X [tx] n") auto
next
  case (Send_add tx res)
  with assms(3) pool_added_settings [of tx res n] show ?thesis by (cases "pool_added tx res n") (auto simp: sent_rest_def)
next
  case Reset_prepare
  obtain b w where n: "n = (b, w)" by fastforce
  from Reset_prepare assms(3) show ?thesis unfolding n by (cases "Prepare E X (b_EVM b) w") (auto simp: ResetState_def)
next
  case ReExec_prepare
  obtain b w where n: "n = (b, w)" by fastforce
  from ReExec_prepare assms(3) show ?thesis unfolding n by (cases "Prepare E X (b_EVM b) w") auto
next
  case ReExec_run
  let ?txs = "fst (GetPoolTxs (b_TxPool (fst n)))"
  from ReExec_run assms(3) run_own_settings [of E X ?txs n] show ?thesis by (cases "run_own E X ?txs n") (auto simp: rerun_rest_def)
qed (use assms in auto)

lemma handlers_panic:
  assumes "stage_inside p" "stage_turn p = Act" "stage_act E X p n = None"
  shows "stage_rest E X p n = None"
  using assms by (cases p; cases n) (auto simp: bind_eq_None_conv sent_rest_def rerun_rest_def ResetState_def case_prod_unfold)

lemma handlers_enter:
  assumes "stage_before E req n p" "stage_turn p = Acquire p'"
  shows "stage_inside p' \<and> stage_rest E X p' n = answer E X req n \<and> stage_work p' < stage_work p"
proof -
  have send: "stage_inside p' \<and> stage_rest E X p' n = map_option (apfst Some) (SendTransaction E X (fst n) args (snd n)) \<and>
      stage_work p' < stage_work p" if b: "send_before E args n p" for args
  proof -
    from b assms(2) have p: "p = send_prepared E (fst n) args" by (auto simp: send_before_def)
    obtain args2 who where q: "send_prepared E (fst n) args = Send_lock args2 who" by (simp add: send_prepared_def Let_def)
    from assms(2) send_rest [OF q] show ?thesis unfolding p q by auto
  qed
  have reset: "stage_rest E X Reset_prepare n = map_option (Pair None) (ResetState E X (fst n) (snd n))" by (cases n) simp
  show ?thesis using assms send reset reexec_rest [of E X n] by (cases req) auto
qed

interpretation handlers: locked_handlers stage_turn "stage_act E X" "answer E X" takes_lock Called "stage_before E"
  stage_inside "stage_rest E X" Returned same_settings "node_ready E X" stage_work for E X
proof
  fix q p s p' s'
  show "takes_lock q \<Longrightarrow> node_ready E X s \<Longrightarrow> \<exists>r s'. answer E X q s = Some (r, s') \<and> node_ready E X s'"
    by (rule handlers_good)
  show "takes_lock q \<Longrightarrow> stage_before E q s (Called q)" by (cases q) (simp_all add: send_before_def)
  show "stage_before E q s p \<Longrightarrow> same_settings s s' \<Longrightarrow> stage_before E q s' p"
    by (cases q) (auto simp: send_before_def settings_prepared)
  show "stage_before E q s p \<Longrightarrow> stage_turn p = Act \<or> (\<exists>p'. stage_turn p = Acquire p')"
    by (cases q) (auto simp: send_before_def send_prepared_def Let_def)
  show "stage_before E q s p \<Longrightarrow> stage_turn p = Act \<Longrightarrow>
      \<exists>p'. stage_act E X p s = Some (p', s) \<and> stage_before E q s p' \<and> stage_work p' < stage_work p"
    by (cases q) (auto simp: send_before_def send_prepared_def Let_def)
  show "stage_before E q s p \<Longrightarrow> stage_turn p = Acquire p' \<Longrightarrow>
      stage_inside p' \<and> stage_rest E X p' s = answer E X q s \<and> stage_work p' < stage_work p"
    by (rule handlers_enter)
  show "stage_inside p \<Longrightarrow> stage_turn p = Act \<or> (\<exists>p'. stage_turn p = Release p')" by (cases p) simp_all
  show "stage_inside p \<Longrightarrow> stage_turn p = Act \<Longrightarrow> stage_act E X p s = Some (p', s') \<Longrightarrow>
      stage_inside p' \<and> stage_rest E X p s = stage_rest E X p' s' \<and> same_settings s s' \<and> stage_work p' < stage_work p"
    by (rule handlers_inside)
  show "stage_inside p \<Longrightarrow> stage_turn p = Act \<Longrightarrow> stage_act E X p s = None \<Longrightarrow> stage_rest E X p s = None"
    by (rule handlers_panic)
  show "stage_inside p \<Longrightarrow> stage_turn p = Release p' \<Longrightarrow> \<exists>r. p' = Returned r \<and> stage_rest E X p s = Some (r, s) \<and> 0 < stage_work p"
    by (cases p) auto
qed (auto simp: same_settings_def)

section \<open>Requests that come in together\<close>

lemma arrived_explained:
  assumes "geth_ok E X" "node_ok E b w" "reachable_from E (clock w)" "\<forall>req\<in>set reqs. takes_lock req"
  shows "handlers.explained E X reqs (b, w) (arrived reqs (b, w))"
  using handlers.explained_start [of reqs E X "(b, w)"] assms by (simp add: arrived_def node_ready_def)

text \<open>C5.
  Requests that send transactions, print money, reset the state or run the pool again can come in together
  and interleave in any way: none of them panics, and once all have returned, there is an order in which the handlers, run
  one after the other, give the same replies and end in the same node. It is in order.
\<close>

theorem locked_requests_serialise:
  assumes "geth_ok E X" "node_ok E b w" "reachable_from E (clock w)" "\<forall>req\<in>set reqs. takes_lock req"
    and "outcomes (handlers_run E X) (arrived reqs (b, w)) n"
  shows "\<exists>r. n = Some r \<and> ((\<forall>p\<in>set (lk_threads r). stage_turn p = Stopped) \<longrightarrow>
    (\<exists>order replies b' w'. distinct order \<and> set order = {..<length reqs} \<and> lk_shared r = (b', w') \<and>
       serially (answer E X) (map ((!) reqs) order) (b, w) = Some (replies, b', w') \<and>
       map ((!) (lk_threads r)) order = map Returned replies \<and> node_ok E b' w'))"
proof -
  obtain r where r: "n = Some r" "handlers.explained E X reqs (b, w) r"
    using handlers.run.outcome_ok [OF assms(5) arrived_explained [OF assms(1-4)]] by blast
  with handlers.all_returned_serial [OF r(2)] show ?thesis
    by (cases "lk_shared r") (auto simp: node_ready_def)
qed

text \<open>C13.
  Such requests always finish: whatever goroutine moves, there are at most seven steps per request, and as long as one has not
  returned, one can move. So nobody waits for the lock for ever.
\<close>

theorem locked_requests_finish:
  assumes "geth_ok E X" "node_ok E b w" "reachable_from E (clock w)" "\<forall>req\<in>set reqs. takes_lock req"
    and "((\<lambda>r r'. handlers_run E X r (Some r')) ^^ k) (arrived reqs (b, w)) r"
  shows "k \<le> 7 * length reqs \<and> ((\<forall>p\<in>set (lk_threads r). stage_turn p = Stopped) \<or> (\<exists>r'. handlers_run E X r (Some r')))"
proof (rule conjI)
  note b = handlers.run_bounded [OF assms(5) arrived_explained [OF assms(1-4)]]
  have "stage_work (Called req) \<le> 7" for req by (cases req) simp_all
  then have "sum_list (map (\<lambda>req. stage_work (Called req)) reqs) \<le> 7 * length reqs" by (induction reqs) (auto intro: add_mono)
  then show "k \<le> 7 * length reqs" using b by (simp add: handlers.left_def arrived_def comp_def)
  show "(\<forall>p\<in>set (lk_threads r). stage_turn p = Stopped) \<or> (\<exists>r'. handlers_run E X r (Some r'))"
    using handlers.somebody_moves [of E X reqs "(b, w)" r] handlers.thread_step_explained [of E X reqs "(b, w)" r] b
    by (metis interleaved.moves)
qed


lemma demo_explained:
  "handlers.explained demo_env demo_geth [rpc_mfer_reExecTxPool, rpc_mfer_printMoney 4] (demo_node, node_world)
     (arrived [rpc_mfer_reExecTxPool, rpc_mfer_printMoney 4] (demo_node, node_world))"
  by (rule arrived_explained) (simp_all add: demo_geth_ok demo_node_ok demo_reachable)

theorem locked_requests_serialise_witness:
  "geth_ok demo_env demo_geth \<and> node_ok demo_env demo_node node_world \<and> reachable_from demo_env (clock node_world) \<and>
   (let reqs = [rpc_mfer_reExecTxPool, rpc_mfer_printMoney 4]
    in \<exists>r order replies. outcomes (handlers_run demo_env demo_geth) (arrived reqs (demo_node, node_world)) (Some r) \<and>
       distinct order \<and> set order = {0, 1} \<and>
       serially (answer demo_env demo_geth) (map ((!) reqs) order) (demo_node, node_world) = Some (replies, lk_shared r) \<and>
       map ((!) (lk_threads r)) order = map Returned replies)"
proof -
  let ?reqs = "[rpc_mfer_reExecTxPool, rpc_mfer_printMoney 4]"
  obtain r where r: "outcomes (handlers_run demo_env demo_geth) (arrived ?reqs (demo_node, node_world)) (Some r)"
    "handlers.explained demo_env demo_geth ?reqs (demo_node, node_world) r" "handlers.left r = 0"
    using handlers.run.can_finish [OF demo_explained] by blast
  have t: "\<forall>req\<in>set ?reqs. takes_lock req" by simp
  have stopped: "\<forall>p\<in>set (lk_threads r). stage_turn p = Stopped" using handlers.nothing_left [OF r(2)] r(3) by blast
  have two: "{..<length ?reqs} = {0, 1}" by auto
  from locked_requests_serialise [OF demo_geth_ok demo_node_ok demo_reachable t r(1)] stopped
  obtain order replies where "distinct order" "set order = {0, 1}"
    "serially (answer demo_env demo_geth) (map ((!) ?reqs) order) (demo_node, node_world) = Some (replies, lk_shared r)"
    "map ((!) (lk_threads r)) order = map Returned replies" unfolding two by auto
  with r(1) demo_geth_ok demo_node_ok demo_reachable show ?thesis unfolding Let_def by blast
qed

theorem locked_requests_finish_witness:
  "(let start = arrived [rpc_mfer_reExecTxPool, rpc_mfer_printMoney 4] (demo_node, node_world)
    in \<exists>r. handlers_run demo_env demo_geth start (Some r) \<and> (\<exists>r'. handlers_run demo_env demo_geth r (Some r')))"
proof -
  let ?reqs = "[rpc_mfer_reExecTxPool, rpc_mfer_printMoney 4]"
  let ?start = "arrived ?reqs (demo_node, node_world)"
  let ?r = "?start\<lparr>lk_holder := Some 0, lk_threads := [ReExec_prepare, Called (rpc_mfer_printMoney 4)]\<rparr>"
  have t: "\<forall>req\<in>set ?reqs. takes_lock req" by simp
  have m: "handlers_run demo_env demo_geth ?start (Some ?r)"
    using moves_acquire [of 0 ?start stage_turn ReExec_prepare "stage_act demo_env demo_geth"] by (simp add: arrived_def)
  then have "((\<lambda>r r'. handlers_run demo_env demo_geth r (Some r')) ^^ 1) ?start ?r" by (simp add: eq_OO)
  from locked_requests_finish [OF demo_geth_ok demo_node_ok demo_reachable t this] m show ?thesis by (auto simp: Let_def)
qed

section \<open>Changes of the pool outside the lock\<close>

text \<open>C22.
  \<^verbatim>\<open>ClearTxPool\<close> empties the pool before it takes the lock. A transaction that is sent meanwhile can therefore end up in the
  pool, with the result of its execution, while the state has been put back to what it was before anything was
  executed. This can happen on every node and for every transaction.
\<close>

theorem clear_overtaken_by_send:
  assumes "geth_ok E X" "node_ok E b w"
  shows "\<exists>b' w' tx res db'. outcomes (handlers_run E X) (arrived [rpc_eth_sendTransaction args, rpc_mfer_clearTxPool] (b, w))
      (Some \<lparr>lk_holder = None, lk_threads = [Returned (Some (te_hash (g_tx X) tx)), Returned None], lk_shared = (b', w')\<rparr>) \<and>
    GetPoolTxs (b_TxPool b') = ([tx], [res]) \<and> backend_db b' = Some db' \<and>
    view E w' (state db') = funded E (uval E (blockNumber w'))"
proof -
  have g: "machine_ok X" "tracers_build E X None" using assms(1) by (simp_all add: geth_ok_def)
  let ?req = "rpc_eth_sendTransaction args"
  let ?b1 = "b\<lparr>b_TxPool := NewMferTxPool\<rparr>"
  have b1: "node_ok E ?b1 w" by (rule node_pool [OF assms(2)]) (simp add: pool_ok_def NewMferTxPool_def)
  obtain db where db: "backend_db ?b1 = Some db" using node_db [OF b1] by blast
  obtain tx res b2 w2 where send: "SendTransaction E X ?b1 args w = Some (te_hash (g_tx X) tx, b2, w2)" "node_ok E b2 w2"
    "b_TxPool b2 = AddTx tx res NewMferTxPool" using SendTransaction_ok [OF g b1 db, of args] by auto
  obtain b3 w3 db3 where c: "ClearTxPool E b2 w2 = Some (b3, w3)" "backend_db b3 = Some db3" "blockNumber w3 = blockNumber w2"
    "view E w3 (state db3) = funded E (uval E (blockNumber w2))" using ClearTxPool_ok [OF send(2)] by blast
  obtain a3 where a3: "ResetToRoot E (b_EVM b2) w2 = Some (a3, w3)" "b_EVM b3 = a3"
    using c(1) by (auto simp: ClearTxPool_def bind_eq_Some_conv Let_def)
  let ?r = "\<lambda>p q n. \<lparr>lk_holder = None, lk_threads = [p, q], lk_shared = n\<rparr>"
  let ?done = "Returned (Some (te_hash (g_tx X) tx))"
  have s1: "follow stage_turn (stage_act E X) [1] (arrived [?req, rpc_mfer_clearTxPool] (b, w)) = Some (?r (Called ?req) Clear_lock (?b1, w))"
    by (simp add: arrived_def thread_step_def TxPool.Reset_def NewMferTxPool_def)
  have s2: "outcomes (handlers_run E X) (?r (Called ?req) Clear_lock (?b1, w)) (Some (?r ?done Clear_lock (b2, w2)))"
    using handlers.runs_alone [of E ?req "?r (Called ?req) Clear_lock (?b1, w)" 0 X "Some (te_hash (g_tx X) tx)" "(b2, w2)"] send(1)
    by (simp add: send_before_def)
  have s3: "follow stage_turn (stage_act E X) [1, 1, 1] (?r ?done Clear_lock (b2, w2)) = Some (?r ?done (Returned None) (b2\<lparr>b_EVM := a3\<rparr>, w3))"
    using a3(1) by (simp add: thread_step_def)
  note outcomes_trans [OF follow_outcome [OF s3] outcomes_trans [OF s2 follow_outcome [OF s1]]]
  moreover have "GetPoolTxs (b_TxPool (b2\<lparr>b_EVM := a3\<rparr>)) = ([tx], [res])" using send(3) by (simp add: GetPoolTxs_def AddTx_def NewMferTxPool_def)
  moreover have "backend_db (b2\<lparr>b_EVM := a3\<rparr>) = Some db3" using c(2) a3(2) by (simp add: backend_db_def)
  ultimately show ?thesis using c(3,4) by metis
qed

theorem clear_overtaken_by_send_witness:
  "geth_ok demo_env demo_geth \<and> node_ok demo_env demo_node node_world \<and>
   (\<exists>r tx res. outcomes (handlers_run demo_env demo_geth)
        (arrived [rpc_eth_sendTransaction (no_args\<lparr>arg_From := Some 4, arg_To := Some 1\<rparr>), rpc_mfer_clearTxPool] (demo_node, node_world)) (Some r) \<and>
      GetPoolTxs (b_TxPool (fst (lk_shared r))) = ([tx], [res]))"
proof -
  from clear_overtaken_by_send [OF demo_geth_ok demo_node_ok, of "no_args\<lparr>arg_From := Some 4, arg_To := Some 1\<rparr>"]
  obtain r tx res where "outcomes (handlers_run demo_env demo_geth)
        (arrived [rpc_eth_sendTransaction (no_args\<lparr>arg_From := Some 4, arg_To := Some 1\<rparr>), rpc_mfer_clearTxPool] (demo_node, node_world)) (Some r)"
      "GetPoolTxs (b_TxPool (fst (lk_shared r))) = ([tx], [res])" by (metis fst_conv locked.select_convs(3))
  with demo_geth_ok demo_node_ok show ?thesis by blast
qed

lemma run_own_ok:
  assumes "machine_ok X" "tracers_build E X None" "node_ok E b w"
  shows "\<exists>results b' w'. run_own E X transactions (b, w) = Some (results, b', w') \<and> node_ok E b' w' \<and>
    b_TxPool b' = b_TxPool b \<and> length results = length transactions"
proof -
  obtain db where db: "backend_db b = Some db" "db_ok E db w" using node_db [OF assms(3)] by blast
  from ExecuteTxs_ok [OF assms(1,2) db(2), of "b_EVM b" transactions] obtain r a' db' w' where
    e: "ExecuteTxs E X (b_EVM b) transactions db None w = Some (r, a', db', w')" "same_but_gas (b_EVM b) a'"
      "moved E (db, w) (db', w')" "length r = length transactions" by blast
  from node_moved [OF assms(3) db(1) e(3) same_but_gas_evm [OF e(2)]] e db(1) show ?thesis
    by (simp add: run_own_def) (simp add: store_db_def)
qed

lemma tx_data_short: "length results < i + length transactions \<Longrightarrow> transactions \<noteq> [] \<Longrightarrow> tx_data X a i transactions results = None"
proof (induction transactions arbitrary: i)
  case (Cons tx rest)
  show ?case
  proof (cases "rest = []")
    case True
    with Cons.prems show ?thesis by (simp add: go_index_def)
  next
    case False
    with Cons.IH [of "Suc i"] Cons.prems have "tx_data X a (Suc i) rest results = None" by simp
    then show ?thesis by (simp add: Let_def bind_eq_None_conv)
  qed
qed simp

text \<open>C23.
  \<^verbatim>\<open>SendRawTransaction\<close> takes no lock. When it comes between the execution of the pool by \<^verbatim>\<open>ReExecTxPool\<close> and the
  storing of the results, the pool is left with more transactions than results, and listing it
  (\<^verbatim>\<open>mfer_getTxs\<close>) panics. This can happen on every node and for every transaction that decodes.
\<close>

theorem reexec_overtaken_by_raw:
  assumes "geth_ok E X" "node_ok E b w" "reachable_from E (clock w)" "g_UnmarshalBinary X input = Inr tx"
  shows "\<exists>b' w'. outcomes (handlers_run E X) (arrived [rpc_eth_sendRawTransaction input, rpc_mfer_reExecTxPool] (b, w))
      (Some \<lparr>lk_holder = None, lk_threads = [Returned (Some (te_hash (g_tx X) tx)), Returned None], lk_shared = (b', w')\<rparr>) \<and>
    length (txs (b_TxPool b')) = Suc (length (execResults (b_TxPool b'))) \<and> GetTxs X b' = None"
proof -
  have g: "machine_ok X" "tracers_build E X None" "headers_ok X" using assms(1) by (simp_all add: geth_ok_def)
  obtain err a1 w1 where p: "Prepare E X (b_EVM b) w = Some (err, a1, w1)" "node_ok E (b\<lparr>b_EVM := a1\<rparr>) w1"
    using Prepare_ok [OF assms(2,3) g(3)] by blast
  obtain results b2 w2 where e: "run_own E X (txs (b_TxPool b)) (b\<lparr>b_EVM := a1\<rparr>, w1) = Some (results, b2, w2)" "node_ok E b2 w2"
    "b_TxPool b2 = b_TxPool b" "length results = length (txs (b_TxPool b))"
    using run_own_ok [OF g(1,2) p(2), of "txs (b_TxPool b)"] by auto
  obtain res b3 w3 where x: "run_own E X [tx] (b2, w2) = Some ([res], b3, w3)" "b_TxPool b3 = b_TxPool b"
    using run_own_ok [OF g(1,2) e(2), of "[tx]"] e(3) by (auto simp: length_Suc_conv)
  let ?b4 = "b3\<lparr>b_TxPool := AddTx tx res (b_TxPool b3)\<rparr>"
  let ?b5 = "?b4\<lparr>b_TxPool := SetResults results (b_TxPool ?b4)\<rparr>"
  have "follow stage_turn (stage_act E X) [1, 1, 1, 0, 0, 0, 1, 1]
      (arrived [rpc_eth_sendRawTransaction input, rpc_mfer_reExecTxPool] (b, w)) =
    Some \<lparr>lk_holder = None, lk_threads = [Returned (Some (te_hash (g_tx X) tx)), Returned None], lk_shared = (?b5, w3)\<rparr>"
    using p(1) e(1) x(1) assms(4) by (simp add: arrived_def thread_step_def GetPoolTxs_def pool_added_def go_index_def)
  note run = follow_outcome [OF this]
  have "txs (b_TxPool ?b5) = txs (b_TxPool b) @ [tx]" "execResults (b_TxPool ?b5) = results"
    using x(2) by (simp_all add: SetResults_def AddTx_def)
  moreover from this have "GetTxs X ?b5 = None" using tx_data_short [of results 0 "txs (b_TxPool b) @ [tx]"] e(4)
    by (simp add: GetTxs_def GetPoolTxs_def)
  ultimately show ?thesis using run e(4) by (metis length_append_singleton)
qed

theorem reexec_overtaken_by_raw_witness:
  "\<exists>r. outcomes (handlers_run demo_env demo_geth)
        (arrived [rpc_eth_sendRawTransaction [7], rpc_mfer_reExecTxPool] (demo_node, node_world)) (Some r) \<and>
      GetTxs demo_geth (fst (lk_shared r)) = None"
proof -
  have "g_UnmarshalBinary demo_geth [7] = Inr unsigned_tx" by (simp add: demo_geth_def)
  from reexec_overtaken_by_raw [OF demo_geth_ok demo_node_ok demo_reachable this] show ?thesis
    by (metis fst_conv locked.select_convs(3))
qed

end
