(* ===== verification/SlotKey.thy ===== *)
theory SlotKey
  imports Prelude
begin

text \<open>
  \<^verbatim>\<open>mferstate/slotkey.go\<close>: the 52-byte key of a storage slot, an account's 20 bytes followed by
  the slot's 32 bytes.
\<close>

text \<open>\<^verbatim>\<open>mferstate/scratchpadKey.go\<close> declares a type of keys that nothing uses.\<close>

type_synonym ScratchPadKey = string

definition SlotKey_Account :: "bytes \<Rightarrow> address" where
  "SlotKey_Account k = BytesToAddress (take 20 k)"

definition SlotKey_Key :: "bytes \<Rightarrow> hash" where
  "SlotKey_Key k = BytesToHash (take 32 (drop 20 k))"

definition SlotKey_Extract :: "bytes \<Rightarrow> address \<times> hash" where
  "SlotKey_Extract k = (SlotKey_Account k, SlotKey_Key k)"

definition calcSlotKey :: "address \<Rightarrow> hash \<Rightarrow> bytes" where
  "calcSlotKey acc key =
     copy_at 20 52 (Hash_Bytes key) (copy_at 0 20 (Address_Bytes acc) (replicate 52 0))"

lemma calcSlotKey_eq: "calcSlotKey acc key = Address_Bytes acc @ Hash_Bytes key"
  by (simp add: calcSlotKey_def copy_at_def Let_def)

text \<open>
  A slot key can be taken apart again: the keys of 52 bytes and the pairs of an account and a slot
  correspond one to one.
\<close>

theorem slot_key_roundtrip:
  "SlotKey_Extract (calcSlotKey acc key) = (acc, key) \<and> length (calcSlotKey acc key) = 52 \<and>
   (length k = 52 \<longrightarrow> (case SlotKey_Extract k of (a, s) \<Rightarrow> calcSlotKey a s) = k)"
proof -
  have "calcSlotKey (SlotKey_Account k) (SlotKey_Key k) = k" if "length k = 52"
  proof -
    have "length (take 20 k) = 20" "length (take 32 (drop 20 k)) = 32" using that by simp_all
    then have "calcSlotKey (SlotKey_Account k) (SlotKey_Key k) = take 20 k @ take 32 (drop 20 k)"
      by (simp only: calcSlotKey_eq SlotKey_Account_def SlotKey_Key_def codec_simps)
    also have "\<dots> = take 20 k @ drop 20 k" using that by simp
    finally show ?thesis by simp
  qed
  then show ?thesis
    by (simp add: SlotKey_Extract_def) (simp add: calcSlotKey_eq SlotKey_Account_def SlotKey_Key_def)
qed

theorem slot_key_roundtrip_witness:
  "length (replicate 51 (0::byte) @ [9]) = 52 \<and>
   (case SlotKey_Extract (replicate 51 0 @ [9]) of (a, s) \<Rightarrow> calcSlotKey a s) = replicate 51 0 @ [9]"
  using slot_key_roundtrip [of 0 0 "replicate 51 0 @ [9]"] by simp

end
