(* ===== verification/SharedReads.thy ===== *)
theory SharedReads
  imports Layers "HOL-Library.Multiset"
begin

text \<open>
  \<^verbatim>\<open>mferstate/overlaystate.go\<close>, once more, with its goroutines: any number of readers in \<^verbatim>\<open>get\<close>, \<^verbatim>\<open>loadState\<close> and
  \<^verbatim>\<open>loadAccount\<close> on layers above one root, and the request batcher \<^verbatim>\<open>timeSlot\<close>, which talk through the two request channels.
  A step is what one goroutine does between two points at which another can be noticed: a look into a scratch pad under its lock, an operation on a channel, a request to
  the upstream node, the storing of an answer under the lock.
\<close>

section \<open>Readers and the batcher\<close>

text \<open>
  A reader looks into the scratch pads from its layer down to the root (\<open>Look\<close>); when the root has no value it puts a return channel into the
  request channel (\<open>Ask\<close>, then \<open>Offered\<close>) and waits; the answer it receives (\<open>Answered\<close>) is stored at the root before it returns.
\<close>

type_synonym read_request = "ref \<times> address \<times> RequestType \<times> hash"

datatype answer_value = Slot hash | Account FetchedAccountResult

datatype reader =
    Look ref
  | Ask
  | Offered
  | Answered answer_value
  | Returned bytes

text \<open>
  The batcher notes how many requests wait (\<open>Counting\<close>), waits for one of its tickers (\<open>Armed\<close>), takes the requests out of the channel, asks the upstream node until it answers
  (\<open>FetchStorage\<close>, \<open>FetchAccounts\<close>) and hands the answers out one by one.
\<close>

datatype batcher =
    Counting
  | Armed nat nat
  | FetchStorage "nat list"
  | FetchAccounts "nat list"
  | AnswerStorage "(nat \<times> StorageReq) list"
  | AnswerAccounts "(nat \<times> FetchedAccountResult) list"

datatype ticker = tickerStorage | tickerAccount

text \<open>The channels hold the numbers of the readers whose requests wait.\<close>

record reads =
  rs_world :: world
  rs_readers :: "reader list"
  storageReqChan :: "nat list"
  accReqChan :: "nat list"
  rs_batcher :: batcher

definition storage_req :: "read_request \<Rightarrow> StorageReq" where
  "storage_req rq = (case rq of (r, a, action, k) \<Rightarrow> \<lparr>sr_Address = a, sr_Key = k, sr_Value = 0\<rparr>)"

definition req_account :: "read_request \<Rightarrow> address" where
  "req_account rq = (case rq of (r, a, action, k) \<Rightarrow> a)"

definition pad_lookup :: "env \<Rightarrow> read_request \<Rightarrow> ref \<Rightarrow> world \<Rightarrow> bytes option" where
  "pad_lookup E rq r w = (case rq of (_, a, action, k) \<Rightarrow>
     map_of (scratchPad (st w r)) (scratchpadKey E action a k))"

text \<open>What a reader does with an answer, under the lock of the root's scratch pad: an account fills only the places that are still empty.\<close>

definition store_answer :: "env \<Rightarrow> ref \<Rightarrow> read_request \<Rightarrow> answer_value \<Rightarrow> world \<Rightarrow> bytes \<times> world" where
  "store_answer E root rq ans w = (case rq of (_, a, action, k) \<Rightarrow>
     (case ans of
        Slot v \<Rightarrow>
          (Hash_Bytes v, upd_st root (\<lambda>x. x\<lparr>scratchPad :=
             AList.update (scratchpadKey E action a k) (Hash_Bytes v) (scratchPad x)\<rparr>) w)
      | Account result \<Rightarrow>
          (let w1 = upd_st root (\<lambda>x. x\<lparr>scratchPad := fill_account E a result (scratchPad x)\<rparr>) w
           in (case map_of (scratchPad (st w1 root)) (scratchpadKey E action a k) of
                 Some v \<Rightarrow> v | None \<Rightarrow> [], w1))))"

definition set_reader :: "nat \<Rightarrow> reader \<Rightarrow> reads \<Rightarrow> reads" where
  "set_reader i p s = s\<lparr>rs_readers := (rs_readers s)[i := p]\<rparr>"

text \<open>
  One action of reader \<open>i\<close>; \<^const>\<open>None\<close> when it has to wait: for room in a channel (they hold 500 and 200 requests), for its answer,
  or because it has returned.
\<close>

definition reader_step ::
  "env \<Rightarrow> ref \<Rightarrow> read_request list \<Rightarrow> nat \<Rightarrow> reads \<Rightarrow> reads option" where
  "reader_step E root reqs i s =
     (case rs_readers s ! i of
        Look r \<Rightarrow>
          Some (set_reader i
            (case (pad_lookup E (reqs ! i) r (rs_world s), parent (st (rs_world s) r)) of
               (Some v, _) \<Rightarrow> Returned v
             | (None, Some p) \<Rightarrow> Look p
             | (None, None) \<Rightarrow> Ask) s)
      | Ask \<Rightarrow>
          (if fst (snd (snd (reqs ! i))) = GET_STATE
           then if length (storageReqChan s) < 500
             then Some (set_reader i Offered (s\<lparr>storageReqChan := storageReqChan s @ [i]\<rparr>)) else None
           else if length (accReqChan s) < 200
             then Some (set_reader i Offered (s\<lparr>accReqChan := accReqChan s @ [i]\<rparr>)) else None)
      | Offered \<Rightarrow> None
      | Answered ans \<Rightarrow>
          (let (v, w1) = store_answer E root (reqs ! i) ans (rs_world s)
           in Some (set_reader i (Returned v) (s\<lparr>rs_world := w1\<rparr>)))
      | Returned v \<Rightarrow> None)"

text \<open>One action of the batcher, which may wait for either ticker; \<^const>\<open>None\<close> is a panic or a request loop that never ends.\<close>

definition batcher_step ::
  "env \<Rightarrow> ref \<Rightarrow> read_request list \<Rightarrow> ticker \<Rightarrow> reads \<Rightarrow> reads option" where
  "batcher_step E root reqs tick s =
     (case rs_batcher s of
        Counting \<Rightarrow> Some (s\<lparr>rs_batcher := Armed (length (storageReqChan s)) (length (accReqChan s))\<rparr>)
      | Armed storageReqLen accReqLen \<Rightarrow>
          (case tick of
             tickerStorage \<Rightarrow>
               Some (s\<lparr>storageReqChan := drop storageReqLen (storageReqChan s),
                        rs_batcher := FetchStorage (take storageReqLen (storageReqChan s))\<rparr>)
           | tickerAccount \<Rightarrow>
               Some (s\<lparr>accReqChan := drop accReqLen (accReqChan s),
                        rs_batcher := FetchAccounts (take accReqLen (accReqChan s))\<rparr>))
      | FetchStorage ids \<Rightarrow>
          (if ids = [] then Some (s\<lparr>rs_batcher := AnswerStorage []\<rparr>)
           else do {
             (res, w1) \<leftarrow> loadStateBatchRPC E root (map (\<lambda>i. storage_req (reqs ! i)) ids) (rs_world s);
             Some (s\<lparr>rs_world := w1,
                      rs_batcher := (case res of Inl err \<Rightarrow> FetchStorage ids | Inr vs \<Rightarrow> AnswerStorage (zip ids vs))\<rparr>)
           })
      | FetchAccounts ids \<Rightarrow>
          (if ids = [] then Some (s\<lparr>rs_batcher := AnswerAccounts []\<rparr>)
           else do {
             (res, w1) \<leftarrow> loadAccountBatchRPC E root (map (\<lambda>i. req_account (reqs ! i)) ids) (rs_world s);
             Some (s\<lparr>rs_world := w1,
                      rs_batcher := (case res of Inl err \<Rightarrow> FetchAccounts ids | Inr vs \<Rightarrow> AnswerAccounts (zip ids vs))\<rparr>)
           })
      | AnswerStorage [] \<Rightarrow> Some (s\<lparr>rs_batcher := Counting\<rparr>)
      | AnswerStorage ((i, q) # rest) \<Rightarrow>
          Some (set_reader i (Answered (Slot (sr_Value q))) (s\<lparr>rs_batcher := AnswerStorage rest\<rparr>))
      | AnswerAccounts [] \<Rightarrow> Some (s\<lparr>rs_batcher := Counting\<rparr>)
      | AnswerAccounts ((i, x) # rest) \<Rightarrow>
          Some (set_reader i (Answered (Account x)) (s\<lparr>rs_batcher := AnswerAccounts rest\<rparr>)))"

text \<open>Any goroutine that can act may act next.\<close>

inductive read_step :: "env \<Rightarrow> ref \<Rightarrow> read_request list \<Rightarrow> reads \<Rightarrow> reads option \<Rightarrow> bool" for E root reqs where
  a_reader: "i < length (rs_readers s) \<Longrightarrow> reader_step E root reqs i s = Some s' \<Longrightarrow> read_step E root reqs s (Some s')"
| the_batcher: "read_step E root reqs s (batcher_step E root reqs tick s)"

definition start_reads :: "read_request list \<Rightarrow> world \<Rightarrow> reads" where
  "start_reads reqs w = \<lparr>rs_world = w, rs_readers = map (\<lambda>(r, _). Look r) reqs,
     storageReqChan = [], accReqChan = [], rs_batcher = Counting\<rparr>"

section \<open>The invariant\<close>

fun batch_ids :: "batcher \<Rightarrow> nat list" where
  "batch_ids (FetchStorage ids) = ids"
| "batch_ids (FetchAccounts ids) = ids"
| "batch_ids (AnswerStorage xs) = map fst xs"
| "batch_ids (AnswerAccounts xs) = map fst xs"
| "batch_ids _ = []"

definition asked_ids :: "reads \<Rightarrow> nat list" where
  "asked_ids s = batch_ids (rs_batcher s) @ storageReqChan s @ accReqChan s"

definition reads_slot :: "read_request \<Rightarrow> bool" where
  "reads_slot rq \<longleftrightarrow> fst (snd (snd rq)) = GET_STATE"

text \<open>What a request has to return, in the world the readers start in.\<close>

definition due :: "env \<Rightarrow> world \<Rightarrow> read_request \<Rightarrow> bytes" where
  "due E w rq = (case rq of (r, a, action, k) \<Rightarrow> view E w r action a k)"

definition upstream_due :: "env \<Rightarrow> world \<Rightarrow> read_request \<Rightarrow> bool" where
  "upstream_due E w rq \<longleftrightarrow> (case rq of (r, a, action, k) \<Rightarrow> due E w rq = uval E (blockNumber w) action a k)"

definition accessed :: "ref \<Rightarrow> world \<Rightarrow> address \<Rightarrow> bool" where
  "accessed root w a \<longleftrightarrow> map_of (accessedAccounts (st w root)) a = Some True"

definition answer_ok :: "env \<Rightarrow> ref \<Rightarrow> world \<Rightarrow> world \<Rightarrow> read_request \<Rightarrow> answer_value \<Rightarrow> bool" where
  "answer_ok E root w0 w rq ans \<longleftrightarrow> (case ans of
     Slot v \<Rightarrow> reads_slot rq \<and> v = sr_Value (fetched_req E (blockNumber w0) (storage_req rq))
   | Account x \<Rightarrow> \<not> reads_slot rq \<and> x = fetched_account E (blockNumber w0) (req_account rq) \<and>
       accessed root w (req_account rq))"

definition reader_ok :: "env \<Rightarrow> ref \<Rightarrow> world \<Rightarrow> world \<Rightarrow> read_request \<Rightarrow> reader \<Rightarrow> bool" where
  "reader_ok E root w0 w rq p \<longleftrightarrow> (case p of
     Look r \<Rightarrow> r < length (heap w0) \<and> (case rq of (_, a, action, k) \<Rightarrow> due E w0 rq = view E w0 r action a k)
   | Ask \<Rightarrow> upstream_due E w0 rq
   | Offered \<Rightarrow> upstream_due E w0 rq
   | Answered ans \<Rightarrow> upstream_due E w0 rq \<and> answer_ok E root w0 w rq ans
   | Returned v \<Rightarrow> v = due E w0 rq)"

definition batcher_ok :: "env \<Rightarrow> ref \<Rightarrow> world \<Rightarrow> read_request list \<Rightarrow> reads \<Rightarrow> bool" where
  "batcher_ok E root w0 reqs s \<longleftrightarrow> (case rs_batcher s of
     Counting \<Rightarrow> True
   | Armed n m \<Rightarrow> n \<le> length (storageReqChan s) \<and> m \<le> length (accReqChan s)
   | FetchStorage ids \<Rightarrow> \<forall>i\<in>set ids. reads_slot (reqs ! i)
   | FetchAccounts ids \<Rightarrow> \<forall>i\<in>set ids. \<not> reads_slot (reqs ! i)
   | AnswerStorage xs \<Rightarrow> \<forall>(i, q)\<in>set xs. answer_ok E root w0 (rs_world s) (reqs ! i) (Slot (sr_Value q))
   | AnswerAccounts xs \<Rightarrow> \<forall>(i, x)\<in>set xs. answer_ok E root w0 (rs_world s) (reqs ! i) (Account x))"

definition world_ok :: "env \<Rightarrow> ref \<Rightarrow> world \<Rightarrow> world \<Rightarrow> bool" where
  "world_ok E root w0 w \<longleftrightarrow> wf_world E w0 \<and> wf_world E w \<and> cache_ext w0 w \<and>
     root < length (heap w0) \<and> parent (heap w0 ! root) = None"

definition queues_ok :: "read_request list \<Rightarrow> reads \<Rightarrow> bool" where
  "queues_ok reqs s \<longleftrightarrow> distinct (asked_ids s) \<and>
     set (asked_ids s) = {i. i < length (rs_readers s) \<and> rs_readers s ! i = Offered} \<and>
     (\<forall>i\<in>set (storageReqChan s). reads_slot (reqs ! i)) \<and> (\<forall>i\<in>set (accReqChan s). \<not> reads_slot (reqs ! i)) \<and>
     length (storageReqChan s) \<le> 500 \<and> length (accReqChan s) \<le> 200"

definition reads_ok :: "env \<Rightarrow> ref \<Rightarrow> world \<Rightarrow> read_request list \<Rightarrow> reads \<Rightarrow> bool" where
  "reads_ok E root w0 reqs s \<longleftrightarrow> world_ok E root w0 (rs_world s) \<and> length (rs_readers s) = length reqs \<and>
     (\<forall>i<length reqs. reader_ok E root w0 (rs_world s) (reqs ! i) (rs_readers s ! i)) \<and>
     queues_ok reqs s \<and> batcher_ok E root w0 reqs s"

section \<open>What the steps do to the world\<close>

lemma world_ok_parts:
  assumes "world_ok E root w0 w"
  shows "wf_world E w0" "wf_world E w" "cache_ext w0 w" "root < length (heap w)" "parent (heap w ! root) = None"
    "blockNumber w = blockNumber w0" "root_ok E (blockNumber w) (heap w ! root)" "gomap_wf (scratchPad (heap w ! root))"
    "length (heap w) = length (heap w0)" "wf_heap (heap w0)"
proof -
  show a: "wf_world E w0" "wf_world E w" "cache_ext w0 w" using assms by (auto simp: world_ok_def)
  show l: "root < length (heap w)" and p: "parent (heap w ! root) = None" and "blockNumber w = blockNumber w0"
    "length (heap w) = length (heap w0)"
    using assms cache_ext_globals(1,2) [OF a(3)] cache_ext_parent [OF a(3)] by (auto simp: world_ok_def)
  show "root_ok E (blockNumber w) (heap w ! root)" "gomap_wf (scratchPad (heap w ! root))"
    using a(2) l p by (auto simp: wf_world_def wf_heap_def)
  show "wf_heap (heap w0)" using a(1) by (simp add: wf_world_def)
qed

lemma world_ok_ext:
  "world_ok E root w0 w \<Longrightarrow> cache_ext w w' \<Longrightarrow> wf_world E w' \<Longrightarrow> world_ok E root w0 w'"
  unfolding world_ok_def using cache_ext_trans by blast

text \<open>A step extends the caches and forgets no account it has seen.\<close>

definition world_step :: "env \<Rightarrow> ref \<Rightarrow> world \<Rightarrow> world \<Rightarrow> world \<Rightarrow> bool" where
  "world_step E root w0 w w' \<longleftrightarrow> world_ok E root w0 w' \<and> (\<forall>a. accessed root w a \<longrightarrow> accessed root w' a)"

lemma store_answer_ok:
  assumes E: "upstream_ok E" and ok: "world_ok E root w0 w" and ans: "answer_ok E root w0 w rq ans" "upstream_due E w0 rq"
    and run: "store_answer E root rq ans w = (v, w')"
  shows "world_step E root w0 w w'" and "v = due E w0 rq"
proof -
  note p = world_ok_parts [OF ok]
  have kd: "keys_distinct E" using E by (simp add: upstream_ok_def)
  obtain r a action k where rq: "rq = (r, a, action, k)" by (cases rq)
  have kept: "accessed root (upd_st root (\<lambda>x. x\<lparr>scratchPad := f (scratchPad x)\<rparr>) w) b = accessed root w b" for f b
    using p(4) by (simp add: accessed_def st_upd_st)
  have "world_step E root w0 w w' \<and> v = due E w0 rq"
  proof (cases ans)
    case (Slot h)
    with ans rq have h: "action = GET_STATE" "Hash_Bytes h = uval E (blockNumber w) action a k"
      by (simp_all add: answer_ok_def reads_slot_def fetched_req_def storage_req_def uval_def p(6))
    with world_ok_ext [OF ok slot_stored_ok [OF kd p(2,4,5), of a k]] kept run Slot rq ans(2) show ?thesis
      by (auto simp: store_answer_def world_step_def upstream_due_def p(6))
  next
    case (Account x)
    with ans rq have x: "action \<noteq> GET_STATE" "x = fetched_account E (blockNumber w) a" and acc: "accessed root w a"
      by (auto simp: answer_ok_def reads_slot_def req_account_def p(6))
    then have "map_of (accessedAccounts (st w root)) a \<noteq> None" by (simp add: accessed_def)
    note st = account_stored_ok [OF kd p(2,4,5) this]
    from world_ok_ext [OF ok st(1,2)] st(3) x run Account rq ans(2) kept show ?thesis
      by (auto simp: store_answer_def world_step_def Let_def upstream_due_def p(6))
  qed
  then show "world_step E root w0 w w'" "v = due E w0 rq" by auto
qed

lemma fetch_storage_ok:
  assumes E: "upstream_ok E" and ok: "world_ok E root w0 w"
  obtains res w' where "loadStateBatchRPC E root qs w = Some (res, w')" "world_step E root w0 w w'"
    "\<And>vs. res = Inr vs \<Longrightarrow> vs = map (fetched_req E (blockNumber w0)) qs"
proof -
  note p = world_ok_parts [OF ok] and ro = root_facts [OF world_ok_parts(2,4,5) [OF ok]]
  have "stable_answers E" using E by (simp add: upstream_ok_def)
  from loadStateBatchRPC_ok [OF this p(4) ro(1,2), of qs] obtain res c where
    l: "loadStateBatchRPC E root qs w = Some (res, (upd_st root (\<lambda>x. x\<lparr>rpcCnt := rpcCnt x + 1\<rparr>) w)\<lparr>clock := c\<rparr>)"
      "clock w \<le> c" "\<And>vs. res = Inr vs \<Longrightarrow> vs = map (fetched_req E (blockNumber w)) qs" by auto
  let ?w' = "(upd_st root (\<lambda>x. x\<lparr>rpcCnt := rpcCnt x + 1\<rparr>) w)\<lparr>clock := c\<rparr>"
  have "?w' = (upd_st root (\<lambda>x. x\<lparr>accessedAccounts := accessedAccounts (st w root), rpcCnt := rpcCnt (st w root) + 1\<rparr>) w)\<lparr>clock := c\<rparr>"
    by (simp add: upd_st_def st_def)
  then have "world_ok E root w0 ?w'"
    using root_requested_ok [OF p(2,4,5) _ l(2), of "accessedAccounts (st w root)"] by (intro world_ok_ext [OF ok]) auto
  moreover have "accessed root ?w' a = accessed root w a" for a using p(4) by (simp add: accessed_def st_upd_st)
  ultimately have "world_step E root w0 w ?w'" by (simp add: world_step_def)
  from that [OF l(1) this] l(3) show thesis by (simp add: p(6))
qed

lemma fetch_accounts_ok:
  assumes E: "upstream_ok E" and ok: "world_ok E root w0 w"
  obtains res w' where "loadAccountBatchRPC E root as w = Some (res, w')" "world_step E root w0 w w'"
    "\<And>vs. res = Inr vs \<Longrightarrow> vs = map (fetched_account E (blockNumber w0)) as" "\<And>a. a \<in> set as \<Longrightarrow> accessed root w' a"
proof -
  note p = world_ok_parts [OF ok] and ro = root_facts [OF world_ok_parts(2,4,5) [OF ok]]
  have "stable_answers E" using E by (simp add: upstream_ok_def)
  from loadAccountBatchRPC_ok [OF this p(4) ro(1,2), of as] obtain res c where
    l: "loadAccountBatchRPC E root as w = Some (res, (upd_st root (mark_accessed as) w)\<lparr>clock := c\<rparr>)"
      "clock w \<le> c" "\<And>vs. res = Inr vs \<Longrightarrow> vs = map (fetched_account E (blockNumber w)) as" by auto
  let ?w' = "(upd_st root (mark_accessed as) w)\<lparr>clock := c\<rparr>" and ?A = "accessedAccounts (mark_accessed as (st w root))"
  have "?w' = (upd_st root (\<lambda>x. x\<lparr>accessedAccounts := ?A, rpcCnt := rpcCnt (st w root)\<rparr>) w)\<lparr>clock := c\<rparr>"
    by (simp add: upd_st_def st_def mark_accessed_def)
  moreover have "map_of ?A b \<noteq> None" if "map_of (accessedAccounts (st w root)) b \<noteq> None" for b
    using that by (auto simp: map_of_mark_accessed)
  ultimately have "world_ok E root w0 ?w'"
    using root_requested_ok [OF p(2,4,5) _ l(2), of ?A] by (intro world_ok_ext [OF ok]) auto
  moreover have a: "accessed root ?w' b \<longleftrightarrow> b \<in> set as \<or> accessed root w b" for b
    using p(4) by (simp add: accessed_def st_upd_st map_of_mark_accessed)
  ultimately have "world_step E root w0 w ?w'" by (simp add: world_step_def)
  from that [OF l(1) this] l(3) a show thesis by (simp add: p(6))
qed

section \<open>The invariant is kept\<close>

lemma reader_ok_mono:
  "world_step E root w0 w w' \<Longrightarrow> reader_ok E root w0 w rq p \<Longrightarrow> reader_ok E root w0 w' rq p"
  by (auto simp: world_step_def reader_ok_def answer_ok_def split: reader.splits answer_value.splits)

lemma batcher_ok_mono:
  assumes "world_step E root w0 (rs_world s) (rs_world s')" "batcher_ok E root w0 reqs s"
    and "rs_batcher s' = rs_batcher s" "length (storageReqChan s) \<le> length (storageReqChan s')"
      "length (accReqChan s) \<le> length (accReqChan s')"
  shows "batcher_ok E root w0 reqs s'"
  using assms by (cases "rs_batcher s") (auto simp: batcher_ok_def world_step_def answer_ok_def split: answer_value.splits)

lemma world_step_refl: "world_ok E root w0 w \<Longrightarrow> world_step E root w0 w w"
  by (simp add: world_step_def)

lemma look_ok:
  assumes ok: "world_ok E root w0 w" and p: "reader_ok E root w0 w rq (Look r)"
  shows "reader_ok E root w0 w rq (case (pad_lookup E rq r w, parent (st w r)) of
     (Some v, _) \<Rightarrow> Returned v | (None, Some p) \<Rightarrow> Look p | (None, None) \<Rightarrow> Ask)"
proof -
  note wo = world_ok_parts [OF ok]
  obtain r0 a action k where rq: "rq = (r0, a, action, k)" by (cases rq)
  have r: "r < length (heap w0)" and due: "due E w0 rq = view E w r action a k"
    using p rq cache_ext_view [OF wo(3,10)] by (auto simp: reader_ok_def)
  show ?thesis
  proof (cases "parent (heap w ! r)")
    case None
    then have v: "view E w r action a k = uval E (blockNumber w) action a k" by (simp add: view_def overlay.simps)
    have "coherent E (blockNumber w) (scratchPad (heap w ! r))"
      using None wo(2,9) r by (auto simp: wf_world_def root_ok_def)
    with None v due wo(6) rq show ?thesis
      by (auto simp: pad_lookup_def st_def reader_ok_def upstream_due_def coherent_def split: option.split)
  next
    case (Some q)
    have "q < r" using Some wo(2,9) r wf_heap_parent by (auto simp: wf_world_def)
    moreover have "view E w r action a k = (case map_of (scratchPad (heap w ! r)) (scratchpadKey E action a k) of
        Some v \<Rightarrow> v | None \<Rightarrow> view E w q action a k)"
      using Some \<open>q < r\<close> by (simp add: view_def overlay.simps [of _ r] split: option.split)
    moreover have "view E w q action a k = view E w0 q action a k"
      using \<open>q < r\<close> r by (intro cache_ext_view [OF wo(3,10)]) simp
    ultimately show ?thesis using Some r due rq
      by (auto simp: pad_lookup_def st_def reader_ok_def split: option.split)
  qed
qed

lemma set_reader_simps [simp]:
  "rs_world (set_reader i p s) = rs_world s" "storageReqChan (set_reader i p s) = storageReqChan s"
  "accReqChan (set_reader i p s) = accReqChan s" "rs_batcher (set_reader i p s) = rs_batcher s"
  "rs_readers (set_reader i p s) = (rs_readers s)[i := p]" "asked_ids (set_reader i p s) = asked_ids s"
  by (simp_all add: set_reader_def asked_ids_def)

lemma queues_ok_set:
  assumes "queues_ok reqs s" "rs_readers s ! i \<noteq> Offered" "p \<noteq> Offered"
  shows "queues_ok reqs (set_reader i p s)"
proof -
  have "(rs_readers s)[i := p] ! j = Offered \<longleftrightarrow> rs_readers s ! j = Offered" if "j < length (rs_readers s)" for j
    using that assms(2,3) by (cases "j = i") auto
  with assms(1) show ?thesis by (simp add: queues_ok_def cong: conj_cong)
qed

lemma readers_ok_set:
  assumes "\<forall>j<length reqs. reader_ok E root w0 w (reqs ! j) (ps ! j)" "length ps = length reqs"
    and "world_step E root w0 w w'" "i < length reqs \<Longrightarrow> reader_ok E root w0 w' (reqs ! i) p"
  shows "\<forall>j<length reqs. reader_ok E root w0 w' (reqs ! j) (ps[i := p] ! j)"
proof (intro allI impI)
  fix j assume "j < length reqs"
  with assms reader_ok_mono [OF assms(3)] show "reader_ok E root w0 w' (reqs ! j) (ps[i := p] ! j)"
    by (cases "j = i") auto
qed

lemma reads_ok_parts:
  assumes "reads_ok E root w0 reqs s"
  shows "world_ok E root w0 (rs_world s)" "length (rs_readers s) = length reqs"
    "\<forall>i<length reqs. reader_ok E root w0 (rs_world s) (reqs ! i) (rs_readers s ! i)"
    "queues_ok reqs s" "batcher_ok E root w0 reqs s"
  using assms by (simp_all add: reads_ok_def)

lemma push_ok:
  assumes q: "queues_ok reqs s" and i: "i < length (rs_readers s)" "rs_readers s ! i = Ask"
  shows "reads_slot (reqs ! i) \<Longrightarrow> length (storageReqChan s) < 500 \<Longrightarrow>
      queues_ok reqs (set_reader i Offered (s\<lparr>storageReqChan := storageReqChan s @ [i]\<rparr>))"
    and "\<not> reads_slot (reqs ! i) \<Longrightarrow> length (accReqChan s) < 200 \<Longrightarrow>
      queues_ok reqs (set_reader i Offered (s\<lparr>accReqChan := accReqChan s @ [i]\<rparr>))"
proof -
  have ids: "distinct (asked_ids s)" "i \<notin> set (asked_ids s)"
    "set (asked_ids s) = {i. i < length (rs_readers s) \<and> rs_readers s ! i = Offered}"
    using q i by (auto simp: queues_ok_def)
  have new: "insert i (set (asked_ids s)) = {j. j < length (rs_readers s) \<and> (rs_readers s)[i := Offered] ! j = Offered}"
    using ids(3) i by (auto simp: nth_list_update)
  show "queues_ok reqs (set_reader i Offered (s\<lparr>storageReqChan := storageReqChan s @ [i]\<rparr>))"
    if "reads_slot (reqs ! i)" "length (storageReqChan s) < 500"
    using q that ids(1,2) new by (auto simp: queues_ok_def asked_ids_def)
  show "queues_ok reqs (set_reader i Offered (s\<lparr>accReqChan := accReqChan s @ [i]\<rparr>))"
    if "\<not> reads_slot (reqs ! i)" "length (accReqChan s) < 200"
    using q that ids(1,2) new by (auto simp: queues_ok_def asked_ids_def)
qed

lemma reader_step_ok:
  assumes E: "upstream_ok E" and ok: "reads_ok E root w0 reqs s" and i: "i < length (rs_readers s)"
    and step: "reader_step E root reqs i s = Some s'"
  shows "reads_ok E root w0 reqs s'"
proof -
  note p = reads_ok_parts [OF ok]
  let ?w = "rs_world s"
  have pi: "reader_ok E root w0 ?w (reqs ! i) (rs_readers s ! i)" using p(2,3) i by simp
  have same: "world_step E root w0 ?w ?w" using p(1) by (rule world_step_refl)
  show ?thesis
  proof (cases "rs_readers s ! i")
    case (Look r)
    define q where "q = (case (pad_lookup E (reqs ! i) r ?w, parent (st ?w r)) of
      (Some v, _) \<Rightarrow> Returned v | (None, Some p) \<Rightarrow> Look p | (None, None) \<Rightarrow> Ask)"
    have s': "s' = set_reader i q s" using step Look by (simp add: reader_step_def q_def)
    have q: "reader_ok E root w0 ?w (reqs ! i) q" "q \<noteq> Offered"
      using look_ok [OF p(1)] pi Look by (auto simp: q_def split: option.splits)
    show ?thesis unfolding s' reads_ok_def
      using p(1,2) readers_ok_set [OF p(3,2) same q(1)] queues_ok_set [OF p(4)] Look q(2) batcher_ok_mono [OF _ p(5), of "set_reader i q s"] same
      by simp
  next
    case Ask
    from pi Ask have r: "reader_ok E root w0 ?w (reqs ! i) Offered" by (simp add: reader_ok_def)
    show ?thesis using step Ask p(1,2) readers_ok_set [OF p(3,2) same r] push_ok [OF p(4) i Ask] batcher_ok_mono [OF _ p(5), of s'] same
      by (auto simp: reader_step_def reads_ok_def reads_slot_def split: if_splits)
  next
    case (Answered ans)
    obtain v w1 where run: "store_answer E root (reqs ! i) ans ?w = (v, w1)" by (cases "store_answer E root (reqs ! i) ans ?w")
    then have s': "s' = set_reader i (Returned v) (s\<lparr>rs_world := w1\<rparr>)" using step Answered by (simp add: reader_step_def)
    have a: "world_step E root w0 ?w w1" "v = due E w0 (reqs ! i)"
      using store_answer_ok [OF E p(1) _ _ run] pi Answered by (auto simp: reader_ok_def)
    then have r: "reader_ok E root w0 w1 (reqs ! i) (Returned v)" by (simp add: reader_ok_def)
    have "queues_ok reqs (s\<lparr>rs_world := w1\<rparr>)" using p(4) by (simp add: queues_ok_def asked_ids_def)
    with a readers_ok_set [OF p(3,2) a(1) r] show ?thesis
      using p(2) queues_ok_set [of reqs "s\<lparr>rs_world := w1\<rparr>" i "Returned v"] Answered batcher_ok_mono [OF _ p(5), of s']
      by (simp add: s' reads_ok_def world_step_def)
  qed (use step in \<open>simp_all add: reader_step_def\<close>)
qed

lemma queues_ok_permuted:
  assumes "queues_ok reqs s" "mset (asked_ids s') = mset (asked_ids s)" "rs_readers s' = rs_readers s"
    and "set (storageReqChan s') \<subseteq> set (storageReqChan s)" "length (storageReqChan s') \<le> length (storageReqChan s)"
    and "set (accReqChan s') \<subseteq> set (accReqChan s)" "length (accReqChan s') \<le> length (accReqChan s)"
  shows "queues_ok reqs s'"
proof -
  have "distinct (asked_ids s') = distinct (asked_ids s)" "set (asked_ids s') = set (asked_ids s)"
    using assms(2) mset_eq_imp_distinct_iff mset_eq_setD by blast+
  with assms show ?thesis by (auto simp: queues_ok_def)
qed

lemma mset_take_drop: "mset (take n xs) + mset (drop n xs) = mset xs"
  by (metis append_take_drop_id mset_append)

lemma take_queue_ok:
  assumes "queues_ok reqs s" "rs_batcher s = Armed n m"
  shows "queues_ok reqs (s\<lparr>storageReqChan := drop n (storageReqChan s), rs_batcher := FetchStorage (take n (storageReqChan s))\<rparr>)"
    and "queues_ok reqs (s\<lparr>accReqChan := drop m (accReqChan s), rs_batcher := FetchAccounts (take m (accReqChan s))\<rparr>)"
proof -
  let ?s = "s\<lparr>storageReqChan := drop n (storageReqChan s), rs_batcher := FetchStorage (take n (storageReqChan s))\<rparr>"
  let ?t = "s\<lparr>accReqChan := drop m (accReqChan s), rs_batcher := FetchAccounts (take m (accReqChan s))\<rparr>"
  have "mset (asked_ids ?s) = mset (asked_ids s)"
    using assms(2) by (simp add: asked_ids_def mset_take_drop flip: add.assoc)
  then show "queues_ok reqs ?s"
    by (rule queues_ok_permuted [OF assms(1)]) (simp_all add: set_drop_subset)
  have "mset (asked_ids ?t) = mset (storageReqChan s) + (mset (take m (accReqChan s)) + mset (drop m (accReqChan s)))"
    by (simp add: asked_ids_def)
  also have "\<dots> = mset (asked_ids s)" using assms(2) by (simp add: asked_ids_def mset_take_drop)
  finally show "queues_ok reqs ?t"
    by (rule queues_ok_permuted [OF assms(1)]) (simp_all add: set_drop_subset)
qed

lemma queues_ok_batcher:
  assumes "queues_ok reqs s" "batch_ids b = batch_ids (rs_batcher s)"
  shows "queues_ok reqs (s\<lparr>rs_world := w, rs_batcher := b\<rparr>)" "queues_ok reqs (s\<lparr>rs_batcher := b\<rparr>)"
  using assms by (simp_all add: queues_ok_def asked_ids_def)

lemma queues_ok_answer:
  assumes q: "queues_ok reqs s" and b: "batch_ids (rs_batcher s) = i # batch_ids b" and p: "p \<noteq> Offered"
  shows "queues_ok reqs (set_reader i p (s\<lparr>rs_batcher := b\<rparr>))" "rs_readers s ! i = Offered" "i < length (rs_readers s)"
proof -
  have ids: "set (i # batch_ids b @ storageReqChan s @ accReqChan s) = {i. i < length (rs_readers s) \<and> rs_readers s ! i = Offered}"
    and d: "distinct (i # batch_ids b @ storageReqChan s @ accReqChan s)"
    using q b by (auto simp: queues_ok_def asked_ids_def)
  from ids show i: "rs_readers s ! i = Offered" "i < length (rs_readers s)" by auto
  have "{j. j < length (rs_readers s) \<and> (rs_readers s)[i := p] ! j = Offered} =
      {j. j < length (rs_readers s) \<and> rs_readers s ! j = Offered} - {i}"
    using p i(2) by (auto simp: nth_list_update split: if_splits)
  also have "\<dots> = set (batch_ids b @ storageReqChan s @ accReqChan s)" unfolding ids [symmetric] using d by auto
  finally have "set (batch_ids b @ storageReqChan s @ accReqChan s) =
      {j. j < length (rs_readers s) \<and> (rs_readers s)[i := p] ! j = Offered}" ..
  with q d show "queues_ok reqs (set_reader i p (s\<lparr>rs_batcher := b\<rparr>))"
    by (simp add: queues_ok_def asked_ids_def)
qed


lemma batcher_ok_set_reader [simp]: "batcher_ok E root w0 reqs (set_reader i p s) = batcher_ok E root w0 reqs s"
  by (cases "rs_batcher s") (simp_all add: batcher_ok_def)

lemma answer_step_ok:
  assumes ok: "reads_ok E root w0 reqs s" and b: "batch_ids (rs_batcher s) = i # batch_ids b"
    and ans: "answer_ok E root w0 (rs_world s) (reqs ! i) ans" "batcher_ok E root w0 reqs (s\<lparr>rs_batcher := b\<rparr>)"
  shows "reads_ok E root w0 reqs (set_reader i (Answered ans) (s\<lparr>rs_batcher := b\<rparr>))"
proof -
  note p = reads_ok_parts [OF ok]
  note q = queues_ok_answer [OF p(4) b, of "Answered ans"]
  have "reader_ok E root w0 (rs_world s) (reqs ! i) (Answered ans)"
    using p(2,3) q(2,3) ans(1) by (auto simp: reader_ok_def)
  from readers_ok_set [OF p(3,2) world_step_refl [OF p(1)] this] q(1) p(1,2) ans(2) show ?thesis
    by (simp add: reads_ok_def)
qed

lemma fetch_step_ok:
  assumes ok: "reads_ok E root w0 reqs s" and w: "world_step E root w0 (rs_world s) w'"
    and b: "batch_ids b = batch_ids (rs_batcher s)" "batcher_ok E root w0 reqs (s\<lparr>rs_world := w', rs_batcher := b\<rparr>)"
  shows "reads_ok E root w0 reqs (s\<lparr>rs_world := w', rs_batcher := b\<rparr>)"
  using reads_ok_parts [OF ok] reader_ok_mono [OF w] w queues_ok_batcher(1) [of reqs s, OF _ b(1)] b(2)
  by (simp add: reads_ok_def world_step_def)

lemma move_on_ok:
  assumes "reads_ok E root w0 reqs s" "batch_ids b = batch_ids (rs_batcher s)" "batcher_ok E root w0 reqs (s\<lparr>rs_batcher := b\<rparr>)"
  shows "reads_ok E root w0 reqs (s\<lparr>rs_batcher := b\<rparr>)"
  using fetch_step_ok [OF assms(1) world_step_refl assms(2)] reads_ok_parts(1) [OF assms(1)] assms(3) by simp

lemma batcher_step_ok:
  assumes E: "upstream_ok E" and ok: "reads_ok E root w0 reqs s"
  shows "\<exists>s'. batcher_step E root reqs tick s = Some s' \<and> reads_ok E root w0 reqs s'"
proof (cases "rs_batcher s")
  case Counting
  with move_on_ok [OF ok] show ?thesis by (simp add: batcher_step_def batcher_ok_def)
next
  case (Armed n m)
  with reads_ok_parts [OF ok] take_queue_ok [OF reads_ok_parts(4) [OF ok] Armed] show ?thesis
    by (cases tick) (auto simp: batcher_step_def reads_ok_def batcher_ok_def queues_ok_def dest: in_set_takeD)
next
  case (FetchStorage ids)
  let ?b = "\<lambda>res. case res of Inl err \<Rightarrow> FetchStorage ids | Inr vs \<Rightarrow> AnswerStorage (zip ids vs)"
  let ?qs = "map (\<lambda>i. storage_req (reqs ! i)) ids"
  obtain res w' where f: "loadStateBatchRPC E root ?qs (rs_world s) = Some (res, w')" "world_step E root w0 (rs_world s) w'"
    "\<And>vs. res = Inr vs \<Longrightarrow> vs = map (fetched_req E (blockNumber w0)) ?qs"
    by (rule fetch_storage_ok [OF E reads_ok_parts(1) [OF ok], of ?qs]) blast
  have "\<forall>i\<in>set ids. reads_slot (reqs ! i)" using reads_ok_parts(5) [OF ok] FetchStorage by (simp add: batcher_ok_def)
  then have "reads_ok E root w0 reqs (s\<lparr>rs_world := w', rs_batcher := ?b res\<rparr>)"
    using f(3-) FetchStorage by (intro fetch_step_ok [OF ok f(2)]; cases res) (auto simp: batcher_ok_def answer_ok_def set_zip)
  then show ?thesis using FetchStorage f(1) move_on_ok [OF ok, of "AnswerStorage []"] by (auto simp: batcher_step_def batcher_ok_def)
next
  case (FetchAccounts ids)
  let ?b = "\<lambda>res. case res of Inl err \<Rightarrow> FetchAccounts ids | Inr vs \<Rightarrow> AnswerAccounts (zip ids vs)"
  let ?as = "map (\<lambda>i. req_account (reqs ! i)) ids"
  obtain res w' where f: "loadAccountBatchRPC E root ?as (rs_world s) = Some (res, w')" "world_step E root w0 (rs_world s) w'"
    "\<And>vs. res = Inr vs \<Longrightarrow> vs = map (fetched_account E (blockNumber w0)) ?as" "\<And>a. a \<in> set ?as \<Longrightarrow> accessed root w' a"
    by (rule fetch_accounts_ok [OF E reads_ok_parts(1) [OF ok], of ?as]) blast
  have "\<forall>i\<in>set ids. \<not> reads_slot (reqs ! i)" using reads_ok_parts(5) [OF ok] FetchAccounts by (simp add: batcher_ok_def)
  then have "reads_ok E root w0 reqs (s\<lparr>rs_world := w', rs_batcher := ?b res\<rparr>)"
    using f(3-) FetchAccounts by (intro fetch_step_ok [OF ok f(2)]; cases res) (auto simp: batcher_ok_def answer_ok_def set_zip)
  then show ?thesis using FetchAccounts f(1) move_on_ok [OF ok, of "AnswerAccounts []"] by (auto simp: batcher_step_def batcher_ok_def)
next
  case (AnswerStorage xs)
  with reads_ok_parts(5) [OF ok] answer_step_ok [OF ok] move_on_ok [OF ok, of Counting] show ?thesis
    by (cases xs) (auto simp: batcher_step_def batcher_ok_def)
next
  case (AnswerAccounts xs)
  with reads_ok_parts(5) [OF ok] answer_step_ok [OF ok] move_on_ok [OF ok, of Counting] show ?thesis
    by (cases xs) (auto simp: batcher_step_def batcher_ok_def)
qed

section \<open>Every reader can return\<close>

fun reader_rank :: "reader \<Rightarrow> nat" where
  "reader_rank (Look r) = r + 4"
| "reader_rank Ask = 3"
| "reader_rank Offered = 2"
| "reader_rank (Answered ans) = 1"
| "reader_rank (Returned v) = 0"

definition reads_rank :: "reads \<Rightarrow> nat" where
  "reads_rank s = sum_list (map reader_rank (rs_readers s))"

lemma reads_rank_set:
  assumes "i < length (rs_readers s)" "reader_rank p < reader_rank (rs_readers s ! i)" "rs_readers t = rs_readers s"
  shows "reads_rank (set_reader i p t) < reads_rank s"
proof -
  let ?ns = "map reader_rank (rs_readers s)"
  have "?ns ! i \<le> sum_list ?ns" by (rule elem_le_sum_list) (use assms in simp)
  with assms show ?thesis by (simp add: reads_rank_def map_update sum_list_update)
qed

lemma reader_step_rank:
  assumes ok: "reads_ok E root w0 reqs s" and i: "i < length (rs_readers s)" and step: "reader_step E root reqs i s = Some s'"
  shows "reads_rank s' < reads_rank s"
proof (cases "rs_readers s ! i")
  case (Look r)
  note p = reads_ok_parts [OF ok]
  have r: "r < length (heap (rs_world s))" using p(2,3) i Look world_ok_parts(9) [OF p(1)] by (force simp: reader_ok_def)
  have "q < r" if "parent (st (rs_world s) r) = Some q" for q
    using that r world_ok_parts(2) [OF p(1)] wf_heap_parent by (auto simp: wf_world_def st_def)
  then show ?thesis using step Look
    by (auto simp: reader_step_def intro!: reads_rank_set [OF i] split: option.split)
next
  case Ask
  with step show ?thesis by (auto simp: reader_step_def intro!: reads_rank_set [OF i] split: if_splits)
next
  case (Answered ans)
  with step show ?thesis by (auto simp: reader_step_def intro!: reads_rank_set [OF i] split: prod.splits)
qed (use step in \<open>simp_all add: reader_step_def\<close>)

lemma retry_run:
  assumes "retry_until f w = Some y"
    and "\<And>w e w1. f w = Some (Inl e, w1) \<Longrightarrow> step (mk w) (Some (mk w1))"
    and "\<And>w v w1. f w = Some (Inr v, w1) \<Longrightarrow> step (mk w) (Some (done v w1))"
  shows "outcomes step (mk w) (Some (case y of (v, w1) \<Rightarrow> done v w1))"
proof -
  have "f' = f \<longrightarrow> outcomes step (mk w) (Some (case y of (v, w1) \<Rightarrow> done v w1))" if "retry_until f' w = Some y" for f' w y
    using that
  proof (rule retry_until.raw_induct [rotated], intro impI, goal_cases)
    case (1 ret f' w y)
    from 1(2,4) obtain res w1 where f: "f w = Some (res, w1)"
      and r: "(case res of Inl err \<Rightarrow> ret f w1 | Inr v \<Rightarrow> Some (v, w1)) = Some y" by (auto simp: bind_eq_Some_conv)
    show ?case
    proof (cases res)
      case (Inl e)
      with r 1(1) have "outcomes step (mk w1) (Some (case y of (v, w1) \<Rightarrow> done v w1))" by simp
      with assms(2) f Inl show ?thesis by (blast intro: outcomes_first)
    next
      case (Inr v)
      with f r assms(3) show ?thesis by (auto intro: outcomes_one)
    qed
  qed
  with assms(1) show ?thesis by blast
qed

lemma fetch_storage_run:
  assumes E: "upstream_ok E" and ok: "reads_ok E root w0 reqs s" and b: "rs_batcher s = FetchStorage ids" "ids \<noteq> []"
  shows "\<exists>w' vs. outcomes (read_step E root reqs) s (Some (s\<lparr>rs_world := w', rs_batcher := AnswerStorage (zip ids vs)\<rparr>)) \<and>
    length vs = length ids"
proof -
  let ?qs = "map (\<lambda>i. storage_req (reqs ! i)) ids" and ?mk = "\<lambda>w. s\<lparr>rs_world := w, rs_batcher := FetchStorage ids\<rparr>"
  let ?done = "\<lambda>vs w. s\<lparr>rs_world := w, rs_batcher := AnswerStorage (zip ids vs)\<rparr>"
  note p = world_ok_parts [OF reads_ok_parts(1) [OF ok]]
  note ro = root_facts(1,2) [OF p(2,4,5)]
  from timeSlot_storage_ok [OF E p(4) ro, of "length ?qs" ?qs] b(2) obtain vs w' where
    r: "retry_until (loadStateBatchRPC E root ?qs) (rs_world s) = Some (vs, w')" and l: "length vs = length ids"
    by (auto simp: timeSlot_storage_def bind_eq_Some_conv)
  have step: "loadStateBatchRPC E root ?qs w = Some (res, w1) \<Longrightarrow> read_step E root reqs (?mk w)
      (Some (case res of Inl err \<Rightarrow> ?mk w1 | Inr vs \<Rightarrow> ?done vs w1))" for w res w1
    using b(2) read_step.the_batcher [of E root reqs "?mk w" tickerStorage] by (cases res) (simp_all add: batcher_step_def)
  have "outcomes (read_step E root reqs) (?mk (rs_world s)) (Some (case (vs, w') of (vs, w') \<Rightarrow> ?done vs w'))"
    using r by (rule retry_run [where mk = ?mk]) (use step in force)+
  moreover have "?mk (rs_world s) = s" by (simp flip: b(1))
  ultimately show ?thesis using l by auto
qed

lemma fetch_accounts_run:
  assumes E: "upstream_ok E" and ok: "reads_ok E root w0 reqs s" and b: "rs_batcher s = FetchAccounts ids" "ids \<noteq> []"
  shows "\<exists>w' vs. outcomes (read_step E root reqs) s (Some (s\<lparr>rs_world := w', rs_batcher := AnswerAccounts (zip ids vs)\<rparr>)) \<and>
    length vs = length ids"
proof -
  let ?qs = "map (\<lambda>i. req_account (reqs ! i)) ids" and ?mk = "\<lambda>w. s\<lparr>rs_world := w, rs_batcher := FetchAccounts ids\<rparr>"
  let ?done = "\<lambda>vs w. s\<lparr>rs_world := w, rs_batcher := AnswerAccounts (zip ids vs)\<rparr>"
  note p = world_ok_parts [OF reads_ok_parts(1) [OF ok]]
  note ro = root_facts(1,2) [OF p(2,4,5)]
  from timeSlot_account_ok [OF E p(4) ro, of "length ?qs" ?qs] b(2) obtain vs w' where
    r: "retry_until (loadAccountBatchRPC E root ?qs) (rs_world s) = Some (vs, w')" and l: "length vs = length ids"
    by (auto simp: timeSlot_account_def bind_eq_Some_conv)
  have step: "loadAccountBatchRPC E root ?qs w = Some (res, w1) \<Longrightarrow> read_step E root reqs (?mk w)
      (Some (case res of Inl err \<Rightarrow> ?mk w1 | Inr vs \<Rightarrow> ?done vs w1))" for w res w1
    using b(2) read_step.the_batcher [of E root reqs "?mk w" tickerStorage] by (cases res) (simp_all add: batcher_step_def)
  have "outcomes (read_step E root reqs) (?mk (rs_world s)) (Some (case (vs, w') of (vs, w') \<Rightarrow> ?done vs w'))"
    using r by (rule retry_run [where mk = ?mk]) (use step in force)+
  moreover have "?mk (rs_world s) = s" by (simp flip: b(1))
  ultimately show ?thesis using l by auto
qed

interpretation readers: safe_machine "read_step E root reqs" "\<lambda>s. upstream_ok E \<and> reads_ok E root w0 reqs s" for E root reqs w0
proof
  fix s n
  assume "upstream_ok E \<and> reads_ok E root w0 reqs s" "read_step E root reqs s n"
  then show "\<exists>s'. n = Some s' \<and> upstream_ok E \<and> reads_ok E root w0 reqs s'"
    using batcher_step_ok [of E root w0 reqs s] reader_step_ok [of E root w0 reqs s] by (auto elim: read_step.cases)
qed

definition gets_on :: "env \<Rightarrow> ref \<Rightarrow> read_request list \<Rightarrow> reads \<Rightarrow> bool" where
  "gets_on E root reqs s \<longleftrightarrow> (\<exists>s'. outcomes (read_step E root reqs) s (Some s') \<and> reads_rank s' < reads_rank s)"

lemma gets_on_via:
  assumes "outcomes (read_step E root reqs) s (Some t)" "rs_readers t = rs_readers s" "gets_on E root reqs t"
  shows "gets_on E root reqs s"
  using assms by (auto simp: gets_on_def reads_rank_def intro: outcomes_trans)

lemma gets_on_batcher:
  assumes "batcher_step E root reqs tick s = Some t" "rs_readers t = rs_readers s" "gets_on E root reqs t"
  shows "gets_on E root reqs s"
  using gets_on_via [OF outcomes_one] read_step.the_batcher [of E root reqs s tick] assms by simp

lemma gets_on_answer:
  assumes ok: "reads_ok E root w0 reqs s" and step: "batcher_step E root reqs tickerStorage s = Some (set_reader i p (s\<lparr>rs_batcher := b\<rparr>))"
    and b: "batch_ids (rs_batcher s) = i # batch_ids b" and p: "reader_rank p < 2"
  shows "gets_on E root reqs s"
proof -
  have "p \<noteq> Offered" using p by auto
  from queues_ok_answer [OF reads_ok_parts(4) [OF ok] b this] p have "reads_rank (set_reader i p (s\<lparr>rs_batcher := b\<rparr>)) < reads_rank s"
    by (intro reads_rank_set) auto
  moreover have "outcomes (read_step E root reqs) s (Some (set_reader i p (s\<lparr>rs_batcher := b\<rparr>)))"
    using read_step.the_batcher [of E root reqs s tickerStorage] step by (intro outcomes_one) simp
  ultimately show ?thesis by (auto simp: gets_on_def)
qed

lemma gets_on_fetched:
  assumes "reads_ok E root w0 reqs s" "rs_batcher s \<in> {AnswerStorage xs, AnswerAccounts ys}" "xs \<noteq> []" "ys \<noteq> []"
  shows "gets_on E root reqs s"
  using assms(2-)
  by (cases xs; cases ys) (auto simp: batcher_step_def intro!: gets_on_answer [OF assms(1)])

lemma gets_on_fetch:
  assumes E: "upstream_ok E" and ok: "reads_ok E root w0 reqs s"
    and b: "rs_batcher s \<in> {FetchStorage ids, FetchAccounts ids}" "ids \<noteq> []"
  shows "gets_on E root reqs s"
proof -
  obtain t where t: "outcomes (read_step E root reqs) s (Some t)" "rs_readers t = rs_readers s"
    "\<exists>xs ys. rs_batcher t \<in> {AnswerStorage xs, AnswerAccounts ys} \<and> xs \<noteq> [] \<and> ys \<noteq> []"
    using fetch_storage_run [OF E ok] fetch_accounts_run [OF E ok] b by fastforce
  moreover have "reads_ok E root w0 reqs t" using readers.outcome_state [OF t(1)] E ok by blast
  ultimately show ?thesis using gets_on_fetched gets_on_via by blast
qed

lemma gets_on_armed:
  assumes E: "upstream_ok E" and ok: "reads_ok E root w0 reqs s" and b: "rs_batcher s = Armed n m" "0 < n \<or> 0 < m"
  shows "gets_on E root reqs s"
proof -
  define tick where "tick = (if 0 < n then tickerStorage else tickerAccount)"
  obtain t where t: "batcher_step E root reqs tick s = Some t" "reads_ok E root w0 reqs t"
    using batcher_step_ok [OF E ok] by blast
  have "n \<le> length (storageReqChan s)" "m \<le> length (accReqChan s)" using reads_ok_parts(5) [OF ok] b(1) by (simp_all add: batcher_ok_def)
  with t(1) b have "rs_readers t = rs_readers s" "\<exists>ids. rs_batcher t \<in> {FetchStorage ids, FetchAccounts ids} \<and> ids \<noteq> []"
    by (auto simp: tick_def batcher_step_def split: if_splits)
  then show ?thesis using gets_on_fetch [OF E t(2)] gets_on_batcher [OF t(1)] by blast
qed

lemma gets_on_counting:
  assumes E: "upstream_ok E" and ok: "reads_ok E root w0 reqs s" and b: "rs_batcher s = Counting" "asked_ids s \<noteq> []"
  shows "gets_on E root reqs s"
proof -
  obtain t where t: "batcher_step E root reqs tickerStorage s = Some t" "reads_ok E root w0 reqs t"
    using batcher_step_ok [OF E ok] by blast
  with b have "rs_batcher t = Armed (length (storageReqChan s)) (length (accReqChan s))" "rs_readers t = rs_readers s"
    "0 < length (storageReqChan s) \<or> 0 < length (accReqChan s)"
    by (auto simp: batcher_step_def asked_ids_def)
  then show ?thesis using gets_on_armed [OF E t(2)] gets_on_batcher [OF t(1)] by blast
qed

lemma gets_on_idle:
  assumes E: "upstream_ok E" and ok: "reads_ok E root w0 reqs s" and a: "asked_ids s \<noteq> []"
    and t: "batcher_step E root reqs tickerStorage s = Some t" "rs_readers t = rs_readers s" "asked_ids t = asked_ids s"
    and on: "reads_ok E root w0 reqs t \<Longrightarrow> asked_ids t \<noteq> [] \<Longrightarrow> gets_on E root reqs t"
  shows "gets_on E root reqs s"
proof -
  have "reads_ok E root w0 reqs t" using batcher_step_ok [OF E ok, of tickerStorage] t(1) by auto
  with on a t(3) show ?thesis by (intro gets_on_batcher [OF t(1,2)]) simp
qed

lemma gets_on_asked:
  assumes E: "upstream_ok E" and ok: "reads_ok E root w0 reqs s" and a: "asked_ids s \<noteq> []"
  shows "gets_on E root reqs s"
proof -
  have answered: "gets_on E root reqs s"
    if "reads_ok E root w0 reqs s" "asked_ids s \<noteq> []" "rs_batcher s \<in> {AnswerStorage [], AnswerAccounts []}" for s
    by (rule gets_on_idle [OF E that(1,2), of "s\<lparr>rs_batcher := Counting\<rparr>"])
      (use that(3) gets_on_counting [OF E] in \<open>auto simp: batcher_step_def asked_ids_def\<close>)
  have fetched: "gets_on E root reqs s"
    if "reads_ok E root w0 reqs s" "asked_ids s \<noteq> []" "rs_batcher s \<in> {FetchStorage [], FetchAccounts []}" for s
    by (rule gets_on_idle [OF E that(1,2), of "s\<lparr>rs_batcher := if rs_batcher s = FetchStorage [] then AnswerStorage [] else AnswerAccounts []\<rparr>"])
      (use that(3) answered in \<open>auto simp: batcher_step_def asked_ids_def\<close>)
  have armed: "gets_on E root reqs s" if "rs_batcher s = Armed 0 0"
    by (rule gets_on_idle [OF E ok a, of "s\<lparr>rs_batcher := FetchStorage []\<rparr>"])
      (use that fetched in \<open>auto simp: batcher_step_def asked_ids_def\<close>)
  show ?thesis
  proof (cases "rs_batcher s")
    case (Armed n m)
    with armed gets_on_armed [OF E ok Armed] show ?thesis by (cases "n = 0 \<and> m = 0") auto
  next
    case (AnswerStorage xs)
    with answered [OF ok a] gets_on_fetched [OF ok, of xs "[undefined]"] show ?thesis by (cases "xs = []") auto
  next
    case (AnswerAccounts xs)
    with answered [OF ok a] gets_on_fetched [OF ok, of "[undefined]" xs] show ?thesis by (cases "xs = []") auto
  qed (use gets_on_counting [OF E ok _ a] gets_on_fetch [OF E ok] fetched [OF ok a] in auto)
qed

lemma rank_zero: "reads_rank s = 0 \<longleftrightarrow> (\<forall>i<length (rs_readers s). \<exists>v. rs_readers s ! i = Returned v)"
proof -
  have "reader_rank p = 0 \<longleftrightarrow> (\<exists>v. p = Returned v)" for p by (cases p) auto
  then show ?thesis by (simp add: reads_rank_def all_set_conv_all_nth)
qed

text \<open>Either a reader can take a step, or it waits for the batcher.\<close>

lemma reads_progress:
  assumes E: "upstream_ok E" and ok: "reads_ok E root w0 reqs s" and r: "0 < reads_rank s"
  shows "gets_on E root reqs s"
proof (cases "asked_ids s = []")
  case False
  with gets_on_asked [OF E ok] show ?thesis by simp
next
  case True
  from r obtain i where i: "i < length (rs_readers s)" "\<nexists>v. rs_readers s ! i = Returned v" using rank_zero [of s] by auto
  have "rs_readers s ! i \<noteq> Offered" "storageReqChan s = []" "accReqChan s = []"
    using True reads_ok_parts(4) [OF ok] i(1) by (auto simp: queues_ok_def asked_ids_def)
  with i(2) have "reader_step E root reqs i s \<noteq> None"
    by (cases "rs_readers s ! i") (auto simp: reader_step_def split: prod.splits)
  then obtain s' where s': "reader_step E root reqs i s = Some s'" by blast
  then show ?thesis
    using reader_step_rank [OF ok i(1) s'] read_step.a_reader [OF i(1) s'] by (auto simp: gets_on_def intro: outcomes_one)
qed

interpretation live_readers: live_machine "read_step E root reqs" "\<lambda>s. upstream_ok E \<and> reads_ok E root w0 reqs s" reads_rank
  for E root reqs w0
  by unfold_locales (use reads_progress in \<open>auto simp: gets_on_def\<close>)

lemma start_reads_ok:
  assumes "wf_world E w" "\<forall>(r, _)\<in>set reqs. r < length (heap w)" "root < length (heap w)" "parent (heap w ! root) = None"
  shows "reads_ok E root w reqs (start_reads reqs w)"
proof -
  have "reader_ok E root w w (reqs ! i) (rs_readers (start_reads reqs w) ! i)" if "i < length reqs" for i
    using assms(2) nth_mem [OF that] that
    by (cases "reqs ! i") (fastforce simp: start_reads_def reader_ok_def due_def)
  with assms show ?thesis
    by (auto simp: reads_ok_def world_ok_def start_reads_def queues_ok_def asked_ids_def batcher_ok_def split: prod.splits)
qed

lemma all_returned:
  assumes "reads_ok E root w reqs s" "reads_rank s = 0"
  shows "rs_readers s = map (\<lambda>(r, a, action, k). Returned (view E w r action a k)) reqs"
proof (rule nth_equalityI)
  note p = reads_ok_parts [OF assms(1)]
  show "length (rs_readers s) = length (map (\<lambda>(r, a, action, k). Returned (view E w r action a k)) reqs)" using p(2) by simp
  fix i assume i: "i < length (rs_readers s)"
  with assms(2) obtain v where v: "rs_readers s ! i = Returned v" by (auto simp: rank_zero)
  then have "v = due E w (reqs ! i)" using p(2,3) i by (force simp: reader_ok_def)
  with v i p(2) show "rs_readers s ! i = map (\<lambda>(r, a, action, k). Returned (view E w r action a k)) reqs ! i"
    by (simp add: due_def split: prod.split)
qed

section \<open>Properties\<close>

definition demo_reads :: "read_request list" where
  "demo_reads = [(1, 9, GET_STATE, 4), (0, 3, GET_BALANCE, 0), (1, 9, GET_STATE, 4)]"

lemma demo_reads_start:
  "\<forall>(r, _)\<in>set demo_reads. r < length (heap demo_world)" "0 < length (heap demo_world)" "parent (heap demo_world ! 0) = None"
  by (simp_all add: demo_reads_def demo_world_def Derive_def NewOverlayState_def st_def)

lemmas demo_reads_facts = upstream_ok_demo wf_demo demo_reads_start

lemma view_root_demo: "view demo_env demo_world 0 action a k = uval demo_env 7 action a k"
  by (simp add: view_def overlay.simps [of _ 0] demo_world_def Derive_def NewOverlayState_def st_def)

lemma demo_due: "map (\<lambda>(r, a, action, k). Returned (view demo_env demo_world r action a k)) demo_reads =
  [Returned (Hash_Bytes 4), Returned (uval demo_env 7 GET_BALANCE 3 0), Returned (Hash_Bytes 4)]"
  by (simp add: demo_reads_def view_demo view_root_demo uval_def answer_demo demo_answer_def as_hash_def)

text \<open>C15.
  Any number of goroutines may read at the same time, from any layers above one root, while the
  batcher collects, fetches and delivers their requests in its own time and the transport fails
  now and then: in every interleaving, nothing panics, a read that returns gives the value the same read gives when
  it runs alone, and the caches stay coherent with the upstream node.
\<close>

theorem shared_reads_agree:
  assumes "upstream_ok E" "wf_world E w" "\<forall>(r, _)\<in>set reqs. r < length (heap w)"
    and "root < length (heap w)" "parent (heap w ! root) = None"
    and "outcomes (read_step E root reqs) (start_reads reqs w) n"
  shows "\<exists>s. n = Some s \<and> cache_ext w (rs_world s) \<and> wf_world E (rs_world s) \<and>
    (\<forall>i<length reqs. \<forall>v. rs_readers s ! i = Returned v \<longrightarrow>
       (case reqs ! i of (r, a, action, k) \<Rightarrow> \<exists>w'. get E r a action k w = Some (v, w')))"
proof -
  obtain s where s: "n = Some s" "reads_ok E root w reqs s"
    using readers.outcome_ok [OF assms(6)] start_reads_ok [OF assms(2-5)] assms(1) by blast
  note p = reads_ok_parts [OF s(2)]
  have "case reqs ! i of (r, a, action, k) \<Rightarrow> \<exists>w'. get E r a action k w = Some (v, w')"
    if "i < length reqs" "rs_readers s ! i = Returned v" for i v
  proof -
    obtain r a action k where rq: "reqs ! i = (r, a, action, k)" by (cases "reqs ! i")
    have "r < length (heap w)" using assms(3) nth_mem [OF that(1)] rq by auto
    from get_ok [OF assms(1,2) this, of a action k] p(3) that rq show ?thesis by (auto simp: reader_ok_def due_def)
  qed
  with s(1) world_ok_parts(2,3) [OF p(1)] show ?thesis by (intro exI [of _ s]) simp
qed

theorem shared_reads_agree_witness:
  "\<exists>s w'. outcomes (read_step demo_env 0 demo_reads) (start_reads demo_reads demo_world) (Some s) \<and>
    rs_readers s ! 2 = Returned (Hash_Bytes 4) \<and> get demo_env 1 9 GET_STATE 4 demo_world = Some (Hash_Bytes 4, w')"
proof -
  obtain s where s: "outcomes (read_step demo_env 0 demo_reads) (start_reads demo_reads demo_world) (Some s)"
    "reads_ok demo_env 0 demo_world demo_reads s" "reads_rank s = 0"
    using live_readers.can_finish demo_reads_facts start_reads_ok by blast
  from all_returned [OF s(2,3)] have v: "rs_readers s ! 2 = Returned (Hash_Bytes 4)" by (simp add: demo_due)
  have rq: "2 < length demo_reads" "demo_reads ! 2 = (1, 9, GET_STATE, 4)" by (simp_all add: demo_reads_def)
  from shared_reads_agree [OF demo_reads_facts s(1)] v rq have "\<exists>w'. get demo_env 1 9 GET_STATE 4 demo_world = Some (Hash_Bytes 4, w')"
    by fastforce
  with s(1) v show ?thesis by blast
qed

text \<open>C17.
  No interleaving leaves a reader stuck: whatever the goroutines and the batcher have done so far,
  with channels full or not, they can go on until every reader has returned, and each returns the
  value its layer shows.
\<close>

theorem shared_reads_return:
  assumes "upstream_ok E" "wf_world E w" "\<forall>(r, _)\<in>set reqs. r < length (heap w)"
    and "root < length (heap w)" "parent (heap w ! root) = None"
    and "outcomes (read_step E root reqs) (start_reads reqs w) (Some s)"
  shows "\<exists>s'. outcomes (read_step E root reqs) s (Some s') \<and>
    rs_readers s' = map (\<lambda>(r, a, action, k). Returned (view E w r action a k)) reqs"
proof -
  have "reads_ok E root w reqs s"
    using readers.outcome_state [OF assms(6)] start_reads_ok [OF assms(2-5)] assms(1) by blast
  then obtain s' where s': "outcomes (read_step E root reqs) s (Some s')" "reads_ok E root w reqs s'" "reads_rank s' = 0"
    using live_readers.can_finish assms(1) by blast
  with all_returned [OF s'(2,3)] show ?thesis by blast
qed

theorem shared_reads_return_witness:
  "\<exists>s'. outcomes (read_step demo_env 0 demo_reads) (start_reads demo_reads demo_world) (Some s') \<and>
    rs_readers s' = [Returned (Hash_Bytes 4), Returned (uval demo_env 7 GET_BALANCE 3 0), Returned (Hash_Bytes 4)]"
  using shared_reads_return [OF demo_reads_facts outcomes.here] by (simp add: demo_due)

end
