(* ===== verification/Background.thy ===== *)
theory Background
  imports MferEVM
begin

text \<open>
  What runs beside the request handlers: the subscription to new heads with the goroutine that renews it
  (\<^verbatim>\<open>updatePendingBN\<close> of \<^verbatim>\<open>mferevm/evm.go\<close>, whose loop is in \<^verbatim>\<open>MferEVM\<close>), the display of request counts
  (\<^verbatim>\<open>statistics\<close> of \<^verbatim>\<open>mferstate/overlaystate.go\<close>, which nothing starts) and the line about memory (\<^verbatim>\<open>utils/mem.go\<close>).
\<close>

section \<open>New heads\<close>

text \<open>
  Whether the five second ticker runs, and whether new heads are delivered. \<open>subscribe\<close> is the upstream node's
  answer to \<^verbatim>\<open>SubscribeNewHead\<close> at a time: an error, or \<^const>\<open>None\<close>.
\<close>

record heads =
  hd_polling :: bool
  hd_subscribed :: bool

definition watch_heads :: "(nat \<Rightarrow> string option) \<Rightarrow> world \<Rightarrow> heads \<times> world" where
  "watch_heads subscribe w = (case ask subscribe w of
     (Some err, w1) \<Rightarrow> (\<lparr>hd_polling = True, hd_subscribed = False\<rparr>, w1)
   | (None, w1) \<Rightarrow> (\<lparr>hd_polling = False, hd_subscribed = True\<rparr>, w1))"

partial_function (option) resub_loop :: "(nat \<Rightarrow> string option) \<Rightarrow> world \<Rightarrow> world option" where
  "resub_loop subscribe w = (case ask subscribe w of
     (None, w1) \<Rightarrow> Some w1
   | (Some err, w1) \<Rightarrow> resub_loop subscribe w1)"

text \<open>The events that can wake the background loop.\<close>

fun wakes :: "heads \<Rightarrow> wakeup \<Rightarrow> bool" where
  "wakes h CheckMissingTrieNode \<longleftrightarrow> True"
| "wakes h Ticker5Sec \<longleftrightarrow> hd_polling h"
| "wakes h NewHead \<longleftrightarrow> hd_subscribed h"

text \<open>A subscription that ends is renewed by the goroutine that waits for its end; there is none while the ticker runs.\<close>

inductive heads_step :: "(nat \<Rightarrow> string option) \<Rightarrow> heads \<times> world \<Rightarrow> (heads \<times> world) option \<Rightarrow> bool" for subscribe where
  ended: "hd_subscribed h \<Longrightarrow> heads_step subscribe (h, w) (Some (h\<lparr>hd_subscribed := False\<rparr>, w))"
| renewed: "\<not> hd_subscribed h \<Longrightarrow> \<not> hd_polling h \<Longrightarrow>
    heads_step subscribe (h, w) (map_option (Pair (h\<lparr>hd_subscribed := True\<rparr>)) (resub_loop subscribe w))"

inductive_cases heads_stepE: "heads_step subscribe (h, w) n"

text \<open>The attempts to renew end with the first one that the upstream node accepts.\<close>

lemma resub_loop_returns:
  assumes "clock w \<le> t" "subscribe t = None" "\<forall>s. clock w \<le> s \<and> s < t \<longrightarrow> subscribe s \<noteq> None"
  shows "resub_loop subscribe w = Some (w\<lparr>clock := Suc t\<rparr>)"
  using assms
proof (induction "t - clock w" arbitrary: w)
  case 0
  then have "t = clock w" by simp
  with 0 show ?case by (subst resub_loop.simps) (simp add: ask_def)
next
  case (Suc n)
  then obtain err where err: "subscribe (clock w) = Some err" by (metis diff_is_0_eq nat.distinct(1) nat_le_linear order_le_imp_less_or_eq not_None_eq)
  have "resub_loop subscribe (w\<lparr>clock := Suc (clock w)\<rparr>) = Some ((w\<lparr>clock := Suc (clock w)\<rparr>)\<lparr>clock := Suc t\<rparr>)"
    by (rule Suc.hyps) (use Suc.hyps(2) Suc.prems in auto)
  with err show ?case by (subst resub_loop.simps) (simp add: ask_def)
qed

text \<open>
  The node polls exactly when its first subscription failed, and never does both; a node that polls never subscribes again.
  As long as the upstream node accepts a subscription at some later time, renewing it does not hang.
\<close>

definition heads_ok :: "bool \<Rightarrow> heads \<Rightarrow> bool" where
  "heads_ok polling h \<longleftrightarrow> hd_polling h = polling \<and> \<not> (hd_polling h \<and> hd_subscribed h)"

lemma watch_heads_ok:
  "watch_heads subscribe w = (h, w1) \<Longrightarrow> heads_ok (subscribe (clock w) \<noteq> None) h"
  by (auto simp: watch_heads_def heads_ok_def ask_def split: option.splits)

interpretation heads_machine: safe_machine "heads_step subscribe"
  "\<lambda>(h, w). heads_ok polling h \<and> (\<forall>t. \<exists>t'\<ge>t. subscribe t' = None)" for subscribe polling
proof
  fix s n
  assume s: "case s of (h, w) \<Rightarrow> heads_ok polling h \<and> (\<forall>t. \<exists>t'\<ge>t. subscribe t' = None)" and step: "heads_step subscribe s n"
  obtain h w where hw: "s = (h, w)" by fastforce
  from s have ok: "heads_ok polling h" and later: "\<forall>t. \<exists>t'\<ge>t. subscribe t' = None" by (simp_all add: hw)
  let ?t = "LEAST t. clock w \<le> t \<and> subscribe t = None"
  have "\<exists>t. clock w \<le> t \<and> subscribe t = None" using later by blast
  then have t: "clock w \<le> ?t" "subscribe ?t = None" by (metis (mono_tags, lifting) LeastI_ex)+
  have "\<forall>u. clock w \<le> u \<and> u < ?t \<longrightarrow> subscribe u \<noteq> None"
    using not_less_Least [of _ "\<lambda>t. clock w \<le> t \<and> subscribe t = None"] by auto
  note r = resub_loop_returns [OF t this]
  from step [unfolded hw] have "\<exists>h' w'. n = Some (h', w') \<and> heads_ok polling h'"
    by (rule heads_stepE) (use ok r in \<open>simp_all add: heads_ok_def\<close>)
  then obtain h' w' where n: "n = Some (h', w')" "heads_ok polling h'" by blast
  show "\<exists>s'. n = Some s' \<and> (case s' of (h, w) \<Rightarrow> heads_ok polling h \<and> (\<forall>t. \<exists>t'\<ge>t. subscribe t' = None))"
    by (rule exI [of _ "(h', w')"]) (use n later in \<open>simp only: prod.case simp_thms\<close>)
qed

text \<open>Hence whenever the loop is woken by the ticker the first subscription had failed, and by a head only when it had not.\<close>

lemma wakes_by_first_subscription:
  assumes "watch_heads subscribe w = (h, w1)" "\<forall>t. \<exists>t'\<ge>t. subscribe t' = None"
    and "outcomes (heads_step subscribe) (h, w1) n"
  shows "\<exists>h' w'. n = Some (h', w') \<and> (wakes h' Ticker5Sec \<longleftrightarrow> subscribe (clock w) \<noteq> None) \<and>
    (wakes h' NewHead \<longrightarrow> subscribe (clock w) = None)"
proof -
  from heads_machine.outcome_ok [OF assms(3), of "subscribe (clock w) \<noteq> None"] watch_heads_ok [OF assms(1)] assms(2)
  obtain h' w' where "n = Some (h', w')" "heads_ok (subscribe (clock w) \<noteq> None) h'" by fastforce
  then show ?thesis by (cases "subscribe (clock w)") (auto simp: heads_ok_def)
qed

section \<open>Request counts\<close>

text \<open>
  The display loop: a request to the upstream node, one from a client, or the ticker. \<open>up\<close> and \<open>cl\<close> give the frames of the two
  spinners (package \<^verbatim>\<open>go-spin\<close>), by the number of times they were turned.
\<close>

datatype stat_event = UpstreamReq | ClientReq | StatTick

record stats =
  upstreamReqCnt :: "64 word"
  clientReqCnt :: "64 word"
  upstreamSpins :: nat
  clientSpins :: nat
  upstreamSpinStr :: string
  clientSpinStr :: string

definition no_stats :: stats where
  "no_stats = \<lparr>upstreamReqCnt = 0, clientReqCnt = 0, upstreamSpins = 0, clientSpins = 0,
     upstreamSpinStr = ''-'', clientSpinStr = ''-''\<rparr>"

definition spin_upstream :: "(nat \<Rightarrow> string) \<Rightarrow> stats \<Rightarrow> stats" where
  "spin_upstream up s = s\<lparr>upstreamSpinStr := up (upstreamSpins s), upstreamSpins := Suc (upstreamSpins s)\<rparr>"

definition spin_client :: "(nat \<Rightarrow> string) \<Rightarrow> stats \<Rightarrow> stats" where
  "spin_client cl s = s\<lparr>clientSpinStr := cl (clientSpins s), clientSpins := Suc (clientSpins s)\<rparr>"

definition fmt_int :: "int \<Rightarrow> string" where
  "fmt_int n = (if n < 0 then ''-'' else []) @ fmt_d (nat \<bar>n\<bar>)"

definition stats_line :: "stats \<Rightarrow> string" where
  "stats_line s = [CHR 0x0A] @ ''Upstream '' @ upstreamSpinStr s @ ''  ['' @ fmt_int (sint (upstreamReqCnt s)) @ '']'' @ [CHR 0x09] @
     ''Downstream '' @ clientSpinStr s @ ''  ['' @ fmt_int (sint (clientReqCnt s)) @ '']''"

fun statistics_turn :: "(nat \<Rightarrow> string) \<Rightarrow> (nat \<Rightarrow> string) \<Rightarrow> stat_event \<Rightarrow> stats \<Rightarrow> stats" where
  "statistics_turn up cl UpstreamReq s = spin_upstream up (s\<lparr>upstreamReqCnt := upstreamReqCnt s + 1\<rparr>)"
| "statistics_turn up cl ClientReq s = spin_client cl (s\<lparr>clientReqCnt := clientReqCnt s + 1\<rparr>)"
| "statistics_turn up cl StatTick s = spin_client cl (spin_upstream up s)"

text \<open>What the loop prints for a sequence of events: it clears the line, prints the counts and goes back up.\<close>

fun statistics :: "(nat \<Rightarrow> string) \<Rightarrow> (nat \<Rightarrow> string) \<Rightarrow> stat_event list \<Rightarrow> stats \<Rightarrow> string \<times> stats" where
  "statistics up cl [] s = ([], s)"
| "statistics up cl (ev # evs) s =
     (let s1 = statistics_turn up cl ev s; (out, s2) = statistics up cl evs s1
      in ([CHR 0x1B] @ ''[G'' @ [CHR 0x1B] @ ''[K'' @ stats_line s1 @ [CHR 0x1B] @ ''[A'' @ out, s2))"

text \<open>The counts are the numbers of events, up to the width of \<^verbatim>\<open>int\<close>.\<close>

lemma statistics_counts:
  "statistics up cl evs s = (out, s') \<Longrightarrow>
   upstreamReqCnt s' = upstreamReqCnt s + of_nat (count_list evs UpstreamReq) \<and>
   clientReqCnt s' = clientReqCnt s + of_nat (count_list evs ClientReq)"
proof (induction evs arbitrary: s out)
  case (Cons ev evs)
  obtain out1 where "statistics up cl evs (statistics_turn up cl ev s) = (out1, s')"
    using Cons.prems by (auto simp: Let_def split: prod.splits)
  from Cons.IH [OF this] show ?case by (cases ev) (simp_all add: spin_upstream_def spin_client_def)
qed simp

section \<open>Memory\<close>

record MemStats =
  ms_Alloc :: u64
  ms_TotalAlloc :: u64
  ms_Sys :: u64
  ms_NumGC :: "32 word"

definition bToMb :: "u64 \<Rightarrow> u64" where
  "bToMb b = b div 1024 div 1024"

text \<open>The line for the log, for what the runtime reports.\<close>

definition PrintMemUsage :: "string \<Rightarrow> MemStats \<Rightarrow> string" where
  "PrintMemUsage note m = note @ '' Alloc = '' @ fmt_d (unat (bToMb (ms_Alloc m))) @ '' MiB'' @ [CHR 0x09] @
     ''TotalAlloc = '' @ fmt_d (unat (bToMb (ms_TotalAlloc m))) @ '' MiB'' @ [CHR 0x09] @
     ''Sys = '' @ fmt_d (unat (bToMb (ms_Sys m))) @ '' MiB'' @ [CHR 0x09] @ ''NumGC = '' @ fmt_d (unat (ms_NumGC m))"

lemma bToMb_whole: "unat (bToMb b) = unat b div 2 ^ 20"
  by (simp add: bToMb_def unat_div div_mult2_eq [symmetric])

end
