(* ===== verification/GnosisSafeEvents.thy ===== *)
theory GnosisSafeEvents
  imports GnosisSafe
begin

text \<open>
  \<^verbatim>\<open>multisend/gen_gnosissafe.go\<close>, second part: the events of the Gnosis Safe. Each has its struct, an iterator, and the
  operations that query, watch and parse its logs.
\<close>

section \<open>Events\<close>

subsection \<open>AddedOwner\<close>

record GnosisSafeAddedOwner =
  AddedOwner_Owner :: address
  AddedOwner_Raw :: Log

definition unpack_AddedOwner :: "bind_env \<Rightarrow> BoundContract \<Rightarrow> string \<Rightarrow> Log \<Rightarrow> string + GnosisSafeAddedOwner" where
  "unpack_AddedOwner B c event log = unpack_log B c event (\<lambda>vs. case vs of
       [v0] \<Rightarrow> do { x0 \<leftarrow> to_address v0;
         Some \<lparr>AddedOwner_Owner = x0, AddedOwner_Raw = log\<rparr> }
     | _ \<Rightarrow> None) log"

type_synonym GnosisSafeAddedOwnerIterator = "GnosisSafeAddedOwner iterator"

definition GnosisSafeAddedOwnerIterator_Next :: "bind_env \<Rightarrow> bool \<Rightarrow> GnosisSafeAddedOwnerIterator \<Rightarrow> bool \<times> GnosisSafeAddedOwnerIterator" where
  "GnosisSafeAddedOwnerIterator_Next B err_first it = iterator_Next (unpack_AddedOwner B (it_contract it) (it_event it)) err_first it"

definition GnosisSafeAddedOwnerIterator_Error :: "GnosisSafeAddedOwnerIterator \<Rightarrow> string option" where
  "GnosisSafeAddedOwnerIterator_Error it = iterator_Error it"

definition GnosisSafeAddedOwnerIterator_Close :: "bind_env \<Rightarrow> GnosisSafeAddedOwnerIterator \<Rightarrow> GnosisSafeAddedOwnerIterator" where
  "GnosisSafeAddedOwnerIterator_Close B it = iterator_Close B it"

definition FilterAddedOwner ::
  "bind_env \<Rightarrow> BoundContract \<Rightarrow> FilterOpts option \<Rightarrow> world \<Rightarrow> (string + GnosisSafeAddedOwnerIterator) \<times> world" where
  "FilterAddedOwner B c opts = filter_logs B c opts ''AddedOwner'' []"

definition WatchAddedOwner ::
  "bind_env \<Rightarrow> BoundContract \<Rightarrow> u64 option \<Rightarrow> (recv \<times> send) list \<Rightarrow> world \<Rightarrow>
   (string + GnosisSafeAddedOwner list \<times> string option option) \<times> world" where
  "WatchAddedOwner B c opts = watch_logs B c opts ''AddedOwner'' [] (unpack_AddedOwner B c ''AddedOwner'')"

definition ParseAddedOwner :: "bind_env \<Rightarrow> BoundContract \<Rightarrow> Log \<Rightarrow> string + GnosisSafeAddedOwner" where
  "ParseAddedOwner B c log = unpack_AddedOwner B c ''AddedOwner'' log"

subsection \<open>ApproveHash\<close>

record GnosisSafeApproveHash =
  ApproveHash_ApprovedHash :: hash
  ApproveHash_Owner :: address
  ApproveHash_Raw :: Log

definition unpack_ApproveHash :: "bind_env \<Rightarrow> BoundContract \<Rightarrow> string \<Rightarrow> Log \<Rightarrow> string + GnosisSafeApproveHash" where
  "unpack_ApproveHash B c event log = unpack_log B c event (\<lambda>vs. case vs of
       [v0, v1] \<Rightarrow> do { x0 \<leftarrow> to_bytes32 v0; x1 \<leftarrow> to_address v1;
         Some \<lparr>ApproveHash_ApprovedHash = x0, ApproveHash_Owner = x1, ApproveHash_Raw = log\<rparr> }
     | _ \<Rightarrow> None) log"

type_synonym GnosisSafeApproveHashIterator = "GnosisSafeApproveHash iterator"

definition GnosisSafeApproveHashIterator_Next :: "bind_env \<Rightarrow> bool \<Rightarrow> GnosisSafeApproveHashIterator \<Rightarrow> bool \<times> GnosisSafeApproveHashIterator" where
  "GnosisSafeApproveHashIterator_Next B err_first it = iterator_Next (unpack_ApproveHash B (it_contract it) (it_event it)) err_first it"

definition GnosisSafeApproveHashIterator_Error :: "GnosisSafeApproveHashIterator \<Rightarrow> string option" where
  "GnosisSafeApproveHashIterator_Error it = iterator_Error it"

definition GnosisSafeApproveHashIterator_Close :: "bind_env \<Rightarrow> GnosisSafeApproveHashIterator \<Rightarrow> GnosisSafeApproveHashIterator" where
  "GnosisSafeApproveHashIterator_Close B it = iterator_Close B it"

definition FilterApproveHash ::
  "bind_env \<Rightarrow> BoundContract \<Rightarrow> FilterOpts option \<Rightarrow> hash list \<Rightarrow> address list \<Rightarrow> world \<Rightarrow> (string + GnosisSafeApproveHashIterator) \<times> world" where
  "FilterApproveHash B c opts approvedHash owner = filter_logs B c opts ''ApproveHash'' [map ABytes32 approvedHash, map AAddress owner]"

definition WatchApproveHash ::
  "bind_env \<Rightarrow> BoundContract \<Rightarrow> u64 option \<Rightarrow> hash list \<Rightarrow> address list \<Rightarrow> (recv \<times> send) list \<Rightarrow> world \<Rightarrow>
   (string + GnosisSafeApproveHash list \<times> string option option) \<times> world" where
  "WatchApproveHash B c opts approvedHash owner = watch_logs B c opts ''ApproveHash'' [map ABytes32 approvedHash, map AAddress owner] (unpack_ApproveHash B c ''ApproveHash'')"

definition ParseApproveHash :: "bind_env \<Rightarrow> BoundContract \<Rightarrow> Log \<Rightarrow> string + GnosisSafeApproveHash" where
  "ParseApproveHash B c log = unpack_ApproveHash B c ''ApproveHash'' log"

subsection \<open>ChangedFallbackHandler\<close>

record GnosisSafeChangedFallbackHandler =
  ChangedFallbackHandler_Handler :: address
  ChangedFallbackHandler_Raw :: Log

definition unpack_ChangedFallbackHandler :: "bind_env \<Rightarrow> BoundContract \<Rightarrow> string \<Rightarrow> Log \<Rightarrow> string + GnosisSafeChangedFallbackHandler" where
  "unpack_ChangedFallbackHandler B c event log = unpack_log B c event (\<lambda>vs. case vs of
       [v0] \<Rightarrow> do { x0 \<leftarrow> to_address v0;
         Some \<lparr>ChangedFallbackHandler_Handler = x0, ChangedFallbackHandler_Raw = log\<rparr> }
     | _ \<Rightarrow> None) log"

type_synonym GnosisSafeChangedFallbackHandlerIterator = "GnosisSafeChangedFallbackHandler iterator"

definition GnosisSafeChangedFallbackHandlerIterator_Next :: "bind_env \<Rightarrow> bool \<Rightarrow> GnosisSafeChangedFallbackHandlerIterator \<Rightarrow> bool \<times> GnosisSafeChangedFallbackHandlerIterator" where
  "GnosisSafeChangedFallbackHandlerIterator_Next B err_first it = iterator_Next (unpack_ChangedFallbackHandler B (it_contract it) (it_event it)) err_first it"

definition GnosisSafeChangedFallbackHandlerIterator_Error :: "GnosisSafeChangedFallbackHandlerIterator \<Rightarrow> string option" where
  "GnosisSafeChangedFallbackHandlerIterator_Error it = iterator_Error it"

definition GnosisSafeChangedFallbackHandlerIterator_Close :: "bind_env \<Rightarrow> GnosisSafeChangedFallbackHandlerIterator \<Rightarrow> GnosisSafeChangedFallbackHandlerIterator" where
  "GnosisSafeChangedFallbackHandlerIterator_Close B it = iterator_Close B it"

definition FilterChangedFallbackHandler ::
  "bind_env \<Rightarrow> BoundContract \<Rightarrow> FilterOpts option \<Rightarrow> world \<Rightarrow> (string + GnosisSafeChangedFallbackHandlerIterator) \<times> world" where
  "FilterChangedFallbackHandler B c opts = filter_logs B c opts ''ChangedFallbackHandler'' []"

definition WatchChangedFallbackHandler ::
  "bind_env \<Rightarrow> BoundContract \<Rightarrow> u64 option \<Rightarrow> (recv \<times> send) list \<Rightarrow> world \<Rightarrow>
   (string + GnosisSafeChangedFallbackHandler list \<times> string option option) \<times> world" where
  "WatchChangedFallbackHandler B c opts = watch_logs B c opts ''ChangedFallbackHandler'' [] (unpack_ChangedFallbackHandler B c ''ChangedFallbackHandler'')"

definition ParseChangedFallbackHandler :: "bind_env \<Rightarrow> BoundContract \<Rightarrow> Log \<Rightarrow> string + GnosisSafeChangedFallbackHandler" where
  "ParseChangedFallbackHandler B c log = unpack_ChangedFallbackHandler B c ''ChangedFallbackHandler'' log"

subsection \<open>ChangedGuard\<close>

record GnosisSafeChangedGuard =
  ChangedGuard_Guard :: address
  ChangedGuard_Raw :: Log

definition unpack_ChangedGuard :: "bind_env \<Rightarrow> BoundContract \<Rightarrow> string \<Rightarrow> Log \<Rightarrow> string + GnosisSafeChangedGuard" where
  "unpack_ChangedGuard B c event log = unpack_log B c event (\<lambda>vs. case vs of
       [v0] \<Rightarrow> do { x0 \<leftarrow> to_address v0;
         Some \<lparr>ChangedGuard_Guard = x0, ChangedGuard_Raw = log\<rparr> }
     | _ \<Rightarrow> None) log"

type_synonym GnosisSafeChangedGuardIterator = "GnosisSafeChangedGuard iterator"

definition GnosisSafeChangedGuardIterator_Next :: "bind_env \<Rightarrow> bool \<Rightarrow> GnosisSafeChangedGuardIterator \<Rightarrow> bool \<times> GnosisSafeChangedGuardIterator" where
  "GnosisSafeChangedGuardIterator_Next B err_first it = iterator_Next (unpack_ChangedGuard B (it_contract it) (it_event it)) err_first it"

definition GnosisSafeChangedGuardIterator_Error :: "GnosisSafeChangedGuardIterator \<Rightarrow> string option" where
  "GnosisSafeChangedGuardIterator_Error it = iterator_Error it"

definition GnosisSafeChangedGuardIterator_Close :: "bind_env \<Rightarrow> GnosisSafeChangedGuardIterator \<Rightarrow> GnosisSafeChangedGuardIterator" where
  "GnosisSafeChangedGuardIterator_Close B it = iterator_Close B it"

definition FilterChangedGuard ::
  "bind_env \<Rightarrow> BoundContract \<Rightarrow> FilterOpts option \<Rightarrow> world \<Rightarrow> (string + GnosisSafeChangedGuardIterator) \<times> world" where
  "FilterChangedGuard B c opts = filter_logs B c opts ''ChangedGuard'' []"

definition WatchChangedGuard ::
  "bind_env \<Rightarrow> BoundContract \<Rightarrow> u64 option \<Rightarrow> (recv \<times> send) list \<Rightarrow> world \<Rightarrow>
   (string + GnosisSafeChangedGuard list \<times> string option option) \<times> world" where
  "WatchChangedGuard B c opts = watch_logs B c opts ''ChangedGuard'' [] (unpack_ChangedGuard B c ''ChangedGuard'')"

definition ParseChangedGuard :: "bind_env \<Rightarrow> BoundContract \<Rightarrow> Log \<Rightarrow> string + GnosisSafeChangedGuard" where
  "ParseChangedGuard B c log = unpack_ChangedGuard B c ''ChangedGuard'' log"

subsection \<open>ChangedThreshold\<close>

record GnosisSafeChangedThreshold =
  ChangedThreshold_Threshold :: int
  ChangedThreshold_Raw :: Log

definition unpack_ChangedThreshold :: "bind_env \<Rightarrow> BoundContract \<Rightarrow> string \<Rightarrow> Log \<Rightarrow> string + GnosisSafeChangedThreshold" where
  "unpack_ChangedThreshold B c event log = unpack_log B c event (\<lambda>vs. case vs of
       [v0] \<Rightarrow> do { x0 \<leftarrow> to_big v0;
         Some \<lparr>ChangedThreshold_Threshold = x0, ChangedThreshold_Raw = log\<rparr> }
     | _ \<Rightarrow> None) log"

type_synonym GnosisSafeChangedThresholdIterator = "GnosisSafeChangedThreshold iterator"

definition GnosisSafeChangedThresholdIterator_Next :: "bind_env \<Rightarrow> bool \<Rightarrow> GnosisSafeChangedThresholdIterator \<Rightarrow> bool \<times> GnosisSafeChangedThresholdIterator" where
  "GnosisSafeChangedThresholdIterator_Next B err_first it = iterator_Next (unpack_ChangedThreshold B (it_contract it) (it_event it)) err_first it"

definition GnosisSafeChangedThresholdIterator_Error :: "GnosisSafeChangedThresholdIterator \<Rightarrow> string option" where
  "GnosisSafeChangedThresholdIterator_Error it = iterator_Error it"

definition GnosisSafeChangedThresholdIterator_Close :: "bind_env \<Rightarrow> GnosisSafeChangedThresholdIterator \<Rightarrow> GnosisSafeChangedThresholdIterator" where
  "GnosisSafeChangedThresholdIterator_Close B it = iterator_Close B it"

definition FilterChangedThreshold ::
  "bind_env \<Rightarrow> BoundContract \<Rightarrow> FilterOpts option \<Rightarrow> world \<Rightarrow> (string + GnosisSafeChangedThresholdIterator) \<times> world" where
  "FilterChangedThreshold B c opts = filter_logs B c opts ''ChangedThreshold'' []"

definition WatchChangedThreshold ::
  "bind_env \<Rightarrow> BoundContract \<Rightarrow> u64 option \<Rightarrow> (recv \<times> send) list \<Rightarrow> world \<Rightarrow>
   (string + GnosisSafeChangedThreshold list \<times> string option option) \<times> world" where
  "WatchChangedThreshold B c opts = watch_logs B c opts ''ChangedThreshold'' [] (unpack_ChangedThreshold B c ''ChangedThreshold'')"

definition ParseChangedThreshold :: "bind_env \<Rightarrow> BoundContract \<Rightarrow> Log \<Rightarrow> string + GnosisSafeChangedThreshold" where
  "ParseChangedThreshold B c log = unpack_ChangedThreshold B c ''ChangedThreshold'' log"

subsection \<open>DisabledModule\<close>

record GnosisSafeDisabledModule =
  DisabledModule_Module :: address
  DisabledModule_Raw :: Log

definition unpack_DisabledModule :: "bind_env \<Rightarrow> BoundContract \<Rightarrow> string \<Rightarrow> Log \<Rightarrow> string + GnosisSafeDisabledModule" where
  "unpack_DisabledModule B c event log = unpack_log B c event (\<lambda>vs. case vs of
       [v0] \<Rightarrow> do { x0 \<leftarrow> to_address v0;
         Some \<lparr>DisabledModule_Module = x0, DisabledModule_Raw = log\<rparr> }
     | _ \<Rightarrow> None) log"

type_synonym GnosisSafeDisabledModuleIterator = "GnosisSafeDisabledModule iterator"

definition GnosisSafeDisabledModuleIterator_Next :: "bind_env \<Rightarrow> bool \<Rightarrow> GnosisSafeDisabledModuleIterator \<Rightarrow> bool \<times> GnosisSafeDisabledModuleIterator" where
  "GnosisSafeDisabledModuleIterator_Next B err_first it = iterator_Next (unpack_DisabledModule B (it_contract it) (it_event it)) err_first it"

definition GnosisSafeDisabledModuleIterator_Error :: "GnosisSafeDisabledModuleIterator \<Rightarrow> string option" where
  "GnosisSafeDisabledModuleIterator_Error it = iterator_Error it"

definition GnosisSafeDisabledModuleIterator_Close :: "bind_env \<Rightarrow> GnosisSafeDisabledModuleIterator \<Rightarrow> GnosisSafeDisabledModuleIterator" where
  "GnosisSafeDisabledModuleIterator_Close B it = iterator_Close B it"

definition FilterDisabledModule ::
  "bind_env \<Rightarrow> BoundContract \<Rightarrow> FilterOpts option \<Rightarrow> world \<Rightarrow> (string + GnosisSafeDisabledModuleIterator) \<times> world" where
  "FilterDisabledModule B c opts = filter_logs B c opts ''DisabledModule'' []"

definition WatchDisabledModule ::
  "bind_env \<Rightarrow> BoundContract \<Rightarrow> u64 option \<Rightarrow> (recv \<times> send) list \<Rightarrow> world \<Rightarrow>
   (string + GnosisSafeDisabledModule list \<times> string option option) \<times> world" where
  "WatchDisabledModule B c opts = watch_logs B c opts ''DisabledModule'' [] (unpack_DisabledModule B c ''DisabledModule'')"

definition ParseDisabledModule :: "bind_env \<Rightarrow> BoundContract \<Rightarrow> Log \<Rightarrow> string + GnosisSafeDisabledModule" where
  "ParseDisabledModule B c log = unpack_DisabledModule B c ''DisabledModule'' log"

subsection \<open>EnabledModule\<close>

record GnosisSafeEnabledModule =
  EnabledModule_Module :: address
  EnabledModule_Raw :: Log

definition unpack_EnabledModule :: "bind_env \<Rightarrow> BoundContract \<Rightarrow> string \<Rightarrow> Log \<Rightarrow> string + GnosisSafeEnabledModule" where
  "unpack_EnabledModule B c event log = unpack_log B c event (\<lambda>vs. case vs of
       [v0] \<Rightarrow> do { x0 \<leftarrow> to_address v0;
         Some \<lparr>EnabledModule_Module = x0, EnabledModule_Raw = log\<rparr> }
     | _ \<Rightarrow> None) log"

type_synonym GnosisSafeEnabledModuleIterator = "GnosisSafeEnabledModule iterator"

definition GnosisSafeEnabledModuleIterator_Next :: "bind_env \<Rightarrow> bool \<Rightarrow> GnosisSafeEnabledModuleIterator \<Rightarrow> bool \<times> GnosisSafeEnabledModuleIterator" where
  "GnosisSafeEnabledModuleIterator_Next B err_first it = iterator_Next (unpack_EnabledModule B (it_contract it) (it_event it)) err_first it"

definition GnosisSafeEnabledModuleIterator_Error :: "GnosisSafeEnabledModuleIterator \<Rightarrow> string option" where
  "GnosisSafeEnabledModuleIterator_Error it = iterator_Error it"

definition GnosisSafeEnabledModuleIterator_Close :: "bind_env \<Rightarrow> GnosisSafeEnabledModuleIterator \<Rightarrow> GnosisSafeEnabledModuleIterator" where
  "GnosisSafeEnabledModuleIterator_Close B it = iterator_Close B it"

definition FilterEnabledModule ::
  "bind_env \<Rightarrow> BoundContract \<Rightarrow> FilterOpts option \<Rightarrow> world \<Rightarrow> (string + GnosisSafeEnabledModuleIterator) \<times> world" where
  "FilterEnabledModule B c opts = filter_logs B c opts ''EnabledModule'' []"

definition WatchEnabledModule ::
  "bind_env \<Rightarrow> BoundContract \<Rightarrow> u64 option \<Rightarrow> (recv \<times> send) list \<Rightarrow> world \<Rightarrow>
   (string + GnosisSafeEnabledModule list \<times> string option option) \<times> world" where
  "WatchEnabledModule B c opts = watch_logs B c opts ''EnabledModule'' [] (unpack_EnabledModule B c ''EnabledModule'')"

definition ParseEnabledModule :: "bind_env \<Rightarrow> BoundContract \<Rightarrow> Log \<Rightarrow> string + GnosisSafeEnabledModule" where
  "ParseEnabledModule B c log = unpack_EnabledModule B c ''EnabledModule'' log"

subsection \<open>ExecutionFailure\<close>

record GnosisSafeExecutionFailure =
  ExecutionFailure_TxHash :: hash
  ExecutionFailure_Payment :: int
  ExecutionFailure_Raw :: Log

definition unpack_ExecutionFailure :: "bind_env \<Rightarrow> BoundContract \<Rightarrow> string \<Rightarrow> Log \<Rightarrow> string + GnosisSafeExecutionFailure" where
  "unpack_ExecutionFailure B c event log = unpack_log B c event (\<lambda>vs. case vs of
       [v0, v1] \<Rightarrow> do { x0 \<leftarrow> to_bytes32 v0; x1 \<leftarrow> to_big v1;
         Some \<lparr>ExecutionFailure_TxHash = x0, ExecutionFailure_Payment = x1, ExecutionFailure_Raw = log\<rparr> }
     | _ \<Rightarrow> None) log"

type_synonym GnosisSafeExecutionFailureIterator = "GnosisSafeExecutionFailure iterator"

definition GnosisSafeExecutionFailureIterator_Next :: "bind_env \<Rightarrow> bool \<Rightarrow> GnosisSafeExecutionFailureIterator \<Rightarrow> bool \<times> GnosisSafeExecutionFailureIterator" where
  "GnosisSafeExecutionFailureIterator_Next B err_first it = iterator_Next (unpack_ExecutionFailure B (it_contract it) (it_event it)) err_first it"

definition GnosisSafeExecutionFailureIterator_Error :: "GnosisSafeExecutionFailureIterator \<Rightarrow> string option" where
  "GnosisSafeExecutionFailureIterator_Error it = iterator_Error it"

definition GnosisSafeExecutionFailureIterator_Close :: "bind_env \<Rightarrow> GnosisSafeExecutionFailureIterator \<Rightarrow> GnosisSafeExecutionFailureIterator" where
  "GnosisSafeExecutionFailureIterator_Close B it = iterator_Close B it"

definition FilterExecutionFailure ::
  "bind_env \<Rightarrow> BoundContract \<Rightarrow> FilterOpts option \<Rightarrow> world \<Rightarrow> (string + GnosisSafeExecutionFailureIterator) \<times> world" where
  "FilterExecutionFailure B c opts = filter_logs B c opts ''ExecutionFailure'' []"

definition WatchExecutionFailure ::
  "bind_env \<Rightarrow> BoundContract \<Rightarrow> u64 option \<Rightarrow> (recv \<times> send) list \<Rightarrow> world \<Rightarrow>
   (string + GnosisSafeExecutionFailure list \<times> string option option) \<times> world" where
  "WatchExecutionFailure B c opts = watch_logs B c opts ''ExecutionFailure'' [] (unpack_ExecutionFailure B c ''ExecutionFailure'')"

definition ParseExecutionFailure :: "bind_env \<Rightarrow> BoundContract \<Rightarrow> Log \<Rightarrow> string + GnosisSafeExecutionFailure" where
  "ParseExecutionFailure B c log = unpack_ExecutionFailure B c ''ExecutionFailure'' log"

subsection \<open>ExecutionFromModuleFailure\<close>

record GnosisSafeExecutionFromModuleFailure =
  ExecutionFromModuleFailure_Module :: address
  ExecutionFromModuleFailure_Raw :: Log

definition unpack_ExecutionFromModuleFailure :: "bind_env \<Rightarrow> BoundContract \<Rightarrow> string \<Rightarrow> Log \<Rightarrow> string + GnosisSafeExecutionFromModuleFailure" where
  "unpack_ExecutionFromModuleFailure B c event log = unpack_log B c event (\<lambda>vs. case vs of
       [v0] \<Rightarrow> do { x0 \<leftarrow> to_address v0;
         Some \<lparr>ExecutionFromModuleFailure_Module = x0, ExecutionFromModuleFailure_Raw = log\<rparr> }
     | _ \<Rightarrow> None) log"

type_synonym GnosisSafeExecutionFromModuleFailureIterator = "GnosisSafeExecutionFromModuleFailure iterator"

definition GnosisSafeExecutionFromModuleFailureIterator_Next :: "bind_env \<Rightarrow> bool \<Rightarrow> GnosisSafeExecutionFromModuleFailureIterator \<Rightarrow> bool \<times> GnosisSafeExecutionFromModuleFailureIterator" where
  "GnosisSafeExecutionFromModuleFailureIterator_Next B err_first it = iterator_Next (unpack_ExecutionFromModuleFailure B (it_contract it) (it_event it)) err_first it"

definition GnosisSafeExecutionFromModuleFailureIterator_Error :: "GnosisSafeExecutionFromModuleFailureIterator \<Rightarrow> string option" where
  "GnosisSafeExecutionFromModuleFailureIterator_Error it = iterator_Error it"

definition GnosisSafeExecutionFromModuleFailureIterator_Close :: "bind_env \<Rightarrow> GnosisSafeExecutionFromModuleFailureIterator \<Rightarrow> GnosisSafeExecutionFromModuleFailureIterator" where
  "GnosisSafeExecutionFromModuleFailureIterator_Close B it = iterator_Close B it"

definition FilterExecutionFromModuleFailure ::
  "bind_env \<Rightarrow> BoundContract \<Rightarrow> FilterOpts option \<Rightarrow> address list \<Rightarrow> world \<Rightarrow> (string + GnosisSafeExecutionFromModuleFailureIterator) \<times> world" where
  "FilterExecutionFromModuleFailure B c opts module = filter_logs B c opts ''ExecutionFromModuleFailure'' [map AAddress module]"

definition WatchExecutionFromModuleFailure ::
  "bind_env \<Rightarrow> BoundContract \<Rightarrow> u64 option \<Rightarrow> address list \<Rightarrow> (recv \<times> send) list \<Rightarrow> world \<Rightarrow>
   (string + GnosisSafeExecutionFromModuleFailure list \<times> string option option) \<times> world" where
  "WatchExecutionFromModuleFailure B c opts module = watch_logs B c opts ''ExecutionFromModuleFailure'' [map AAddress module] (unpack_ExecutionFromModuleFailure B c ''ExecutionFromModuleFailure'')"

definition ParseExecutionFromModuleFailure :: "bind_env \<Rightarrow> BoundContract \<Rightarrow> Log \<Rightarrow> string + GnosisSafeExecutionFromModuleFailure" where
  "ParseExecutionFromModuleFailure B c log = unpack_ExecutionFromModuleFailure B c ''ExecutionFromModuleFailure'' log"

subsection \<open>ExecutionFromModuleSuccess\<close>

record GnosisSafeExecutionFromModuleSuccess =
  ExecutionFromModuleSuccess_Module :: address
  ExecutionFromModuleSuccess_Raw :: Log

definition unpack_ExecutionFromModuleSuccess :: "bind_env \<Rightarrow> BoundContract \<Rightarrow> string \<Rightarrow> Log \<Rightarrow> string + GnosisSafeExecutionFromModuleSuccess" where
  "unpack_ExecutionFromModuleSuccess B c event log = unpack_log B c event (\<lambda>vs. case vs of
       [v0] \<Rightarrow> do { x0 \<leftarrow> to_address v0;
         Some \<lparr>ExecutionFromModuleSuccess_Module = x0, ExecutionFromModuleSuccess_Raw = log\<rparr> }
     | _ \<Rightarrow> None) log"

type_synonym GnosisSafeExecutionFromModuleSuccessIterator = "GnosisSafeExecutionFromModuleSuccess iterator"

definition GnosisSafeExecutionFromModuleSuccessIterator_Next :: "bind_env \<Rightarrow> bool \<Rightarrow> GnosisSafeExecutionFromModuleSuccessIterator \<Rightarrow> bool \<times> GnosisSafeExecutionFromModuleSuccessIterator" where
  "GnosisSafeExecutionFromModuleSuccessIterator_Next B err_first it = iterator_Next (unpack_ExecutionFromModuleSuccess B (it_contract it) (it_event it)) err_first it"

definition GnosisSafeExecutionFromModuleSuccessIterator_Error :: "GnosisSafeExecutionFromModuleSuccessIterator \<Rightarrow> string option" where
  "GnosisSafeExecutionFromModuleSuccessIterator_Error it = iterator_Error it"

definition GnosisSafeExecutionFromModuleSuccessIterator_Close :: "bind_env \<Rightarrow> GnosisSafeExecutionFromModuleSuccessIterator \<Rightarrow> GnosisSafeExecutionFromModuleSuccessIterator" where
  "GnosisSafeExecutionFromModuleSuccessIterator_Close B it = iterator_Close B it"

definition FilterExecutionFromModuleSuccess ::
  "bind_env \<Rightarrow> BoundContract \<Rightarrow> FilterOpts option \<Rightarrow> address list \<Rightarrow> world \<Rightarrow> (string + GnosisSafeExecutionFromModuleSuccessIterator) \<times> world" where
  "FilterExecutionFromModuleSuccess B c opts module = filter_logs B c opts ''ExecutionFromModuleSuccess'' [map AAddress module]"

definition WatchExecutionFromModuleSuccess ::
  "bind_env \<Rightarrow> BoundContract \<Rightarrow> u64 option \<Rightarrow> address list \<Rightarrow> (recv \<times> send) list \<Rightarrow> world \<Rightarrow>
   (string + GnosisSafeExecutionFromModuleSuccess list \<times> string option option) \<times> world" where
  "WatchExecutionFromModuleSuccess B c opts module = watch_logs B c opts ''ExecutionFromModuleSuccess'' [map AAddress module] (unpack_ExecutionFromModuleSuccess B c ''ExecutionFromModuleSuccess'')"

definition ParseExecutionFromModuleSuccess :: "bind_env \<Rightarrow> BoundContract \<Rightarrow> Log \<Rightarrow> string + GnosisSafeExecutionFromModuleSuccess" where
  "ParseExecutionFromModuleSuccess B c log = unpack_ExecutionFromModuleSuccess B c ''ExecutionFromModuleSuccess'' log"

subsection \<open>ExecutionSuccess\<close>

record GnosisSafeExecutionSuccess =
  ExecutionSuccess_TxHash :: hash
  ExecutionSuccess_Payment :: int
  ExecutionSuccess_Raw :: Log

definition unpack_ExecutionSuccess :: "bind_env \<Rightarrow> BoundContract \<Rightarrow> string \<Rightarrow> Log \<Rightarrow> string + GnosisSafeExecutionSuccess" where
  "unpack_ExecutionSuccess B c event log = unpack_log B c event (\<lambda>vs. case vs of
       [v0, v1] \<Rightarrow> do { x0 \<leftarrow> to_bytes32 v0; x1 \<leftarrow> to_big v1;
         Some \<lparr>ExecutionSuccess_TxHash = x0, ExecutionSuccess_Payment = x1, ExecutionSuccess_Raw = log\<rparr> }
     | _ \<Rightarrow> None) log"

type_synonym GnosisSafeExecutionSuccessIterator = "GnosisSafeExecutionSuccess iterator"

definition GnosisSafeExecutionSuccessIterator_Next :: "bind_env \<Rightarrow> bool \<Rightarrow> GnosisSafeExecutionSuccessIterator \<Rightarrow> bool \<times> GnosisSafeExecutionSuccessIterator" where
  "GnosisSafeExecutionSuccessIterator_Next B err_first it = iterator_Next (unpack_ExecutionSuccess B (it_contract it) (it_event it)) err_first it"

definition GnosisSafeExecutionSuccessIterator_Error :: "GnosisSafeExecutionSuccessIterator \<Rightarrow> string option" where
  "GnosisSafeExecutionSuccessIterator_Error it = iterator_Error it"

definition GnosisSafeExecutionSuccessIterator_Close :: "bind_env \<Rightarrow> GnosisSafeExecutionSuccessIterator \<Rightarrow> GnosisSafeExecutionSuccessIterator" where
  "GnosisSafeExecutionSuccessIterator_Close B it = iterator_Close B it"

definition FilterExecutionSuccess ::
  "bind_env \<Rightarrow> BoundContract \<Rightarrow> FilterOpts option \<Rightarrow> world \<Rightarrow> (string + GnosisSafeExecutionSuccessIterator) \<times> world" where
  "FilterExecutionSuccess B c opts = filter_logs B c opts ''ExecutionSuccess'' []"

definition WatchExecutionSuccess ::
  "bind_env \<Rightarrow> BoundContract \<Rightarrow> u64 option \<Rightarrow> (recv \<times> send) list \<Rightarrow> world \<Rightarrow>
   (string + GnosisSafeExecutionSuccess list \<times> string option option) \<times> world" where
  "WatchExecutionSuccess B c opts = watch_logs B c opts ''ExecutionSuccess'' [] (unpack_ExecutionSuccess B c ''ExecutionSuccess'')"

definition ParseExecutionSuccess :: "bind_env \<Rightarrow> BoundContract \<Rightarrow> Log \<Rightarrow> string + GnosisSafeExecutionSuccess" where
  "ParseExecutionSuccess B c log = unpack_ExecutionSuccess B c ''ExecutionSuccess'' log"

subsection \<open>RemovedOwner\<close>

record GnosisSafeRemovedOwner =
  RemovedOwner_Owner :: address
  RemovedOwner_Raw :: Log

definition unpack_RemovedOwner :: "bind_env \<Rightarrow> BoundContract \<Rightarrow> string \<Rightarrow> Log \<Rightarrow> string + GnosisSafeRemovedOwner" where
  "unpack_RemovedOwner B c event log = unpack_log B c event (\<lambda>vs. case vs of
       [v0] \<Rightarrow> do { x0 \<leftarrow> to_address v0;
         Some \<lparr>RemovedOwner_Owner = x0, RemovedOwner_Raw = log\<rparr> }
     | _ \<Rightarrow> None) log"

type_synonym GnosisSafeRemovedOwnerIterator = "GnosisSafeRemovedOwner iterator"

definition GnosisSafeRemovedOwnerIterator_Next :: "bind_env \<Rightarrow> bool \<Rightarrow> GnosisSafeRemovedOwnerIterator \<Rightarrow> bool \<times> GnosisSafeRemovedOwnerIterator" where
  "GnosisSafeRemovedOwnerIterator_Next B err_first it = iterator_Next (unpack_RemovedOwner B (it_contract it) (it_event it)) err_first it"

definition GnosisSafeRemovedOwnerIterator_Error :: "GnosisSafeRemovedOwnerIterator \<Rightarrow> string option" where
  "GnosisSafeRemovedOwnerIterator_Error it = iterator_Error it"

definition GnosisSafeRemovedOwnerIterator_Close :: "bind_env \<Rightarrow> GnosisSafeRemovedOwnerIterator \<Rightarrow> GnosisSafeRemovedOwnerIterator" where
  "GnosisSafeRemovedOwnerIterator_Close B it = iterator_Close B it"

definition FilterRemovedOwner ::
  "bind_env \<Rightarrow> BoundContract \<Rightarrow> FilterOpts option \<Rightarrow> world \<Rightarrow> (string + GnosisSafeRemovedOwnerIterator) \<times> world" where
  "FilterRemovedOwner B c opts = filter_logs B c opts ''RemovedOwner'' []"

definition WatchRemovedOwner ::
  "bind_env \<Rightarrow> BoundContract \<Rightarrow> u64 option \<Rightarrow> (recv \<times> send) list \<Rightarrow> world \<Rightarrow>
   (string + GnosisSafeRemovedOwner list \<times> string option option) \<times> world" where
  "WatchRemovedOwner B c opts = watch_logs B c opts ''RemovedOwner'' [] (unpack_RemovedOwner B c ''RemovedOwner'')"

definition ParseRemovedOwner :: "bind_env \<Rightarrow> BoundContract \<Rightarrow> Log \<Rightarrow> string + GnosisSafeRemovedOwner" where
  "ParseRemovedOwner B c log = unpack_RemovedOwner B c ''RemovedOwner'' log"

subsection \<open>SafeReceived\<close>

record GnosisSafeSafeReceived =
  SafeReceived_Sender :: address
  SafeReceived_Value :: int
  SafeReceived_Raw :: Log

definition unpack_SafeReceived :: "bind_env \<Rightarrow> BoundContract \<Rightarrow> string \<Rightarrow> Log \<Rightarrow> string + GnosisSafeSafeReceived" where
  "unpack_SafeReceived B c event log = unpack_log B c event (\<lambda>vs. case vs of
       [v0, v1] \<Rightarrow> do { x0 \<leftarrow> to_address v0; x1 \<leftarrow> to_big v1;
         Some \<lparr>SafeReceived_Sender = x0, SafeReceived_Value = x1, SafeReceived_Raw = log\<rparr> }
     | _ \<Rightarrow> None) log"

type_synonym GnosisSafeSafeReceivedIterator = "GnosisSafeSafeReceived iterator"

definition GnosisSafeSafeReceivedIterator_Next :: "bind_env \<Rightarrow> bool \<Rightarrow> GnosisSafeSafeReceivedIterator \<Rightarrow> bool \<times> GnosisSafeSafeReceivedIterator" where
  "GnosisSafeSafeReceivedIterator_Next B err_first it = iterator_Next (unpack_SafeReceived B (it_contract it) (it_event it)) err_first it"

definition GnosisSafeSafeReceivedIterator_Error :: "GnosisSafeSafeReceivedIterator \<Rightarrow> string option" where
  "GnosisSafeSafeReceivedIterator_Error it = iterator_Error it"

definition GnosisSafeSafeReceivedIterator_Close :: "bind_env \<Rightarrow> GnosisSafeSafeReceivedIterator \<Rightarrow> GnosisSafeSafeReceivedIterator" where
  "GnosisSafeSafeReceivedIterator_Close B it = iterator_Close B it"

definition FilterSafeReceived ::
  "bind_env \<Rightarrow> BoundContract \<Rightarrow> FilterOpts option \<Rightarrow> address list \<Rightarrow> world \<Rightarrow> (string + GnosisSafeSafeReceivedIterator) \<times> world" where
  "FilterSafeReceived B c opts sender = filter_logs B c opts ''SafeReceived'' [map AAddress sender]"

definition WatchSafeReceived ::
  "bind_env \<Rightarrow> BoundContract \<Rightarrow> u64 option \<Rightarrow> address list \<Rightarrow> (recv \<times> send) list \<Rightarrow> world \<Rightarrow>
   (string + GnosisSafeSafeReceived list \<times> string option option) \<times> world" where
  "WatchSafeReceived B c opts sender = watch_logs B c opts ''SafeReceived'' [map AAddress sender] (unpack_SafeReceived B c ''SafeReceived'')"

definition ParseSafeReceived :: "bind_env \<Rightarrow> BoundContract \<Rightarrow> Log \<Rightarrow> string + GnosisSafeSafeReceived" where
  "ParseSafeReceived B c log = unpack_SafeReceived B c ''SafeReceived'' log"

subsection \<open>SafeSetup\<close>

record GnosisSafeSafeSetup =
  SafeSetup_Initiator :: address
  SafeSetup_Owners :: "address list"
  SafeSetup_Threshold :: int
  SafeSetup_Initializer :: address
  SafeSetup_FallbackHandler :: address
  SafeSetup_Raw :: Log

definition unpack_SafeSetup :: "bind_env \<Rightarrow> BoundContract \<Rightarrow> string \<Rightarrow> Log \<Rightarrow> string + GnosisSafeSafeSetup" where
  "unpack_SafeSetup B c event log = unpack_log B c event (\<lambda>vs. case vs of
       [v0, v1, v2, v3, v4] \<Rightarrow> do { x0 \<leftarrow> to_address v0; x1 \<leftarrow> to_addresses v1; x2 \<leftarrow> to_big v2; x3 \<leftarrow> to_address v3; x4 \<leftarrow> to_address v4;
         Some \<lparr>SafeSetup_Initiator = x0, SafeSetup_Owners = x1, SafeSetup_Threshold = x2, SafeSetup_Initializer = x3, SafeSetup_FallbackHandler = x4, SafeSetup_Raw = log\<rparr> }
     | _ \<Rightarrow> None) log"

type_synonym GnosisSafeSafeSetupIterator = "GnosisSafeSafeSetup iterator"

definition GnosisSafeSafeSetupIterator_Next :: "bind_env \<Rightarrow> bool \<Rightarrow> GnosisSafeSafeSetupIterator \<Rightarrow> bool \<times> GnosisSafeSafeSetupIterator" where
  "GnosisSafeSafeSetupIterator_Next B err_first it = iterator_Next (unpack_SafeSetup B (it_contract it) (it_event it)) err_first it"

definition GnosisSafeSafeSetupIterator_Error :: "GnosisSafeSafeSetupIterator \<Rightarrow> string option" where
  "GnosisSafeSafeSetupIterator_Error it = iterator_Error it"

definition GnosisSafeSafeSetupIterator_Close :: "bind_env \<Rightarrow> GnosisSafeSafeSetupIterator \<Rightarrow> GnosisSafeSafeSetupIterator" where
  "GnosisSafeSafeSetupIterator_Close B it = iterator_Close B it"

definition FilterSafeSetup ::
  "bind_env \<Rightarrow> BoundContract \<Rightarrow> FilterOpts option \<Rightarrow> address list \<Rightarrow> world \<Rightarrow> (string + GnosisSafeSafeSetupIterator) \<times> world" where
  "FilterSafeSetup B c opts initiator = filter_logs B c opts ''SafeSetup'' [map AAddress initiator]"

definition WatchSafeSetup ::
  "bind_env \<Rightarrow> BoundContract \<Rightarrow> u64 option \<Rightarrow> address list \<Rightarrow> (recv \<times> send) list \<Rightarrow> world \<Rightarrow>
   (string + GnosisSafeSafeSetup list \<times> string option option) \<times> world" where
  "WatchSafeSetup B c opts initiator = watch_logs B c opts ''SafeSetup'' [map AAddress initiator] (unpack_SafeSetup B c ''SafeSetup'')"

definition ParseSafeSetup :: "bind_env \<Rightarrow> BoundContract \<Rightarrow> Log \<Rightarrow> string + GnosisSafeSafeSetup" where
  "ParseSafeSetup B c log = unpack_SafeSetup B c ''SafeSetup'' log"

subsection \<open>SignMsg\<close>

record GnosisSafeSignMsg =
  SignMsg_MsgHash :: hash
  SignMsg_Raw :: Log

definition unpack_SignMsg :: "bind_env \<Rightarrow> BoundContract \<Rightarrow> string \<Rightarrow> Log \<Rightarrow> string + GnosisSafeSignMsg" where
  "unpack_SignMsg B c event log = unpack_log B c event (\<lambda>vs. case vs of
       [v0] \<Rightarrow> do { x0 \<leftarrow> to_bytes32 v0;
         Some \<lparr>SignMsg_MsgHash = x0, SignMsg_Raw = log\<rparr> }
     | _ \<Rightarrow> None) log"

type_synonym GnosisSafeSignMsgIterator = "GnosisSafeSignMsg iterator"

definition GnosisSafeSignMsgIterator_Next :: "bind_env \<Rightarrow> bool \<Rightarrow> GnosisSafeSignMsgIterator \<Rightarrow> bool \<times> GnosisSafeSignMsgIterator" where
  "GnosisSafeSignMsgIterator_Next B err_first it = iterator_Next (unpack_SignMsg B (it_contract it) (it_event it)) err_first it"

definition GnosisSafeSignMsgIterator_Error :: "GnosisSafeSignMsgIterator \<Rightarrow> string option" where
  "GnosisSafeSignMsgIterator_Error it = iterator_Error it"

definition GnosisSafeSignMsgIterator_Close :: "bind_env \<Rightarrow> GnosisSafeSignMsgIterator \<Rightarrow> GnosisSafeSignMsgIterator" where
  "GnosisSafeSignMsgIterator_Close B it = iterator_Close B it"

definition FilterSignMsg ::
  "bind_env \<Rightarrow> BoundContract \<Rightarrow> FilterOpts option \<Rightarrow> hash list \<Rightarrow> world \<Rightarrow> (string + GnosisSafeSignMsgIterator) \<times> world" where
  "FilterSignMsg B c opts msgHash = filter_logs B c opts ''SignMsg'' [map ABytes32 msgHash]"

definition WatchSignMsg ::
  "bind_env \<Rightarrow> BoundContract \<Rightarrow> u64 option \<Rightarrow> hash list \<Rightarrow> (recv \<times> send) list \<Rightarrow> world \<Rightarrow>
   (string + GnosisSafeSignMsg list \<times> string option option) \<times> world" where
  "WatchSignMsg B c opts msgHash = watch_logs B c opts ''SignMsg'' [map ABytes32 msgHash] (unpack_SignMsg B c ''SignMsg'')"

definition ParseSignMsg :: "bind_env \<Rightarrow> BoundContract \<Rightarrow> Log \<Rightarrow> string + GnosisSafeSignMsg" where
  "ParseSignMsg B c log = unpack_SignMsg B c ''SignMsg'' log"

section \<open>Every query fits the interface\<close>

lemmas GnosisSafe_event_defs =
  FilterAddedOwner_def
  WatchAddedOwner_def
  ParseAddedOwner_def
  FilterApproveHash_def
  WatchApproveHash_def
  ParseApproveHash_def
  FilterChangedFallbackHandler_def
  WatchChangedFallbackHandler_def
  ParseChangedFallbackHandler_def
  FilterChangedGuard_def
  WatchChangedGuard_def
  ParseChangedGuard_def
  FilterChangedThreshold_def
  WatchChangedThreshold_def
  ParseChangedThreshold_def
  FilterDisabledModule_def
  WatchDisabledModule_def
  ParseDisabledModule_def
  FilterEnabledModule_def
  WatchEnabledModule_def
  ParseEnabledModule_def
  FilterExecutionFailure_def
  WatchExecutionFailure_def
  ParseExecutionFailure_def
  FilterExecutionFromModuleFailure_def
  WatchExecutionFromModuleFailure_def
  ParseExecutionFromModuleFailure_def
  FilterExecutionFromModuleSuccess_def
  WatchExecutionFromModuleSuccess_def
  ParseExecutionFromModuleSuccess_def
  FilterExecutionSuccess_def
  WatchExecutionSuccess_def
  ParseExecutionSuccess_def
  FilterRemovedOwner_def
  WatchRemovedOwner_def
  ParseRemovedOwner_def
  FilterSafeReceived_def
  WatchSafeReceived_def
  ParseSafeReceived_def
  FilterSafeSetup_def
  WatchSafeSetup_def
  ParseSafeSetup_def
  FilterSignMsg_def
  WatchSignMsg_def
  ParseSignMsg_def

lemmas GnosisSafe_unpack_defs =
  unpack_AddedOwner_def
  unpack_ApproveHash_def
  unpack_ChangedFallbackHandler_def
  unpack_ChangedGuard_def
  unpack_ChangedThreshold_def
  unpack_DisabledModule_def
  unpack_EnabledModule_def
  unpack_ExecutionFailure_def
  unpack_ExecutionFromModuleFailure_def
  unpack_ExecutionFromModuleSuccess_def
  unpack_ExecutionSuccess_def
  unpack_RemovedOwner_def
  unpack_SafeReceived_def
  unpack_SafeSetup_def
  unpack_SignMsg_def

lemma unpack_typed:
  assumes "map_of (abi_events A) e \<noteq> None"
  shows
   "unpack_AddedOwner (only_typed A B) c e = unpack_AddedOwner B c e"
   "unpack_ApproveHash (only_typed A B) c e = unpack_ApproveHash B c e"
   "unpack_ChangedFallbackHandler (only_typed A B) c e = unpack_ChangedFallbackHandler B c e"
   "unpack_ChangedGuard (only_typed A B) c e = unpack_ChangedGuard B c e"
   "unpack_ChangedThreshold (only_typed A B) c e = unpack_ChangedThreshold B c e"
   "unpack_DisabledModule (only_typed A B) c e = unpack_DisabledModule B c e"
   "unpack_EnabledModule (only_typed A B) c e = unpack_EnabledModule B c e"
   "unpack_ExecutionFailure (only_typed A B) c e = unpack_ExecutionFailure B c e"
   "unpack_ExecutionFromModuleFailure (only_typed A B) c e = unpack_ExecutionFromModuleFailure B c e"
   "unpack_ExecutionFromModuleSuccess (only_typed A B) c e = unpack_ExecutionFromModuleSuccess B c e"
   "unpack_ExecutionSuccess (only_typed A B) c e = unpack_ExecutionSuccess B c e"
   "unpack_RemovedOwner (only_typed A B) c e = unpack_RemovedOwner B c e"
   "unpack_SafeReceived (only_typed A B) c e = unpack_SafeReceived B c e"
   "unpack_SafeSetup (only_typed A B) c e = unpack_SafeSetup B c e"
   "unpack_SignMsg (only_typed A B) c e = unpack_SignMsg B c e"
  using assms by (simp_all add: GnosisSafe_unpack_defs unpack_log_typed fun_eq_iff)

text \<open>C25.
  Every request the Safe's binding makes fits the interface of the contract: calls and transactions name one of its functions with arguments of the
  types it gives, queries name one of its events with a list of values of the right type for each indexed field. Behind a filter that lets
  only such requests through, each operation does exactly what it does without it.
\<close>

theorem GnosisSafe_requests_typed:
  "GnosisSafe_VERSION (only_typed GnosisSafeABI B) = GnosisSafe_VERSION B \<and>
   GnosisSafe_ApprovedHashes (only_typed GnosisSafeABI B) = GnosisSafe_ApprovedHashes B \<and>
   GnosisSafe_CheckNSignatures (only_typed GnosisSafeABI B) = GnosisSafe_CheckNSignatures B \<and>
   GnosisSafe_CheckSignatures (only_typed GnosisSafeABI B) = GnosisSafe_CheckSignatures B \<and>
   GnosisSafe_DomainSeparator (only_typed GnosisSafeABI B) = GnosisSafe_DomainSeparator B \<and>
   GnosisSafe_EncodeTransactionData (only_typed GnosisSafeABI B) = GnosisSafe_EncodeTransactionData B \<and>
   GnosisSafe_GetChainId (only_typed GnosisSafeABI B) = GnosisSafe_GetChainId B \<and>
   GnosisSafe_GetModulesPaginated (only_typed GnosisSafeABI B) = GnosisSafe_GetModulesPaginated B \<and>
   GnosisSafe_GetOwners (only_typed GnosisSafeABI B) = GnosisSafe_GetOwners B \<and>
   GnosisSafe_GetStorageAt (only_typed GnosisSafeABI B) = GnosisSafe_GetStorageAt B \<and>
   GnosisSafe_GetThreshold (only_typed GnosisSafeABI B) = GnosisSafe_GetThreshold B \<and>
   GnosisSafe_GetTransactionHash (only_typed GnosisSafeABI B) = GnosisSafe_GetTransactionHash B \<and>
   GnosisSafe_IsModuleEnabled (only_typed GnosisSafeABI B) = GnosisSafe_IsModuleEnabled B \<and>
   GnosisSafe_IsOwner (only_typed GnosisSafeABI B) = GnosisSafe_IsOwner B \<and>
   GnosisSafe_Nonce (only_typed GnosisSafeABI B) = GnosisSafe_Nonce B \<and>
   GnosisSafe_SignedMessages (only_typed GnosisSafeABI B) = GnosisSafe_SignedMessages B \<and>
   GnosisSafe_AddOwnerWithThreshold (only_typed GnosisSafeABI B) = GnosisSafe_AddOwnerWithThreshold B \<and>
   GnosisSafe_ApproveHash (only_typed GnosisSafeABI B) = GnosisSafe_ApproveHash B \<and>
   GnosisSafe_ChangeThreshold (only_typed GnosisSafeABI B) = GnosisSafe_ChangeThreshold B \<and>
   GnosisSafe_DisableModule (only_typed GnosisSafeABI B) = GnosisSafe_DisableModule B \<and>
   GnosisSafe_EnableModule (only_typed GnosisSafeABI B) = GnosisSafe_EnableModule B \<and>
   GnosisSafe_ExecTransaction (only_typed GnosisSafeABI B) = GnosisSafe_ExecTransaction B \<and>
   GnosisSafe_ExecTransactionFromModule (only_typed GnosisSafeABI B) = GnosisSafe_ExecTransactionFromModule B \<and>
   GnosisSafe_ExecTransactionFromModuleReturnData (only_typed GnosisSafeABI B) = GnosisSafe_ExecTransactionFromModuleReturnData B \<and>
   GnosisSafe_RemoveOwner (only_typed GnosisSafeABI B) = GnosisSafe_RemoveOwner B \<and>
   GnosisSafe_RequiredTxGas (only_typed GnosisSafeABI B) = GnosisSafe_RequiredTxGas B \<and>
   GnosisSafe_SetFallbackHandler (only_typed GnosisSafeABI B) = GnosisSafe_SetFallbackHandler B \<and>
   GnosisSafe_SetGuard (only_typed GnosisSafeABI B) = GnosisSafe_SetGuard B \<and>
   GnosisSafe_Setup (only_typed GnosisSafeABI B) = GnosisSafe_Setup B \<and>
   GnosisSafe_SimulateAndRevert (only_typed GnosisSafeABI B) = GnosisSafe_SimulateAndRevert B \<and>
   GnosisSafe_SwapOwner (only_typed GnosisSafeABI B) = GnosisSafe_SwapOwner B \<and>
   FilterAddedOwner (only_typed GnosisSafeABI B) = FilterAddedOwner B \<and>
   WatchAddedOwner (only_typed GnosisSafeABI B) = WatchAddedOwner B \<and>
   ParseAddedOwner (only_typed GnosisSafeABI B) = ParseAddedOwner B \<and>
   FilterApproveHash (only_typed GnosisSafeABI B) = FilterApproveHash B \<and>
   WatchApproveHash (only_typed GnosisSafeABI B) = WatchApproveHash B \<and>
   ParseApproveHash (only_typed GnosisSafeABI B) = ParseApproveHash B \<and>
   FilterChangedFallbackHandler (only_typed GnosisSafeABI B) = FilterChangedFallbackHandler B \<and>
   WatchChangedFallbackHandler (only_typed GnosisSafeABI B) = WatchChangedFallbackHandler B \<and>
   ParseChangedFallbackHandler (only_typed GnosisSafeABI B) = ParseChangedFallbackHandler B \<and>
   FilterChangedGuard (only_typed GnosisSafeABI B) = FilterChangedGuard B \<and>
   WatchChangedGuard (only_typed GnosisSafeABI B) = WatchChangedGuard B \<and>
   ParseChangedGuard (only_typed GnosisSafeABI B) = ParseChangedGuard B \<and>
   FilterChangedThreshold (only_typed GnosisSafeABI B) = FilterChangedThreshold B \<and>
   WatchChangedThreshold (only_typed GnosisSafeABI B) = WatchChangedThreshold B \<and>
   ParseChangedThreshold (only_typed GnosisSafeABI B) = ParseChangedThreshold B \<and>
   FilterDisabledModule (only_typed GnosisSafeABI B) = FilterDisabledModule B \<and>
   WatchDisabledModule (only_typed GnosisSafeABI B) = WatchDisabledModule B \<and>
   ParseDisabledModule (only_typed GnosisSafeABI B) = ParseDisabledModule B \<and>
   FilterEnabledModule (only_typed GnosisSafeABI B) = FilterEnabledModule B \<and>
   WatchEnabledModule (only_typed GnosisSafeABI B) = WatchEnabledModule B \<and>
   ParseEnabledModule (only_typed GnosisSafeABI B) = ParseEnabledModule B \<and>
   FilterExecutionFailure (only_typed GnosisSafeABI B) = FilterExecutionFailure B \<and>
   WatchExecutionFailure (only_typed GnosisSafeABI B) = WatchExecutionFailure B \<and>
   ParseExecutionFailure (only_typed GnosisSafeABI B) = ParseExecutionFailure B \<and>
   FilterExecutionFromModuleFailure (only_typed GnosisSafeABI B) = FilterExecutionFromModuleFailure B \<and>
   WatchExecutionFromModuleFailure (only_typed GnosisSafeABI B) = WatchExecutionFromModuleFailure B \<and>
   ParseExecutionFromModuleFailure (only_typed GnosisSafeABI B) = ParseExecutionFromModuleFailure B \<and>
   FilterExecutionFromModuleSuccess (only_typed GnosisSafeABI B) = FilterExecutionFromModuleSuccess B \<and>
   WatchExecutionFromModuleSuccess (only_typed GnosisSafeABI B) = WatchExecutionFromModuleSuccess B \<and>
   ParseExecutionFromModuleSuccess (only_typed GnosisSafeABI B) = ParseExecutionFromModuleSuccess B \<and>
   FilterExecutionSuccess (only_typed GnosisSafeABI B) = FilterExecutionSuccess B \<and>
   WatchExecutionSuccess (only_typed GnosisSafeABI B) = WatchExecutionSuccess B \<and>
   ParseExecutionSuccess (only_typed GnosisSafeABI B) = ParseExecutionSuccess B \<and>
   FilterRemovedOwner (only_typed GnosisSafeABI B) = FilterRemovedOwner B \<and>
   WatchRemovedOwner (only_typed GnosisSafeABI B) = WatchRemovedOwner B \<and>
   ParseRemovedOwner (only_typed GnosisSafeABI B) = ParseRemovedOwner B \<and>
   FilterSafeReceived (only_typed GnosisSafeABI B) = FilterSafeReceived B \<and>
   WatchSafeReceived (only_typed GnosisSafeABI B) = WatchSafeReceived B \<and>
   ParseSafeReceived (only_typed GnosisSafeABI B) = ParseSafeReceived B \<and>
   FilterSafeSetup (only_typed GnosisSafeABI B) = FilterSafeSetup B \<and>
   WatchSafeSetup (only_typed GnosisSafeABI B) = WatchSafeSetup B \<and>
   ParseSafeSetup (only_typed GnosisSafeABI B) = ParseSafeSetup B \<and>
   FilterSignMsg (only_typed GnosisSafeABI B) = FilterSignMsg B \<and>
   WatchSignMsg (only_typed GnosisSafeABI B) = WatchSignMsg B \<and>
   ParseSignMsg (only_typed GnosisSafeABI B) = ParseSignMsg B"
  by (intro conjI ext; simp add: GnosisSafe_call_defs GnosisSafe_transact_defs GnosisSafe_event_defs with_typed unpack_typed typed_args_def
      typed_query_def indexed_types_def GnosisSafe_sel)

section \<open>What the operations of an event share\<close>

text \<open>
  An event with its query: parsing, the iterator and the watching goroutine read logs in the same way.
\<close>

locale event_binding =
  fixes name :: string and query :: "abi_value list list"
    and unpack :: "bind_env \<Rightarrow> BoundContract \<Rightarrow> string \<Rightarrow> Log \<Rightarrow> string + 'e"
    and iter_next :: "bind_env \<Rightarrow> bool \<Rightarrow> 'e iterator \<Rightarrow> bool \<times> 'e iterator"
    and iter_error :: "'e iterator \<Rightarrow> string option" and iter_close :: "bind_env \<Rightarrow> 'e iterator \<Rightarrow> 'e iterator"
    and filter_op :: "bind_env \<Rightarrow> BoundContract \<Rightarrow> FilterOpts option \<Rightarrow> world \<Rightarrow> (string + 'e iterator) \<times> world"
    and watch_op :: "bind_env \<Rightarrow> BoundContract \<Rightarrow> u64 option \<Rightarrow> (recv \<times> send) list \<Rightarrow> world \<Rightarrow>
      (string + 'e list \<times> string option option) \<times> world"
    and parse :: "bind_env \<Rightarrow> BoundContract \<Rightarrow> Log \<Rightarrow> string + 'e"
  assumes filter_eq: "filter_op B c opts w = filter_logs B c opts name query w"
    and watch_eq: "watch_op B c wopts rounds w = watch_logs B c wopts name query (unpack B c name) rounds w"
    and next_eq: "iter_next B first it = iterator_Next (unpack B (it_contract it) (it_event it)) first it"
    and error_eq: "iter_error it = iterator_Error it" and close_eq: "iter_close B it = iterator_Close B it"
    and parse_eq: "parse B c = unpack B c name"
begin

lemma drain_next:
  "it_contract it = c \<Longrightarrow> it_event it = name \<Longrightarrow> drain (iter_next B) cs it = drain (iterator_Next (parse B c)) cs it"
proof (induction cs arbitrary: it)
  case (Cons x cs)
  obtain b it1 where n: "iterator_Next (parse B c) x it = (b, it1)" by fastforce
  with iterator_Next_same [OF n] Cons.IH [of it1] Cons.prems show ?case by (cases b) (simp_all add: next_eq parse_eq)
qed simp

theorem iterates:
  assumes "filter_op B c opts w = (Inr it, w')" "sub_Err (it_sub it) = None" "length (sub_logs (it_sub it)) < length cs"
  shows "\<exists>it'. drain (iter_next B) cs it = Some (fst (decode_logs (parse B c) (sub_logs (it_sub it))), it') \<and>
    iter_error it' = snd (decode_logs (parse B c) (sub_logs (it_sub it)))"
proof -
  have it: "it_contract it = c" "it_event it = name" "it_fail it = None"
    using assms(1) by (auto simp: filter_eq filter_logs_def new_iterator_def split: prod.splits sum.splits)
  from drain_decodes [OF it(3) assms(2,3)] show ?thesis by (simp add: drain_next [OF it(1,2)] error_eq)
qed

text \<open>Closing an iterator ends its subscription and leaves the event it is at and its error.\<close>

lemma closed: "it_Event (iter_close B it) = it_Event it" "iter_error (iter_close B it) = iter_error it"
  "it_sub (iter_close B it) = be_Unsubscribe B (it_sub it)"
  by (simp_all add: close_eq error_eq iterator_Close_def iterator_Error_def)

theorem forwards:
  assumes "watch_op B c wopts rounds w = (Inr (sink, ret), w')"
  shows "map Inr sink = map (parse B c) (take (length sink) (received rounds)) \<and> (ret = None \<longrightarrow> length sink = length rounds)"
  using assms watch_loop_sends [of "parse B c" rounds "[]" sink ret]
  by (auto simp: watch_eq parse_eq watch_logs_def split: prod.splits sum.splits)

end

interpretation addedOwner: event_binding "''AddedOwner''" "[]" unpack_AddedOwner GnosisSafeAddedOwnerIterator_Next
  GnosisSafeAddedOwnerIterator_Error GnosisSafeAddedOwnerIterator_Close FilterAddedOwner WatchAddedOwner ParseAddedOwner
  by unfold_locales (simp_all add: FilterAddedOwner_def WatchAddedOwner_def ParseAddedOwner_def GnosisSafeAddedOwnerIterator_Next_def GnosisSafeAddedOwnerIterator_Error_def GnosisSafeAddedOwnerIterator_Close_def fun_eq_iff)

interpretation approveHash: event_binding "''ApproveHash''" "[map ABytes32 approvedHash, map AAddress owner]" unpack_ApproveHash GnosisSafeApproveHashIterator_Next
  GnosisSafeApproveHashIterator_Error GnosisSafeApproveHashIterator_Close "\<lambda>B c opts. FilterApproveHash B c opts approvedHash owner" "\<lambda>B c opts. WatchApproveHash B c opts approvedHash owner" ParseApproveHash
  for approvedHash owner
  by unfold_locales (simp_all add: FilterApproveHash_def WatchApproveHash_def ParseApproveHash_def GnosisSafeApproveHashIterator_Next_def GnosisSafeApproveHashIterator_Error_def GnosisSafeApproveHashIterator_Close_def fun_eq_iff)

interpretation changedFallbackHandler: event_binding "''ChangedFallbackHandler''" "[]" unpack_ChangedFallbackHandler GnosisSafeChangedFallbackHandlerIterator_Next
  GnosisSafeChangedFallbackHandlerIterator_Error GnosisSafeChangedFallbackHandlerIterator_Close FilterChangedFallbackHandler WatchChangedFallbackHandler ParseChangedFallbackHandler
  by unfold_locales (simp_all add: FilterChangedFallbackHandler_def WatchChangedFallbackHandler_def ParseChangedFallbackHandler_def GnosisSafeChangedFallbackHandlerIterator_Next_def GnosisSafeChangedFallbackHandlerIterator_Error_def GnosisSafeChangedFallbackHandlerIterator_Close_def fun_eq_iff)

interpretation changedGuard: event_binding "''ChangedGuard''" "[]" unpack_ChangedGuard GnosisSafeChangedGuardIterator_Next
  GnosisSafeChangedGuardIterator_Error GnosisSafeChangedGuardIterator_Close FilterChangedGuard WatchChangedGuard ParseChangedGuard
  by unfold_locales (simp_all add: FilterChangedGuard_def WatchChangedGuard_def ParseChangedGuard_def GnosisSafeChangedGuardIterator_Next_def GnosisSafeChangedGuardIterator_Error_def GnosisSafeChangedGuardIterator_Close_def fun_eq_iff)

interpretation changedThreshold: event_binding "''ChangedThreshold''" "[]" unpack_ChangedThreshold GnosisSafeChangedThresholdIterator_Next
  GnosisSafeChangedThresholdIterator_Error GnosisSafeChangedThresholdIterator_Close FilterChangedThreshold WatchChangedThreshold ParseChangedThreshold
  by unfold_locales (simp_all add: FilterChangedThreshold_def WatchChangedThreshold_def ParseChangedThreshold_def GnosisSafeChangedThresholdIterator_Next_def GnosisSafeChangedThresholdIterator_Error_def GnosisSafeChangedThresholdIterator_Close_def fun_eq_iff)

interpretation disabledModule: event_binding "''DisabledModule''" "[]" unpack_DisabledModule GnosisSafeDisabledModuleIterator_Next
  GnosisSafeDisabledModuleIterator_Error GnosisSafeDisabledModuleIterator_Close FilterDisabledModule WatchDisabledModule ParseDisabledModule
  by unfold_locales (simp_all add: FilterDisabledModule_def WatchDisabledModule_def ParseDisabledModule_def GnosisSafeDisabledModuleIterator_Next_def GnosisSafeDisabledModuleIterator_Error_def GnosisSafeDisabledModuleIterator_Close_def fun_eq_iff)

interpretation enabledModule: event_binding "''EnabledModule''" "[]" unpack_EnabledModule GnosisSafeEnabledModuleIterator_Next
  GnosisSafeEnabledModuleIterator_Error GnosisSafeEnabledModuleIterator_Close FilterEnabledModule WatchEnabledModule ParseEnabledModule
  by unfold_locales (simp_all add: FilterEnabledModule_def WatchEnabledModule_def ParseEnabledModule_def GnosisSafeEnabledModuleIterator_Next_def GnosisSafeEnabledModuleIterator_Error_def GnosisSafeEnabledModuleIterator_Close_def fun_eq_iff)

interpretation executionFailure: event_binding "''ExecutionFailure''" "[]" unpack_ExecutionFailure GnosisSafeExecutionFailureIterator_Next
  GnosisSafeExecutionFailureIterator_Error GnosisSafeExecutionFailureIterator_Close FilterExecutionFailure WatchExecutionFailure ParseExecutionFailure
  by unfold_locales (simp_all add: FilterExecutionFailure_def WatchExecutionFailure_def ParseExecutionFailure_def GnosisSafeExecutionFailureIterator_Next_def GnosisSafeExecutionFailureIterator_Error_def GnosisSafeExecutionFailureIterator_Close_def fun_eq_iff)

interpretation executionFromModuleFailure: event_binding "''ExecutionFromModuleFailure''" "[map AAddress module]" unpack_ExecutionFromModuleFailure GnosisSafeExecutionFromModuleFailureIterator_Next
  GnosisSafeExecutionFromModuleFailureIterator_Error GnosisSafeExecutionFromModuleFailureIterator_Close "\<lambda>B c opts. FilterExecutionFromModuleFailure B c opts module" "\<lambda>B c opts. WatchExecutionFromModuleFailure B c opts module" ParseExecutionFromModuleFailure
  for module
  by unfold_locales (simp_all add: FilterExecutionFromModuleFailure_def WatchExecutionFromModuleFailure_def ParseExecutionFromModuleFailure_def GnosisSafeExecutionFromModuleFailureIterator_Next_def GnosisSafeExecutionFromModuleFailureIterator_Error_def GnosisSafeExecutionFromModuleFailureIterator_Close_def fun_eq_iff)

interpretation executionFromModuleSuccess: event_binding "''ExecutionFromModuleSuccess''" "[map AAddress module]" unpack_ExecutionFromModuleSuccess GnosisSafeExecutionFromModuleSuccessIterator_Next
  GnosisSafeExecutionFromModuleSuccessIterator_Error GnosisSafeExecutionFromModuleSuccessIterator_Close "\<lambda>B c opts. FilterExecutionFromModuleSuccess B c opts module" "\<lambda>B c opts. WatchExecutionFromModuleSuccess B c opts module" ParseExecutionFromModuleSuccess
  for module
  by unfold_locales (simp_all add: FilterExecutionFromModuleSuccess_def WatchExecutionFromModuleSuccess_def ParseExecutionFromModuleSuccess_def GnosisSafeExecutionFromModuleSuccessIterator_Next_def GnosisSafeExecutionFromModuleSuccessIterator_Error_def GnosisSafeExecutionFromModuleSuccessIterator_Close_def fun_eq_iff)

interpretation executionSuccess: event_binding "''ExecutionSuccess''" "[]" unpack_ExecutionSuccess GnosisSafeExecutionSuccessIterator_Next
  GnosisSafeExecutionSuccessIterator_Error GnosisSafeExecutionSuccessIterator_Close FilterExecutionSuccess WatchExecutionSuccess ParseExecutionSuccess
  by unfold_locales (simp_all add: FilterExecutionSuccess_def WatchExecutionSuccess_def ParseExecutionSuccess_def GnosisSafeExecutionSuccessIterator_Next_def GnosisSafeExecutionSuccessIterator_Error_def GnosisSafeExecutionSuccessIterator_Close_def fun_eq_iff)

interpretation removedOwner: event_binding "''RemovedOwner''" "[]" unpack_RemovedOwner GnosisSafeRemovedOwnerIterator_Next
  GnosisSafeRemovedOwnerIterator_Error GnosisSafeRemovedOwnerIterator_Close FilterRemovedOwner WatchRemovedOwner ParseRemovedOwner
  by unfold_locales (simp_all add: FilterRemovedOwner_def WatchRemovedOwner_def ParseRemovedOwner_def GnosisSafeRemovedOwnerIterator_Next_def GnosisSafeRemovedOwnerIterator_Error_def GnosisSafeRemovedOwnerIterator_Close_def fun_eq_iff)

interpretation safeReceived: event_binding "''SafeReceived''" "[map AAddress sender]" unpack_SafeReceived GnosisSafeSafeReceivedIterator_Next
  GnosisSafeSafeReceivedIterator_Error GnosisSafeSafeReceivedIterator_Close "\<lambda>B c opts. FilterSafeReceived B c opts sender" "\<lambda>B c opts. WatchSafeReceived B c opts sender" ParseSafeReceived
  for sender
  by unfold_locales (simp_all add: FilterSafeReceived_def WatchSafeReceived_def ParseSafeReceived_def GnosisSafeSafeReceivedIterator_Next_def GnosisSafeSafeReceivedIterator_Error_def GnosisSafeSafeReceivedIterator_Close_def fun_eq_iff)

interpretation safeSetup: event_binding "''SafeSetup''" "[map AAddress initiator]" unpack_SafeSetup GnosisSafeSafeSetupIterator_Next
  GnosisSafeSafeSetupIterator_Error GnosisSafeSafeSetupIterator_Close "\<lambda>B c opts. FilterSafeSetup B c opts initiator" "\<lambda>B c opts. WatchSafeSetup B c opts initiator" ParseSafeSetup
  for initiator
  by unfold_locales (simp_all add: FilterSafeSetup_def WatchSafeSetup_def ParseSafeSetup_def GnosisSafeSafeSetupIterator_Next_def GnosisSafeSafeSetupIterator_Error_def GnosisSafeSafeSetupIterator_Close_def fun_eq_iff)

interpretation signMsg: event_binding "''SignMsg''" "[map ABytes32 msgHash]" unpack_SignMsg GnosisSafeSignMsgIterator_Next
  GnosisSafeSignMsgIterator_Error GnosisSafeSignMsgIterator_Close "\<lambda>B c opts. FilterSignMsg B c opts msgHash" "\<lambda>B c opts. WatchSignMsg B c opts msgHash" ParseSignMsg
  for msgHash
  by unfold_locales (simp_all add: FilterSignMsg_def WatchSignMsg_def ParseSignMsg_def GnosisSafeSignMsgIterator_Next_def GnosisSafeSignMsgIterator_Error_def GnosisSafeSignMsgIterator_Close_def fun_eq_iff)

section \<open>Properties\<close>

text \<open>C26.
  An iterator over the hashes that were approved yields exactly the logs the query found, parsed in their order, up to the first
  that does not parse, whose error it then reports. This is so however the runtime chooses between a waiting log and the end
  of the subscription, as long as the subscription ends without an error.
\<close>

theorem ApproveHash_iterator_decodes:
  assumes "FilterApproveHash B c opts hashes owners w = (Inr it, w')" "sub_Err (it_sub it) = None"
    "length (sub_logs (it_sub it)) < length cs"
  shows "\<exists>it'. drain (GnosisSafeApproveHashIterator_Next B) cs it =
      Some (fst (decode_logs (ParseApproveHash B c) (sub_logs (it_sub it))), it') \<and>
    GnosisSafeApproveHashIterator_Error it' = snd (decode_logs (ParseApproveHash B c) (sub_logs (it_sub it)))"
  by (rule approveHash.iterates [OF assms])

theorem ApproveHash_iterator_decodes_witness:
  "\<exists>it w'. FilterApproveHash demo_bind demo_contract None [7] [] demo_world = (Inr it, w') \<and>
     map_option fst (drain (GnosisSafeApproveHashIterator_Next demo_bind) [True, False, True] it) =
       Some (map (\<lambda>h. \<lparr>ApproveHash_ApprovedHash = h, ApproveHash_Owner = 5, ApproveHash_Raw = demo_log h\<rparr>) [7, 8])"
proof -
  let ?it = "new_iterator demo_contract ''ApproveHash'' \<lparr>sub_logs = [demo_log 7, demo_log 8], sub_Err = None\<rparr>"
  obtain w' where f: "FilterApproveHash demo_bind demo_contract None [7] [] demo_world = (Inr ?it, w')"
    by (simp add: FilterApproveHash_def filter_logs_def ask_def demo_bind_def)
  have "fst (decode_logs (ParseApproveHash demo_bind demo_contract) [demo_log 7, demo_log 8]) =
      map (\<lambda>h. \<lparr>ApproveHash_ApprovedHash = h, ApproveHash_Owner = 5, ApproveHash_Raw = demo_log h\<rparr>) [7, 8]"
    by (simp add: ParseApproveHash_def unpack_ApproveHash_def unpack_log_def demo_bind_def demo_log_def to_defs)
  with ApproveHash_iterator_decodes [OF f, of "[True, False, True]"] f show ?thesis
    by (intro exI [of _ ?it] exI [of _ w']) (auto simp: new_iterator_def)
qed



end
