(* ===== verification/GnosisSafeSessions.thy ===== *)
theory GnosisSafeSessions
  imports GnosisSafe
begin

text \<open>
  \<^verbatim>\<open>multisend/gen_gnosissafe.go\<close>, the session types: the operations of the binding with preset options, for the whole binding, for its calls only and
  for its transactions only; and the raw operations of the parts.
\<close>

section \<open>Sessions\<close>

record GnosisSafeSession =
  ses_Contract :: GnosisSafe
  ses_CallOpts :: CallOpts
  ses_TransactOpts :: TransactOpts

record GnosisSafeCallerSession =
  cs_Contract :: BoundContract
  cs_CallOpts :: CallOpts

record GnosisSafeTransactorSession =
  ts_Contract :: BoundContract
  ts_TransactOpts :: TransactOpts

section \<open>Raw operations of the parts\<close>

definition GnosisSafeCallerRaw_Call ::
  "bind_env \<Rightarrow> BoundContract \<Rightarrow> CallOpts option \<Rightarrow> string \<Rightarrow> abi_value list \<Rightarrow> world \<Rightarrow> ((string + abi_value list) \<times> world) option" where
  "GnosisSafeCallerRaw_Call B c opts method params = call_with B c opts method params Some"

definition GnosisSafeTransactorRaw_Transfer ::
  "bind_env \<Rightarrow> BoundContract \<Rightarrow> TransactOpts option \<Rightarrow> world \<Rightarrow> ((string + Transaction) \<times> world) option" where
  "GnosisSafeTransactorRaw_Transfer B c opts = transfer_with B c opts"

definition GnosisSafeTransactorRaw_Transact ::
  "bind_env \<Rightarrow> BoundContract \<Rightarrow> TransactOpts option \<Rightarrow> string \<Rightarrow> abi_value list \<Rightarrow> world \<Rightarrow> ((string + Transaction) \<times> world) option" where
  "GnosisSafeTransactorRaw_Transact B c opts method params = transact_with B c opts method params"

section \<open>Calls of a session\<close>

definition GnosisSafeSession_VERSION :: "bind_env \<Rightarrow> GnosisSafeSession \<Rightarrow> _" where
  "GnosisSafeSession_VERSION B s = GnosisSafe_VERSION B (GnosisSafeCaller (ses_Contract s)) (Some (ses_CallOpts s))"

definition GnosisSafeSession_ApprovedHashes :: "bind_env \<Rightarrow> GnosisSafeSession \<Rightarrow> _" where
  "GnosisSafeSession_ApprovedHashes B s = GnosisSafe_ApprovedHashes B (GnosisSafeCaller (ses_Contract s)) (Some (ses_CallOpts s))"

definition GnosisSafeSession_CheckNSignatures :: "bind_env \<Rightarrow> GnosisSafeSession \<Rightarrow> _" where
  "GnosisSafeSession_CheckNSignatures B s = GnosisSafe_CheckNSignatures B (GnosisSafeCaller (ses_Contract s)) (Some (ses_CallOpts s))"

definition GnosisSafeSession_CheckSignatures :: "bind_env \<Rightarrow> GnosisSafeSession \<Rightarrow> _" where
  "GnosisSafeSession_CheckSignatures B s = GnosisSafe_CheckSignatures B (GnosisSafeCaller (ses_Contract s)) (Some (ses_CallOpts s))"

definition GnosisSafeSession_DomainSeparator :: "bind_env \<Rightarrow> GnosisSafeSession \<Rightarrow> _" where
  "GnosisSafeSession_DomainSeparator B s = GnosisSafe_DomainSeparator B (GnosisSafeCaller (ses_Contract s)) (Some (ses_CallOpts s))"

definition GnosisSafeSession_EncodeTransactionData :: "bind_env \<Rightarrow> GnosisSafeSession \<Rightarrow> _" where
  "GnosisSafeSession_EncodeTransactionData B s = GnosisSafe_EncodeTransactionData B (GnosisSafeCaller (ses_Contract s)) (Some (ses_CallOpts s))"

definition GnosisSafeSession_GetChainId :: "bind_env \<Rightarrow> GnosisSafeSession \<Rightarrow> _" where
  "GnosisSafeSession_GetChainId B s = GnosisSafe_GetChainId B (GnosisSafeCaller (ses_Contract s)) (Some (ses_CallOpts s))"

definition GnosisSafeSession_GetModulesPaginated :: "bind_env \<Rightarrow> GnosisSafeSession \<Rightarrow> _" where
  "GnosisSafeSession_GetModulesPaginated B s = GnosisSafe_GetModulesPaginated B (GnosisSafeCaller (ses_Contract s)) (Some (ses_CallOpts s))"

definition GnosisSafeSession_GetOwners :: "bind_env \<Rightarrow> GnosisSafeSession \<Rightarrow> _" where
  "GnosisSafeSession_GetOwners B s = GnosisSafe_GetOwners B (GnosisSafeCaller (ses_Contract s)) (Some (ses_CallOpts s))"

definition GnosisSafeSession_GetStorageAt :: "bind_env \<Rightarrow> GnosisSafeSession \<Rightarrow> _" where
  "GnosisSafeSession_GetStorageAt B s = GnosisSafe_GetStorageAt B (GnosisSafeCaller (ses_Contract s)) (Some (ses_CallOpts s))"

definition GnosisSafeSession_GetThreshold :: "bind_env \<Rightarrow> GnosisSafeSession \<Rightarrow> _" where
  "GnosisSafeSession_GetThreshold B s = GnosisSafe_GetThreshold B (GnosisSafeCaller (ses_Contract s)) (Some (ses_CallOpts s))"

definition GnosisSafeSession_GetTransactionHash :: "bind_env \<Rightarrow> GnosisSafeSession \<Rightarrow> _" where
  "GnosisSafeSession_GetTransactionHash B s = GnosisSafe_GetTransactionHash B (GnosisSafeCaller (ses_Contract s)) (Some (ses_CallOpts s))"

definition GnosisSafeSession_IsModuleEnabled :: "bind_env \<Rightarrow> GnosisSafeSession \<Rightarrow> _" where
  "GnosisSafeSession_IsModuleEnabled B s = GnosisSafe_IsModuleEnabled B (GnosisSafeCaller (ses_Contract s)) (Some (ses_CallOpts s))"

definition GnosisSafeSession_IsOwner :: "bind_env \<Rightarrow> GnosisSafeSession \<Rightarrow> _" where
  "GnosisSafeSession_IsOwner B s = GnosisSafe_IsOwner B (GnosisSafeCaller (ses_Contract s)) (Some (ses_CallOpts s))"

definition GnosisSafeSession_Nonce :: "bind_env \<Rightarrow> GnosisSafeSession \<Rightarrow> _" where
  "GnosisSafeSession_Nonce B s = GnosisSafe_Nonce B (GnosisSafeCaller (ses_Contract s)) (Some (ses_CallOpts s))"

definition GnosisSafeSession_SignedMessages :: "bind_env \<Rightarrow> GnosisSafeSession \<Rightarrow> _" where
  "GnosisSafeSession_SignedMessages B s = GnosisSafe_SignedMessages B (GnosisSafeCaller (ses_Contract s)) (Some (ses_CallOpts s))"

section \<open>Transactions of a session\<close>

definition GnosisSafeSession_AddOwnerWithThreshold :: "bind_env \<Rightarrow> GnosisSafeSession \<Rightarrow> _" where
  "GnosisSafeSession_AddOwnerWithThreshold B s = GnosisSafe_AddOwnerWithThreshold B (GnosisSafeTransactor (ses_Contract s)) (Some (ses_TransactOpts s))"

definition GnosisSafeSession_ApproveHash :: "bind_env \<Rightarrow> GnosisSafeSession \<Rightarrow> _" where
  "GnosisSafeSession_ApproveHash B s = GnosisSafe_ApproveHash B (GnosisSafeTransactor (ses_Contract s)) (Some (ses_TransactOpts s))"

definition GnosisSafeSession_ChangeThreshold :: "bind_env \<Rightarrow> GnosisSafeSession \<Rightarrow> _" where
  "GnosisSafeSession_ChangeThreshold B s = GnosisSafe_ChangeThreshold B (GnosisSafeTransactor (ses_Contract s)) (Some (ses_TransactOpts s))"

definition GnosisSafeSession_DisableModule :: "bind_env \<Rightarrow> GnosisSafeSession \<Rightarrow> _" where
  "GnosisSafeSession_DisableModule B s = GnosisSafe_DisableModule B (GnosisSafeTransactor (ses_Contract s)) (Some (ses_TransactOpts s))"

definition GnosisSafeSession_EnableModule :: "bind_env \<Rightarrow> GnosisSafeSession \<Rightarrow> _" where
  "GnosisSafeSession_EnableModule B s = GnosisSafe_EnableModule B (GnosisSafeTransactor (ses_Contract s)) (Some (ses_TransactOpts s))"

definition GnosisSafeSession_ExecTransaction :: "bind_env \<Rightarrow> GnosisSafeSession \<Rightarrow> _" where
  "GnosisSafeSession_ExecTransaction B s = GnosisSafe_ExecTransaction B (GnosisSafeTransactor (ses_Contract s)) (Some (ses_TransactOpts s))"

definition GnosisSafeSession_ExecTransactionFromModule :: "bind_env \<Rightarrow> GnosisSafeSession \<Rightarrow> _" where
  "GnosisSafeSession_ExecTransactionFromModule B s = GnosisSafe_ExecTransactionFromModule B (GnosisSafeTransactor (ses_Contract s)) (Some (ses_TransactOpts s))"

definition GnosisSafeSession_ExecTransactionFromModuleReturnData :: "bind_env \<Rightarrow> GnosisSafeSession \<Rightarrow> _" where
  "GnosisSafeSession_ExecTransactionFromModuleReturnData B s = GnosisSafe_ExecTransactionFromModuleReturnData B (GnosisSafeTransactor (ses_Contract s)) (Some (ses_TransactOpts s))"

definition GnosisSafeSession_RemoveOwner :: "bind_env \<Rightarrow> GnosisSafeSession \<Rightarrow> _" where
  "GnosisSafeSession_RemoveOwner B s = GnosisSafe_RemoveOwner B (GnosisSafeTransactor (ses_Contract s)) (Some (ses_TransactOpts s))"

definition GnosisSafeSession_RequiredTxGas :: "bind_env \<Rightarrow> GnosisSafeSession \<Rightarrow> _" where
  "GnosisSafeSession_RequiredTxGas B s = GnosisSafe_RequiredTxGas B (GnosisSafeTransactor (ses_Contract s)) (Some (ses_TransactOpts s))"

definition GnosisSafeSession_SetFallbackHandler :: "bind_env \<Rightarrow> GnosisSafeSession \<Rightarrow> _" where
  "GnosisSafeSession_SetFallbackHandler B s = GnosisSafe_SetFallbackHandler B (GnosisSafeTransactor (ses_Contract s)) (Some (ses_TransactOpts s))"

definition GnosisSafeSession_SetGuard :: "bind_env \<Rightarrow> GnosisSafeSession \<Rightarrow> _" where
  "GnosisSafeSession_SetGuard B s = GnosisSafe_SetGuard B (GnosisSafeTransactor (ses_Contract s)) (Some (ses_TransactOpts s))"

definition GnosisSafeSession_Setup :: "bind_env \<Rightarrow> GnosisSafeSession \<Rightarrow> _" where
  "GnosisSafeSession_Setup B s = GnosisSafe_Setup B (GnosisSafeTransactor (ses_Contract s)) (Some (ses_TransactOpts s))"

definition GnosisSafeSession_SimulateAndRevert :: "bind_env \<Rightarrow> GnosisSafeSession \<Rightarrow> _" where
  "GnosisSafeSession_SimulateAndRevert B s = GnosisSafe_SimulateAndRevert B (GnosisSafeTransactor (ses_Contract s)) (Some (ses_TransactOpts s))"

definition GnosisSafeSession_SwapOwner :: "bind_env \<Rightarrow> GnosisSafeSession \<Rightarrow> _" where
  "GnosisSafeSession_SwapOwner B s = GnosisSafe_SwapOwner B (GnosisSafeTransactor (ses_Contract s)) (Some (ses_TransactOpts s))"

definition GnosisSafeSession_Fallback :: "bind_env \<Rightarrow> GnosisSafeSession \<Rightarrow> _" where
  "GnosisSafeSession_Fallback B s = GnosisSafe_Fallback B (GnosisSafeTransactor (ses_Contract s)) (Some (ses_TransactOpts s))"

definition GnosisSafeSession_Receive :: "bind_env \<Rightarrow> GnosisSafeSession \<Rightarrow> _" where
  "GnosisSafeSession_Receive B s = GnosisSafe_Receive B (GnosisSafeTransactor (ses_Contract s)) (Some (ses_TransactOpts s))"

section \<open>Calls of a caller session\<close>

definition GnosisSafeCallerSession_VERSION :: "bind_env \<Rightarrow> GnosisSafeCallerSession \<Rightarrow> _" where
  "GnosisSafeCallerSession_VERSION B s = GnosisSafe_VERSION B (cs_Contract s) (Some (cs_CallOpts s))"

definition GnosisSafeCallerSession_ApprovedHashes :: "bind_env \<Rightarrow> GnosisSafeCallerSession \<Rightarrow> _" where
  "GnosisSafeCallerSession_ApprovedHashes B s = GnosisSafe_ApprovedHashes B (cs_Contract s) (Some (cs_CallOpts s))"

definition GnosisSafeCallerSession_CheckNSignatures :: "bind_env \<Rightarrow> GnosisSafeCallerSession \<Rightarrow> _" where
  "GnosisSafeCallerSession_CheckNSignatures B s = GnosisSafe_CheckNSignatures B (cs_Contract s) (Some (cs_CallOpts s))"

definition GnosisSafeCallerSession_CheckSignatures :: "bind_env \<Rightarrow> GnosisSafeCallerSession \<Rightarrow> _" where
  "GnosisSafeCallerSession_CheckSignatures B s = GnosisSafe_CheckSignatures B (cs_Contract s) (Some (cs_CallOpts s))"

definition GnosisSafeCallerSession_DomainSeparator :: "bind_env \<Rightarrow> GnosisSafeCallerSession \<Rightarrow> _" where
  "GnosisSafeCallerSession_DomainSeparator B s = GnosisSafe_DomainSeparator B (cs_Contract s) (Some (cs_CallOpts s))"

definition GnosisSafeCallerSession_EncodeTransactionData :: "bind_env \<Rightarrow> GnosisSafeCallerSession \<Rightarrow> _" where
  "GnosisSafeCallerSession_EncodeTransactionData B s = GnosisSafe_EncodeTransactionData B (cs_Contract s) (Some (cs_CallOpts s))"

definition GnosisSafeCallerSession_GetChainId :: "bind_env \<Rightarrow> GnosisSafeCallerSession \<Rightarrow> _" where
  "GnosisSafeCallerSession_GetChainId B s = GnosisSafe_GetChainId B (cs_Contract s) (Some (cs_CallOpts s))"

definition GnosisSafeCallerSession_GetModulesPaginated :: "bind_env \<Rightarrow> GnosisSafeCallerSession \<Rightarrow> _" where
  "GnosisSafeCallerSession_GetModulesPaginated B s = GnosisSafe_GetModulesPaginated B (cs_Contract s) (Some (cs_CallOpts s))"

definition GnosisSafeCallerSession_GetOwners :: "bind_env \<Rightarrow> GnosisSafeCallerSession \<Rightarrow> _" where
  "GnosisSafeCallerSession_GetOwners B s = GnosisSafe_GetOwners B (cs_Contract s) (Some (cs_CallOpts s))"

definition GnosisSafeCallerSession_GetStorageAt :: "bind_env \<Rightarrow> GnosisSafeCallerSession \<Rightarrow> _" where
  "GnosisSafeCallerSession_GetStorageAt B s = GnosisSafe_GetStorageAt B (cs_Contract s) (Some (cs_CallOpts s))"

definition GnosisSafeCallerSession_GetThreshold :: "bind_env \<Rightarrow> GnosisSafeCallerSession \<Rightarrow> _" where
  "GnosisSafeCallerSession_GetThreshold B s = GnosisSafe_GetThreshold B (cs_Contract s) (Some (cs_CallOpts s))"

definition GnosisSafeCallerSession_GetTransactionHash :: "bind_env \<Rightarrow> GnosisSafeCallerSession \<Rightarrow> _" where
  "GnosisSafeCallerSession_GetTransactionHash B s = GnosisSafe_GetTransactionHash B (cs_Contract s) (Some (cs_CallOpts s))"

definition GnosisSafeCallerSession_IsModuleEnabled :: "bind_env \<Rightarrow> GnosisSafeCallerSession \<Rightarrow> _" where
  "GnosisSafeCallerSession_IsModuleEnabled B s = GnosisSafe_IsModuleEnabled B (cs_Contract s) (Some (cs_CallOpts s))"

definition GnosisSafeCallerSession_IsOwner :: "bind_env \<Rightarrow> GnosisSafeCallerSession \<Rightarrow> _" where
  "GnosisSafeCallerSession_IsOwner B s = GnosisSafe_IsOwner B (cs_Contract s) (Some (cs_CallOpts s))"

definition GnosisSafeCallerSession_Nonce :: "bind_env \<Rightarrow> GnosisSafeCallerSession \<Rightarrow> _" where
  "GnosisSafeCallerSession_Nonce B s = GnosisSafe_Nonce B (cs_Contract s) (Some (cs_CallOpts s))"

definition GnosisSafeCallerSession_SignedMessages :: "bind_env \<Rightarrow> GnosisSafeCallerSession \<Rightarrow> _" where
  "GnosisSafeCallerSession_SignedMessages B s = GnosisSafe_SignedMessages B (cs_Contract s) (Some (cs_CallOpts s))"

section \<open>Transactions of a transactor session\<close>

definition GnosisSafeTransactorSession_AddOwnerWithThreshold :: "bind_env \<Rightarrow> GnosisSafeTransactorSession \<Rightarrow> _" where
  "GnosisSafeTransactorSession_AddOwnerWithThreshold B s = GnosisSafe_AddOwnerWithThreshold B (ts_Contract s) (Some (ts_TransactOpts s))"

definition GnosisSafeTransactorSession_ApproveHash :: "bind_env \<Rightarrow> GnosisSafeTransactorSession \<Rightarrow> _" where
  "GnosisSafeTransactorSession_ApproveHash B s = GnosisSafe_ApproveHash B (ts_Contract s) (Some (ts_TransactOpts s))"

definition GnosisSafeTransactorSession_ChangeThreshold :: "bind_env \<Rightarrow> GnosisSafeTransactorSession \<Rightarrow> _" where
  "GnosisSafeTransactorSession_ChangeThreshold B s = GnosisSafe_ChangeThreshold B (ts_Contract s) (Some (ts_TransactOpts s))"

definition GnosisSafeTransactorSession_DisableModule :: "bind_env \<Rightarrow> GnosisSafeTransactorSession \<Rightarrow> _" where
  "GnosisSafeTransactorSession_DisableModule B s = GnosisSafe_DisableModule B (ts_Contract s) (Some (ts_TransactOpts s))"

definition GnosisSafeTransactorSession_EnableModule :: "bind_env \<Rightarrow> GnosisSafeTransactorSession \<Rightarrow> _" where
  "GnosisSafeTransactorSession_EnableModule B s = GnosisSafe_EnableModule B (ts_Contract s) (Some (ts_TransactOpts s))"

definition GnosisSafeTransactorSession_ExecTransaction :: "bind_env \<Rightarrow> GnosisSafeTransactorSession \<Rightarrow> _" where
  "GnosisSafeTransactorSession_ExecTransaction B s = GnosisSafe_ExecTransaction B (ts_Contract s) (Some (ts_TransactOpts s))"

definition GnosisSafeTransactorSession_ExecTransactionFromModule :: "bind_env \<Rightarrow> GnosisSafeTransactorSession \<Rightarrow> _" where
  "GnosisSafeTransactorSession_ExecTransactionFromModule B s = GnosisSafe_ExecTransactionFromModule B (ts_Contract s) (Some (ts_TransactOpts s))"

definition GnosisSafeTransactorSession_ExecTransactionFromModuleReturnData :: "bind_env \<Rightarrow> GnosisSafeTransactorSession \<Rightarrow> _" where
  "GnosisSafeTransactorSession_ExecTransactionFromModuleReturnData B s = GnosisSafe_ExecTransactionFromModuleReturnData B (ts_Contract s) (Some (ts_TransactOpts s))"

definition GnosisSafeTransactorSession_RemoveOwner :: "bind_env \<Rightarrow> GnosisSafeTransactorSession \<Rightarrow> _" where
  "GnosisSafeTransactorSession_RemoveOwner B s = GnosisSafe_RemoveOwner B (ts_Contract s) (Some (ts_TransactOpts s))"

definition GnosisSafeTransactorSession_RequiredTxGas :: "bind_env \<Rightarrow> GnosisSafeTransactorSession \<Rightarrow> _" where
  "GnosisSafeTransactorSession_RequiredTxGas B s = GnosisSafe_RequiredTxGas B (ts_Contract s) (Some (ts_TransactOpts s))"

definition GnosisSafeTransactorSession_SetFallbackHandler :: "bind_env \<Rightarrow> GnosisSafeTransactorSession \<Rightarrow> _" where
  "GnosisSafeTransactorSession_SetFallbackHandler B s = GnosisSafe_SetFallbackHandler B (ts_Contract s) (Some (ts_TransactOpts s))"

definition GnosisSafeTransactorSession_SetGuard :: "bind_env \<Rightarrow> GnosisSafeTransactorSession \<Rightarrow> _" where
  "GnosisSafeTransactorSession_SetGuard B s = GnosisSafe_SetGuard B (ts_Contract s) (Some (ts_TransactOpts s))"

definition GnosisSafeTransactorSession_Setup :: "bind_env \<Rightarrow> GnosisSafeTransactorSession \<Rightarrow> _" where
  "GnosisSafeTransactorSession_Setup B s = GnosisSafe_Setup B (ts_Contract s) (Some (ts_TransactOpts s))"

definition GnosisSafeTransactorSession_SimulateAndRevert :: "bind_env \<Rightarrow> GnosisSafeTransactorSession \<Rightarrow> _" where
  "GnosisSafeTransactorSession_SimulateAndRevert B s = GnosisSafe_SimulateAndRevert B (ts_Contract s) (Some (ts_TransactOpts s))"

definition GnosisSafeTransactorSession_SwapOwner :: "bind_env \<Rightarrow> GnosisSafeTransactorSession \<Rightarrow> _" where
  "GnosisSafeTransactorSession_SwapOwner B s = GnosisSafe_SwapOwner B (ts_Contract s) (Some (ts_TransactOpts s))"

definition GnosisSafeTransactorSession_Fallback :: "bind_env \<Rightarrow> GnosisSafeTransactorSession \<Rightarrow> _" where
  "GnosisSafeTransactorSession_Fallback B s = GnosisSafe_Fallback B (ts_Contract s) (Some (ts_TransactOpts s))"

definition GnosisSafeTransactorSession_Receive :: "bind_env \<Rightarrow> GnosisSafeTransactorSession \<Rightarrow> _" where
  "GnosisSafeTransactorSession_Receive B s = GnosisSafe_Receive B (ts_Contract s) (Some (ts_TransactOpts s))"

section \<open>The parts of a session\<close>

text \<open>A session does what the sessions of its two parts do.\<close>

definition caller_session :: "GnosisSafeSession \<Rightarrow> GnosisSafeCallerSession" where
  "caller_session s = \<lparr>cs_Contract = GnosisSafeCaller (ses_Contract s), cs_CallOpts = ses_CallOpts s\<rparr>"

definition transactor_session :: "GnosisSafeSession \<Rightarrow> GnosisSafeTransactorSession" where
  "transactor_session s = \<lparr>ts_Contract = GnosisSafeTransactor (ses_Contract s), ts_TransactOpts = ses_TransactOpts s\<rparr>"

lemma caller_session_agrees:
  "GnosisSafeSession_VERSION B s = GnosisSafeCallerSession_VERSION B (caller_session s) \<and>
   GnosisSafeSession_ApprovedHashes B s = GnosisSafeCallerSession_ApprovedHashes B (caller_session s) \<and>
   GnosisSafeSession_CheckNSignatures B s = GnosisSafeCallerSession_CheckNSignatures B (caller_session s) \<and>
   GnosisSafeSession_CheckSignatures B s = GnosisSafeCallerSession_CheckSignatures B (caller_session s) \<and>
   GnosisSafeSession_DomainSeparator B s = GnosisSafeCallerSession_DomainSeparator B (caller_session s) \<and>
   GnosisSafeSession_EncodeTransactionData B s = GnosisSafeCallerSession_EncodeTransactionData B (caller_session s) \<and>
   GnosisSafeSession_GetChainId B s = GnosisSafeCallerSession_GetChainId B (caller_session s) \<and>
   GnosisSafeSession_GetModulesPaginated B s = GnosisSafeCallerSession_GetModulesPaginated B (caller_session s) \<and>
   GnosisSafeSession_GetOwners B s = GnosisSafeCallerSession_GetOwners B (caller_session s) \<and>
   GnosisSafeSession_GetStorageAt B s = GnosisSafeCallerSession_GetStorageAt B (caller_session s) \<and>
   GnosisSafeSession_GetThreshold B s = GnosisSafeCallerSession_GetThreshold B (caller_session s) \<and>
   GnosisSafeSession_GetTransactionHash B s = GnosisSafeCallerSession_GetTransactionHash B (caller_session s) \<and>
   GnosisSafeSession_IsModuleEnabled B s = GnosisSafeCallerSession_IsModuleEnabled B (caller_session s) \<and>
   GnosisSafeSession_IsOwner B s = GnosisSafeCallerSession_IsOwner B (caller_session s) \<and>
   GnosisSafeSession_Nonce B s = GnosisSafeCallerSession_Nonce B (caller_session s) \<and>
   GnosisSafeSession_SignedMessages B s = GnosisSafeCallerSession_SignedMessages B (caller_session s)"
  by (simp add: caller_session_def GnosisSafeSession_VERSION_def GnosisSafeCallerSession_VERSION_def
    GnosisSafeSession_ApprovedHashes_def GnosisSafeCallerSession_ApprovedHashes_def
    GnosisSafeSession_CheckNSignatures_def GnosisSafeCallerSession_CheckNSignatures_def
    GnosisSafeSession_CheckSignatures_def GnosisSafeCallerSession_CheckSignatures_def
    GnosisSafeSession_DomainSeparator_def GnosisSafeCallerSession_DomainSeparator_def
    GnosisSafeSession_EncodeTransactionData_def GnosisSafeCallerSession_EncodeTransactionData_def
    GnosisSafeSession_GetChainId_def GnosisSafeCallerSession_GetChainId_def
    GnosisSafeSession_GetModulesPaginated_def GnosisSafeCallerSession_GetModulesPaginated_def
    GnosisSafeSession_GetOwners_def GnosisSafeCallerSession_GetOwners_def
    GnosisSafeSession_GetStorageAt_def GnosisSafeCallerSession_GetStorageAt_def
    GnosisSafeSession_GetThreshold_def GnosisSafeCallerSession_GetThreshold_def
    GnosisSafeSession_GetTransactionHash_def GnosisSafeCallerSession_GetTransactionHash_def
    GnosisSafeSession_IsModuleEnabled_def GnosisSafeCallerSession_IsModuleEnabled_def
    GnosisSafeSession_IsOwner_def GnosisSafeCallerSession_IsOwner_def
    GnosisSafeSession_Nonce_def GnosisSafeCallerSession_Nonce_def
    GnosisSafeSession_SignedMessages_def GnosisSafeCallerSession_SignedMessages_def)

lemma transactor_session_agrees:
  "GnosisSafeSession_AddOwnerWithThreshold B s = GnosisSafeTransactorSession_AddOwnerWithThreshold B (transactor_session s) \<and>
   GnosisSafeSession_ApproveHash B s = GnosisSafeTransactorSession_ApproveHash B (transactor_session s) \<and>
   GnosisSafeSession_ChangeThreshold B s = GnosisSafeTransactorSession_ChangeThreshold B (transactor_session s) \<and>
   GnosisSafeSession_DisableModule B s = GnosisSafeTransactorSession_DisableModule B (transactor_session s) \<and>
   GnosisSafeSession_EnableModule B s = GnosisSafeTransactorSession_EnableModule B (transactor_session s) \<and>
   GnosisSafeSession_ExecTransaction B s = GnosisSafeTransactorSession_ExecTransaction B (transactor_session s) \<and>
   GnosisSafeSession_ExecTransactionFromModule B s = GnosisSafeTransactorSession_ExecTransactionFromModule B (transactor_session s) \<and>
   GnosisSafeSession_ExecTransactionFromModuleReturnData B s = GnosisSafeTransactorSession_ExecTransactionFromModuleReturnData B (transactor_session s) \<and>
   GnosisSafeSession_RemoveOwner B s = GnosisSafeTransactorSession_RemoveOwner B (transactor_session s) \<and>
   GnosisSafeSession_RequiredTxGas B s = GnosisSafeTransactorSession_RequiredTxGas B (transactor_session s) \<and>
   GnosisSafeSession_SetFallbackHandler B s = GnosisSafeTransactorSession_SetFallbackHandler B (transactor_session s) \<and>
   GnosisSafeSession_SetGuard B s = GnosisSafeTransactorSession_SetGuard B (transactor_session s) \<and>
   GnosisSafeSession_Setup B s = GnosisSafeTransactorSession_Setup B (transactor_session s) \<and>
   GnosisSafeSession_SimulateAndRevert B s = GnosisSafeTransactorSession_SimulateAndRevert B (transactor_session s) \<and>
   GnosisSafeSession_SwapOwner B s = GnosisSafeTransactorSession_SwapOwner B (transactor_session s) \<and>
   GnosisSafeSession_Fallback B s = GnosisSafeTransactorSession_Fallback B (transactor_session s) \<and>
   GnosisSafeSession_Receive B s = GnosisSafeTransactorSession_Receive B (transactor_session s)"
  by (simp add: transactor_session_def GnosisSafeSession_AddOwnerWithThreshold_def GnosisSafeTransactorSession_AddOwnerWithThreshold_def
    GnosisSafeSession_ApproveHash_def GnosisSafeTransactorSession_ApproveHash_def
    GnosisSafeSession_ChangeThreshold_def GnosisSafeTransactorSession_ChangeThreshold_def
    GnosisSafeSession_DisableModule_def GnosisSafeTransactorSession_DisableModule_def
    GnosisSafeSession_EnableModule_def GnosisSafeTransactorSession_EnableModule_def
    GnosisSafeSession_ExecTransaction_def GnosisSafeTransactorSession_ExecTransaction_def
    GnosisSafeSession_ExecTransactionFromModule_def GnosisSafeTransactorSession_ExecTransactionFromModule_def
    GnosisSafeSession_ExecTransactionFromModuleReturnData_def GnosisSafeTransactorSession_ExecTransactionFromModuleReturnData_def
    GnosisSafeSession_RemoveOwner_def GnosisSafeTransactorSession_RemoveOwner_def
    GnosisSafeSession_RequiredTxGas_def GnosisSafeTransactorSession_RequiredTxGas_def
    GnosisSafeSession_SetFallbackHandler_def GnosisSafeTransactorSession_SetFallbackHandler_def
    GnosisSafeSession_SetGuard_def GnosisSafeTransactorSession_SetGuard_def
    GnosisSafeSession_Setup_def GnosisSafeTransactorSession_Setup_def
    GnosisSafeSession_SimulateAndRevert_def GnosisSafeTransactorSession_SimulateAndRevert_def
    GnosisSafeSession_SwapOwner_def GnosisSafeTransactorSession_SwapOwner_def
    GnosisSafeSession_Fallback_def GnosisSafeTransactorSession_Fallback_def
    GnosisSafeSession_Receive_def GnosisSafeTransactorSession_Receive_def)

end
