(* ===== verification/Spec2Isabelle.thy ===== *)
theory Spec2Isabelle
  imports NodeLocks SlotKey SharedReads Background GnosisSafeEvents GnosisSafeSessions
begin

text \<open>
  Verification of mfer-node, a node that lets a wallet simulate transactions from any account on top
  of the state of an upstream Ethereum node.

  \<^bold>\<open>The program.\<close> A layered, copy-on-write store over a cache of the upstream state
  (\<^verbatim>\<open>mferstate\<close>) is the state database of go-ethereum's virtual machine, which the object \<^verbatim>\<open>MferEVM\<close>
  (\<^verbatim>\<open>mferevm\<close>) drives. Sent transactions are signed for any sender (\<^verbatim>\<open>mfersigner\<close>), executed, and kept
  in a pool with their results (\<^verbatim>\<open>mfertxpool\<close>); when the chain moves on, the pool is executed again
  on the new state. The RPC services (\<^verbatim>\<open>mferbackend\<close>) answer calls, gas estimates, state queries, traces
  and probes (\<^verbatim>\<open>mfertracer\<close>), and turn the pool into one transaction of a Gnosis Safe (\<^verbatim>\<open>multisend\<close>).
  \<^verbatim>\<open>cmd/mfer-node\<close> puts the node together.

  \<^bold>\<open>State and effects.\<close> Everything that is shared by pointer is in the record \<open>world\<close>: the layers
  (\<open>heap\<close>, a pointer is an index), the cell of the block number that machine, database and root
  share, the big integers of the block context (\<open>bigs\<close>), the key cache file, and the number of
  requests sent so far (\<open>clock\<close>). Objects with one owner (\<open>OverlayStateDB\<close>, \<open>MferEVM\<close>, \<open>MferTxPool\<close>,
  \<open>MferBackend\<close>) are records that an operation takes and returns. \<^const>\<open>None\<close> is a panic or a loop that never
  ends (\<^theory_text>\<open>partial_function (option)\<close>), \<^const>\<open>Inl\<close> is a Go error. Integers keep their width where Go's do:
  64-bit words for nonces, gas and block numbers, 256-bit words for hashes and slots, unbounded
  integers for \<^verbatim>\<open>big.Int\<close>. A Go map is an association list with distinct keys.

  \<^bold>\<open>What is outside.\<close> Three records are parameters of the definitions. \<open>env\<close> holds the Keccak hash, random
  numbers, the clock's text, file errors and the upstream node's answers to batch requests, with
  transport failures by request number. \<open>geth\<close> holds go-ethereum's virtual machine, tracers,
  signing functions and the other requests to the upstream node; its field \<open>bind_env\<close> is the package of contract calls,
  once over the upstream connection and once over the node's connection to itself. \<open>os_env\<close> holds what the operating
  system and the HTTP server answer to \<^verbatim>\<open>main\<close>. The virtual machine is
  an interaction tree (theory VM): which method of \<^verbatim>\<open>vm.StateDB\<close> it calls next, given the answers so
  far. What is relied on has names: \<open>upstream_ok\<close> (the six hashed key prefixes differ, answers at a block
  number are stable, the transport recovers), \<open>machine_ok\<close> and \<open>traced_ok\<close> (the machine and its tracers only
  return to snapshots they took), \<open>tracers_build\<close>, \<open>headers_ok\<close>, \<open>stores_signature\<close>, \<open>reports_sender\<close>,
  \<open>typed_answers\<close> (results of contract calls have the types of the interface). Witnesses
  instantiate them with \<open>demo_env\<close> and \<open>demo_geth\<close>.

  \<^bold>\<open>Theories, from the bottom.\<close>
  \<^item> Prelude: bytes, words, codecs, maps, slices; the locales \<open>safe_machine\<close> for step relations that never
    fail and \<open>live_machine\<close> for those that can always finish. Geth: go-ethereum's data. Constant: \<^verbatim>\<open>constant/\<close>.
    Mutex: goroutines around a \<^verbatim>\<open>sync.Mutex\<close>, with the locale \<open>locked_handlers\<close>: what handlers keep to so that every interleaving
    is explained by a serial order.
  \<^item> OverlayState: \<^verbatim>\<open>mferstate/overlaystate.go\<close>, layers, the read path, batch requests with retries, the
    ticks of the request batcher. Upstream: the contract of the upstream node and what the request loops
    return, with the two ways they fail: giving up after six transport errors, and never returning with
    batch size 0. Layers: the invariant \<open>wf_world\<close>; a read returns \<open>view\<close>, the nearest written
    value or the upstream one. SharedReads: any number of reading goroutines and the batcher, interleaved at their
    channel operations and at their accesses to the cache.
  \<^item> OverlayStateDB: \<^verbatim>\<open>mferstate/overlaystatedb.go\<close>, all methods. The locale \<open>cell\<close> is the contract of a
    getter and a setter, interpreted for balance, nonce, code hash, code and slot.
  \<^item> VM, Journal: the interface to the virtual machine and its abstract specification, a journal
    with a stack of saved copies. The locale \<open>answers_like\<close> is a simulation of one state machine by
    another; its interpretation \<open>db_journal\<close> shows that the layered database implements the journal,
    from which snapshot/revert and the isolation of clones follow.
  \<^item> Frames: which layers an operation may have written to (\<open>moved\<close>, \<open>grown\<close>), and the types of the
    interface. StateDiff: \<^verbatim>\<open>GetStateDiff\<close> and that its overrides reproduce the local state. BlockMove:
    \<^verbatim>\<open>resetScratchPad\<close> and \<^verbatim>\<open>InitState\<close> after the block number moved.
  \<^item> Bind: values and types of a contract interface and the code all generated bindings share: converted calls,
    iterators, watching goroutines. GnosisSafe, GnosisSafeEvents, GnosisSafeSessions, MultiSendCallOnly: \<^verbatim>\<open>multisend/gen_*.go\<close>, the interface as a
    table, one definition per call, transaction and operation of an event. The locale \<open>event_binding\<close> is what the
    operations of an event share, interpreted for each of the fifteen.
  \<^item> TxPool, Signer, Multisend, SlotKey, TxArgs, Tracers: the files of these names
    (\<^verbatim>\<open>mferbackend/ethinternaltypes.go\<close> is TxArgs; Multisend has \<^verbatim>\<open>safe.go\<close> too). Multisend has the locale \<open>framed_codec\<close> (items that can be
    read off the front of a byte string), Tracers the locale \<open>looking_tracer\<close> (tracers that only read).
  \<^item> Chain, MferEVM: the record \<open>geth\<close>; \<^verbatim>\<open>mferevm/evm.go\<close>. Ledger, Execution: the abstract specification of executing
    messages and transactions, a ledger without layers, snapshots and caches, and that \<^verbatim>\<open>ExecuteMsg\<close> and \<^verbatim>\<open>ExecuteTxs\<close> implement it.
    Background: the subscription to new heads and its renewal, the display of request counts, \<^verbatim>\<open>utils/mem.go\<close>.
  \<^item> Backend, RpcApi, ActionApi, DebugApi, ProbeApi, NodeMain: \<^verbatim>\<open>mferbackend/\<close> and \<^verbatim>\<open>cmd/mfer-node/main.go\<close>, one
    definition per handler.
  \<^item> NodeCalls, NodeMoves, NodeTraces, NodeSafe: each handler returns from a node in order (\<open>node_ok\<close>) and leaves one
    behind. Node: start-up, and the node as a state machine \<open>node_step\<close> over the requests of
    \<open>serve\<close>. NodeSpec: what the node as a whole promises. NodeLocks: the handlers that change the node in
    stages around its state lock, with the interpretation of \<open>locked_handlers\<close>, and two interleavings of handlers that change the pool outside it.

  \<^bold>\<open>What is shown.\<close> The claims C1 to C40 stand before their theorems. Of the state: reads (C1), the
  refinement of the journal (C2), snapshot and revert (C6), clones (C7), the move to a new
  block (C11), concurrent reads (C15, C17), types of the interface (C24), setters and
  getters (C28, C39). Of the request loops: C38. Of execution: the refinement of the
  ledger (C4), a message (C16), tracing (C32). Of the node: the invariant along
  every sequence of requests (C3), that requests are served (C12), that start-up ends (C14),
  interleaved requests (C5, C13, C22, C23), re-execution of the pool (C8),
  calls without effect (C9), forwarded calls (C10), sending (C20), clearing
  (C21), replaying (C19), the simulation of a Safe transaction (C18), the probe's side effect
  (C33). Of the contract bindings: C25, C26, C27. Of
  the parts: pool (C29), signer (C30), packing for the Safe (C31, C34), the random
  address (C35), arguments (C36), the upstream URL (C37), formatted traces (C40). Other
  theorems stand without a number, such as the ones on balances, removal from the pool, the state tracer, warming up the cache and a batch size of zero.

  \<^bold>\<open>Bounds and fuel.\<close> No definition has fuel. Loops that may not end are \<^theory_text>\<open>partial_function (option)\<close>
  and are proved to return: retries because the transport recovers, walks down the layers because
  parents are older layers, start-up because the upstream node can be dialled from some time on.
  The interaction tree of a message is well founded, as the machine ends by gas.

  \<^bold>\<open>Concurrency.\<close> \<open>node_step\<close> serves requests one after the other in any order. Below that level, SharedReads interleaves the goroutines
  that read through one root with the batcher, and shows that each reads what it would read alone. NodeLocks interleaves the handlers that change
  the node at the state lock and at each call that acts on the node: those that do all their work under the lock are as good as served one after the
  other; \<^verbatim>\<open>ClearTxPool\<close> and \<^verbatim>\<open>SendRawTransaction\<close> are not. The actions there are whole calls, such as the execution of a transaction: finer
  steps of the handlers under the lock would make no difference to each other, and finer steps of the others would only add interleavings.
  The other goroutines inside an operation are sequences: the workers of \<^verbatim>\<open>WarmUpCache\<close> by a schedule that is a parameter, the background loop
  of \<^verbatim>\<open>updatePendingBN\<close> by one step per event, a watching goroutine by the outcomes of its \<^verbatim>\<open>select\<close> statements.

  \<^bold>\<open>Not modelled.\<close> The mutexes inside a layer, contexts, timeouts and where log output goes; go-ethereum's package below the contract bindings; the parser of
  flags and the HTTP server below \<^verbatim>\<open>main\<close>. Reads and simulations, which take no lock, are not interleaved with the handlers that write.
\<close>

end
